(* ===== verification/QPrelude.thy ===== *)
theory QPrelude
  imports Main "HOL-Library.Word" "HOL-Library.AList" "HOL-Library.Stream"
begin

unbundle bit_operations_syntax

text \<open>
  Shared vocabulary of the development.

  \<^item> Machine types: \<open>byte\<close> is \<open>uint8_t\<close> (and a C++ \<open>char\<close> read as its eight bits), \<open>u16\<close>,
    \<open>u32\<close>, \<open>u64\<close> are the unsigned integers of those widths; their arithmetic wraps.
  \<^item> \<open>std::string\<close> is \<open>string\<close> (one HOL character is one byte); \<open>std::vector<uint8_t>\<close> and
    \<open>std::array<char, n>\<close> are \<open>byte list\<close>. The casts between them are \<open>bytes_of\<close> and
    \<open>string_of\<close>.
  \<^item> Failure is a value: \<open>Inl (Throw e)\<close> is a C++ exception, \<open>Inl (UB what)\<close> an execution the
    C++ standard gives no meaning to (an access outside an object, a null pointer).
  \<^item> \<open>std::unordered_map\<close> is an association list with distinct keys, updated by
    \<open>AList.update\<close>; its order stands for the container's unspecified iteration order.
\<close>

type_synonym byte = "8 word"
type_synonym u16 = "16 word"
type_synonym u32 = "32 word"
type_synonym u64 = "64 word"

section \<open>Failure values\<close>

datatype cpp_exn =
    RuntimeError string      \<comment> \<open>\<open>std::runtime_error\<close>\<close>
  | OutOfRange               \<comment> \<open>\<open>std::out_of_range\<close> of \<open>substr\<close>, \<open>stoi\<close>, \<open>stoul\<close>\<close>
  | InvalidArgument          \<comment> \<open>\<open>std::invalid_argument\<close> of \<open>stoi\<close>, \<open>stoul\<close>\<close>
  | FilesystemError          \<comment> \<open>\<open>std::filesystem::filesystem_error\<close>\<close>
  | SystemError              \<comment> \<open>\<open>asio::system_error\<close> (sockets, address resolution)\<close>

datatype failure = Throw cpp_exn | UB string

type_synonym 'a res = "failure + 'a"

definition bind_res :: "'a res \<Rightarrow> ('a \<Rightarrow> 'b res) \<Rightarrow> 'b res" where
  "bind_res r f = (case r of Inl e \<Rightarrow> Inl e | Inr x \<Rightarrow> f x)"

named_theorems qsimps \<open>evaluation rules of the model's small helpers\<close>

lemma bind_res_simps [simp, qsimps]:
  "bind_res (Inl e) f = Inl e"
  "bind_res (Inr x) f = f x"
  by (simp_all add: bind_res_def)

lemma bind_res_Inr_iff: "bind_res r f = Inr y \<longleftrightarrow> (\<exists>x. r = Inr x \<and> f x = Inr y)"
  by (cases r) simp_all

lemma bind_res_Inl_iff:
  "bind_res r f = Inl e \<longleftrightarrow> r = Inl e \<or> (\<exists>x. r = Inr x \<and> f x = Inl e)"
  by (cases r) simp_all

definition throw :: "string \<Rightarrow> 'a res" where
  "throw msg = Inl (Throw (RuntimeError msg))"

definition is_ub :: "'a res \<Rightarrow> bool" where
  "is_ub r = (case r of Inl (UB _) \<Rightarrow> True | _ \<Rightarrow> False)"

lemma is_ub_simps [simp, qsimps]:
  "is_ub (Inr x) = False"
  "is_ub (Inl (Throw e)) = False"
  "is_ub (Inl (UB w)) = True"
  "is_ub (throw m) = False"
  by (simp_all add: is_ub_def throw_def)

lemma throw_neq_Inr [simp]: "throw m \<noteq> Inr x"
  by (simp add: throw_def)

text \<open>A \<open>catch (const std::exception\&)\<close> clause takes exceptions, never undefined behaviour.\<close>

definition catch_res :: "'a res \<Rightarrow> (cpp_exn \<Rightarrow> 'a res) \<Rightarrow> 'a res" where
  "catch_res r h = (case r of Inl (Throw e) \<Rightarrow> h e | _ \<Rightarrow> r)"

lemma catch_res_simps [simp, qsimps]:
  "catch_res (Inr x) h = Inr x"
  "catch_res (Inl (Throw e)) h = h e"
  "catch_res (Inl (UB w)) h = Inl (UB w)"
  "catch_res (throw m) h = h (RuntimeError m)"
  by (simp_all add: catch_res_def throw_def)

section \<open>Bytes and characters\<close>

definition byte_of :: "char \<Rightarrow> byte" where
  "byte_of c = word_of_nat (of_char c)"

definition char_of_byte :: "byte \<Rightarrow> char" where
  "char_of_byte b = char_of (unat b)"

abbreviation bytes_of :: "string \<Rightarrow> byte list" where
  "bytes_of s \<equiv> map byte_of s"

abbreviation string_of :: "byte list \<Rightarrow> string" where
  "string_of bs \<equiv> map char_of_byte bs"

lemma of_char_less_256: "of_char c < (256 :: nat)"
  using of_char_mod_256 [of c, where ?'a = nat] by (metis mod_less_divisor zero_less_numeral)

lemma unat_byte_of [simp]: "unat (byte_of c) = of_char c"
  using of_char_less_256 [of c] by (simp add: byte_of_def unat_of_nat)

lemma char_of_byte_of [simp]: "char_of_byte (byte_of c) = c"
  by (simp add: char_of_byte_def)

lemma byte_of_char_of_byte [simp]: "byte_of (char_of_byte b) = b"
proof -
  have "unat b < 256" using unsigned_less [of b, where ?'a = nat] by simp
  then show ?thesis by (simp add: byte_of_def char_of_byte_def)
qed

lemma byte_of_eq_iff [simp]: "byte_of c = byte_of d \<longleftrightarrow> c = d"
  by (metis char_of_byte_of)

lemma char_of_byte_eq_iff [simp]: "char_of_byte b = char_of_byte c \<longleftrightarrow> b = c"
  by (metis byte_of_char_of_byte)

lemma byte_comp [simp]:
  "char_of_byte \<circ> byte_of = id" "byte_of \<circ> char_of_byte = id"
  by (auto simp: fun_eq_iff)

lemma bytes_string_round [simp]: "bytes_of (string_of bs) = bs"
  by simp

lemma string_bytes_round [simp]: "string_of (bytes_of s) = s"
  by simp

lemma xor_right_cancel: "a XOR k = b XOR k \<longleftrightarrow> a = (b :: 'a::len word)"
  by (metis xor.assoc xor.right_neutral xor_self_eq)

section \<open>Lists\<close>

lemma take_drop_append3:
  "length a = n \<Longrightarrow> take n (a @ b) = a" "length a = n \<Longrightarrow> drop n (a @ b) = b"
  by simp_all

lemma length_update_fst: "length (AList.update k v al) \<le> Suc (length al)"
  by (induction al) auto

lemma update_in_set_fst: "fst ` set (AList.update k v al) = insert k (fst ` set al)"
  using dom_update [of k v al] by (simp add: dom_map_of_conv_image_fst)

lemma in_set_update:
  "distinct (map fst al) \<Longrightarrow> x \<in> set (AList.update k v al) \<Longrightarrow> x = (k, v) \<or> x \<in> set al"
  by (induction al) (auto split: if_splits)

end
