(* ===== verification/Crc32.thy ===== *)
theory Crc32
  imports QPrelude
begin

text \<open>
  The checksum of the UDP protocol: \<open>CRC32\<close> of \<open>app_final/client/main.cpp\<close>, the table-driven
  reflected CRC-32 over the 495 content bytes of a packet.

  The lemmas show that the table-driven loop is the bit-serial polynomial division, that a
  step of the division loses no information, and that two contents which differ only inside a
  window of four bytes never share a checksum.
\<close>

section \<open>The code\<close>

definition polynomial :: u32 where
  "polynomial = 0xEDB88320"

text \<open>One round of the inner loop \<open>for (j = 0; j < 8; ++j)\<close> that fills the table.\<close>

definition crc_round :: "u32 \<Rightarrow> u32" where
  "crc_round crc =
     (if crc AND 1 \<noteq> 0 then drop_bit 1 crc XOR polynomial else drop_bit 1 crc)"

definition crc_table :: "u32 list" where
  "crc_table = map (\<lambda>i. (crc_round ^^ 8) (word_of_nat i)) [0..<256]"

text \<open>
  The body of \<open>for (char byte : arr)\<close>. \<open>char\<close> is signed, so \<open>crc ^ byte\<close> sign-extends the byte
  before the cast to \<open>uint8_t\<close> keeps the low eight bits.
\<close>

definition crc_byte :: "u32 \<Rightarrow> byte \<Rightarrow> u32" where
  "crc_byte crc b =
     (let index = (ucast (crc XOR (scast b :: u32)) :: byte)
      in drop_bit 8 crc XOR crc_table ! unat index)"

definition CRC32 :: "byte list \<Rightarrow> u32" where
  "CRC32 arr = foldl crc_byte 0xFFFFFFFF arr XOR 0xFFFFFFFF"

section \<open>The bit-serial division\<close>

definition crc_bit :: "u32 \<Rightarrow> bool \<Rightarrow> u32" where
  "crc_bit crc b = crc_round (crc XOR of_bool b)"

definition bits_of_byte :: "byte \<Rightarrow> bool list" where
  "bits_of_byte b = map (bit b) [0..<8]"

abbreviation bits_of_bytes :: "byte list \<Rightarrow> bool list" where
  "bits_of_bytes bs \<equiv> concat (map bits_of_byte bs)"

definition crc_serial :: "bool list \<Rightarrow> u32" where
  "crc_serial bs = foldl crc_bit 0xFFFFFFFF bs XOR 0xFFFFFFFF"

section \<open>Rounds\<close>

lemma crc_round_alt: "crc_round c = drop_bit 1 c XOR (if bit c 0 then polynomial else 0)"
  by (simp add: crc_round_def and_one_eq bit_0 odd_iff_mod_2_eq_one)

lemma bit_crc_round:
  "bit (crc_round c) n \<longleftrightarrow> bit c (Suc n) \<noteq> (bit c 0 \<and> bit polynomial n)"
  by (auto simp: crc_round_alt bit_xor_iff bit_drop_bit_eq)

lemma crc_round_xor: "crc_round (a XOR b) = crc_round a XOR crc_round b"
  by (rule bit_word_eqI) (auto simp: bit_crc_round bit_xor_iff)

lemma crc_rounds_xor: "(crc_round ^^ n) (a XOR b) = (crc_round ^^ n) a XOR (crc_round ^^ n) b"
  by (induction n) (simp_all add: crc_round_xor)

lemma polynomial_top: "bit polynomial 31"
  by (simp add: polynomial_def)

lemma crc_round_shift: "bit c 0 = False \<Longrightarrow> crc_round c = drop_bit 1 c"
  by (simp add: crc_round_alt)

lemma crc_rounds_shift:
  "n \<le> 32 \<Longrightarrow> \<forall>k<n. \<not> bit c k \<Longrightarrow> (crc_round ^^ n) c = drop_bit n c"
proof (induction n)
  case 0
  then show ?case by simp
next
  case (Suc n)
  then have "(crc_round ^^ n) c = drop_bit n c" by simp
  moreover have "\<not> bit (drop_bit n c) 0" using Suc.prems by (simp add: bit_drop_bit_eq)
  ultimately show ?case by (simp add: crc_round_shift)
qed

lemma crc_round_inj: "crc_round a = crc_round b \<Longrightarrow> a = b"
proof -
  assume eq: "crc_round a = crc_round b"
  have out: "\<not> bit c (Suc 31)" for c :: u32
    using bit_imp_le_length [of c "Suc 31"] by auto
  have "bit a 0 = bit b 0"
    using arg_cong [OF eq, of "\<lambda>c. bit c 31"] out [of a] out [of b] polynomial_top
    by (simp add: bit_crc_round)
  moreover have "bit a (Suc n) = bit b (Suc n)" for n
    using arg_cong [OF eq, of "\<lambda>c. bit c n"] calculation by (auto simp: bit_crc_round)
  ultimately have "bit a n = bit b n" for n by (cases n) auto
  then show "a = b" by (intro bit_word_eqI) simp
qed

lemma crc_bit_inj: "crc_bit a x = crc_bit b x \<Longrightarrow> a = b"
proof -
  assume "crc_bit a x = crc_bit b x"
  then have "a XOR of_bool x = b XOR of_bool x"
    unfolding crc_bit_def by (rule crc_round_inj)
  then have "(a XOR of_bool x) XOR of_bool x = (b XOR of_bool x) XOR of_bool x" by simp
  then show "a = b" by (simp add: xor.assoc)
qed

lemma crc_bits_inj: "foldl crc_bit a bs = foldl crc_bit b bs \<Longrightarrow> a = b"
  by (induction bs arbitrary: a b) (auto dest: crc_bit_inj)

section \<open>The table loop is the division\<close>

lemma crc_table_nth: "i < 256 \<Longrightarrow> crc_table ! i = (crc_round ^^ 8) (word_of_nat i)"
  by (simp add: crc_table_def)

lemma crc_table_byte: "crc_table ! unat (i :: byte) = (crc_round ^^ 8) (ucast i)"
proof -
  have "unat i < 256" using unsigned_less [of i, where ?'a = nat] by simp
  then show ?thesis by (simp add: crc_table_nth)
qed

lemma crc_byte_rounds: "crc_byte crc b = (crc_round ^^ 8) (crc XOR ucast b)"
proof -
  let ?i = "ucast (crc XOR (scast b :: u32)) :: byte"
  let ?h = "push_bit 8 (drop_bit 8 crc) :: u32"
  have split: "crc XOR ucast b = ucast ?i XOR ?h"
  proof (rule bit_word_eqI)
    fix n :: nat assume "n < LENGTH(32)"
    then have n: "n < 32" by simp
    have "bit (scast b :: u32) n = bit b n" if "n < 8"
    proof -
      from that have "min 7 n = n" by simp
      then show ?thesis using n by (simp add: bit_signed_iff)
    qed
    then have "bit (ucast ?i :: u32) n \<longleftrightarrow> n < 8 \<and> bit crc n \<noteq> bit b n"
      using n by (auto simp: bit_unsigned_iff bit_xor_iff)
    moreover have "bit ?h n \<longleftrightarrow> 8 \<le> n \<and> bit crc n"
      using n by (auto simp: bit_push_bit_iff bit_drop_bit_eq)
    moreover have "bit (ucast b :: u32) n \<longleftrightarrow> n < 8 \<and> bit b n"
      using n bit_imp_le_length [of b n] by (auto simp: bit_unsigned_iff)
    ultimately show "bit (crc XOR ucast b) n \<longleftrightarrow> bit (ucast ?i XOR ?h) n"
      by (simp only: bit_xor_iff) linarith
  qed
  have "(crc_round ^^ 8) ?h = drop_bit 8 ?h"
    by (rule crc_rounds_shift) (simp_all add: bit_push_bit_iff)
  also have "\<dots> = drop_bit 8 crc"
    by (rule bit_word_eqI) (auto simp: bit_push_bit_iff bit_drop_bit_eq dest: bit_imp_le_length)
  finally show ?thesis
    unfolding crc_byte_def Let_def crc_table_byte split crc_rounds_xor by (simp add: xor.commute)
qed

lemma crc_bits_rounds:
  "n \<le> 32 \<Longrightarrow> foldl crc_bit c (map (bit w) [0..<n]) = (crc_round ^^ n) (c XOR take_bit n (w :: u32))"
proof (induction n)
  case 0
  then show ?case by simp
next
  case (Suc n)
  let ?b = "of_bool (bit w n) :: u32"
  have tb: "take_bit (Suc n) w = take_bit n w XOR push_bit n ?b"
    by (rule bit_word_eqI) (auto simp: bit_take_bit_iff bit_xor_iff bit_push_bit_iff less_Suc_eq bit_of_bool_iff)
  have "(crc_round ^^ n) (push_bit n ?b) = drop_bit n (push_bit n ?b)"
    using Suc.prems by (intro crc_rounds_shift) (simp_all add: bit_push_bit_iff)
  also have "\<dots> = ?b"
    using Suc.prems by (intro bit_word_eqI) (auto simp: bit_push_bit_iff bit_drop_bit_eq bit_of_bool_iff)
  finally have "(crc_round ^^ n) (push_bit n ?b) = ?b" .
  then have "(crc_round ^^ Suc n) (c XOR take_bit (Suc n) w)
      = crc_round ((crc_round ^^ n) (c XOR take_bit n w) XOR ?b)"
    by (simp add: tb crc_rounds_xor xor.assoc [symmetric])
  then show ?case using Suc by (simp add: crc_bit_def)
qed

lemma crc_byte_bits: "crc_byte crc b = foldl crc_bit crc (bits_of_byte b)"
proof -
  have "bits_of_byte b = map (bit (ucast b :: u32)) [0..<8]"
    by (auto simp: bits_of_byte_def bit_ucast_iff)
  moreover have "take_bit 8 (ucast b :: u32) = ucast b"
    by (rule bit_word_eqI) (auto simp: bit_take_bit_iff bit_ucast_iff dest: bit_imp_le_length)
  ultimately show ?thesis by (simp add: crc_bits_rounds crc_byte_rounds)
qed

lemma crc_bytes_bits: "foldl crc_byte c bs = foldl crc_bit c (bits_of_bytes bs)"
  by (induction bs arbitrary: c) (simp_all add: crc_byte_bits)

section \<open>Bursts\<close>

text \<open>
  Two messages that enter the division in the same state and differ within a window of \<open>n \<le> 32\<close>
  bits leave it in states that differ in one of their top \<open>n\<close> bits.
\<close>

lemma crc_bit_xor:
  "crc_bit a x XOR crc_bit b y = crc_round (a XOR b XOR of_bool (x \<noteq> y))"
proof -
  have "crc_bit a x XOR crc_bit b y = crc_round ((a XOR of_bool x) XOR (b XOR of_bool y))"
    by (simp add: crc_bit_def crc_round_xor)
  also have "(a XOR of_bool x) XOR (b XOR of_bool y) = a XOR b XOR of_bool (x \<noteq> y)"
    by (rule bit_word_eqI) (auto simp: bit_xor_iff bit_of_bool_iff)
  finally show ?thesis .
qed

lemma crc_round_top_bits:
  assumes "bit d i" "32 - n \<le> i" "n < 32"
  shows "\<exists>j \<ge> 32 - Suc n. bit (crc_round (d XOR of_bool b)) j"
proof (cases "bit (d XOR of_bool b) 0")
  case True
  then have "bit (crc_round (d XOR of_bool b)) 31"
    using polynomial_top bit_imp_le_length [of "d XOR of_bool b" "Suc 31"]
    by (auto simp: bit_crc_round)
  then show ?thesis by (intro exI [of _ 31]) auto
next
  case False
  from assms obtain k where k: "i = Suc k" by (cases i) auto
  have "bit (d XOR of_bool b) i" using assms(1) k by (simp add: bit_xor_iff bit_of_bool_iff)
  with False k have "bit (crc_round (d XOR of_bool b)) k" by (simp add: bit_crc_round)
  then show ?thesis using assms k by (intro exI [of _ k]) auto
qed

lemma crc_window:
  assumes "length xs = length ys" "length xs \<le> 32" "xs \<noteq> ys"
  shows "\<exists>i \<ge> 32 - length xs. bit (foldl crc_bit s xs XOR foldl crc_bit s ys) i"
  using assms
proof (induction xs ys rule: rev_induct2)
  case 1
  then show ?case by simp
next
  case (4 x xs y ys)
  let ?d = "foldl crc_bit s xs XOR foldl crc_bit s ys"
  have step: "foldl crc_bit s (xs @ [x]) XOR foldl crc_bit s (ys @ [y])
      = crc_round (?d XOR of_bool (x \<noteq> y))"
    by (simp add: crc_bit_xor xor.assoc)
  show ?case
  proof (cases "xs = ys")
    case True
    then have "crc_round (?d XOR of_bool (x \<noteq> y)) = polynomial"
      using "4.prems" by (simp add: crc_round_alt bit_1_iff)
    then show ?thesis unfolding step using polynomial_top by (intro exI [of _ 31]) auto
  next
    case False
    with 4 obtain i where "bit ?d i" "32 - length xs \<le> i" by auto
    then show ?thesis unfolding step
      using crc_round_top_bits [of ?d i "length xs" "x \<noteq> y"] "4.prems" by simp
  qed
qed simp_all

lemma crc_bits_window:
  assumes "length xs = length ys" "length xs \<le> 32" "xs \<noteq> ys"
  shows "foldl crc_bit s (p @ xs @ q) \<noteq> foldl crc_bit s (p @ ys @ q)"
proof
  assume "foldl crc_bit s (p @ xs @ q) = foldl crc_bit s (p @ ys @ q)"
  then have "foldl crc_bit (foldl crc_bit s p) xs = foldl crc_bit (foldl crc_bit s p) ys"
    by (simp add: crc_bits_inj)
  then have "foldl crc_bit (foldl crc_bit s p) xs XOR foldl crc_bit (foldl crc_bit s p) ys = 0"
    by simp
  then show False using crc_window [OF assms, of "foldl crc_bit s p"] by simp
qed

lemma bits_of_byte_inj: "bits_of_byte a = bits_of_byte b \<Longrightarrow> a = b"
proof -
  assume eq: "bits_of_byte a = bits_of_byte b"
  have "bit a n = bit b n" if "n < 8" for n
    using arg_cong [OF eq, of "\<lambda>l. l ! n"] that by (simp add: bits_of_byte_def)
  then show "a = b" by (intro bit_word_eqI) simp
qed

lemma length_bits_of_byte [simp]: "length (bits_of_byte b) = 8"
  by (simp add: bits_of_byte_def)

lemma length_bits_of_bytes [simp]: "length (bits_of_bytes bs) = 8 * length bs"
  by (induction bs) simp_all

lemma bits_of_bytes_inj: "bits_of_bytes xs = bits_of_bytes ys \<Longrightarrow> xs = ys"
proof (induction xs arbitrary: ys)
  case Nil
  then have "length (bits_of_bytes ([] :: byte list)) = length (bits_of_bytes ys)"
    by (rule arg_cong)
  then have "8 * length ([] :: byte list) = 8 * length ys" by (simp only: length_bits_of_bytes)
  then show ?case by simp
next
  case (Cons x xs)
  then have "length (bits_of_bytes (x # xs)) = length (bits_of_bytes ys)" by simp
  then obtain y ys' where ys: "ys = y # ys'" by (cases ys) auto
  with Cons.prems have "bits_of_byte x = bits_of_byte y" "bits_of_bytes xs = bits_of_bytes ys'"
    by (auto simp: append_eq_append_conv)
  then show ?case using Cons.IH ys bits_of_byte_inj by blast
qed

lemma CRC32_detects_burst:
  assumes "length m = length m'" "length m' \<le> 4" "m \<noteq> m'"
  shows "CRC32 (p @ m @ q) \<noteq> CRC32 (p @ m' @ q)"
proof -
  have "bits_of_bytes m \<noteq> bits_of_bytes m'" using assms(3) bits_of_bytes_inj by blast
  then have "foldl crc_byte 0xFFFFFFFF (p @ m @ q) \<noteq> foldl crc_byte 0xFFFFFFFF (p @ m' @ q)"
    unfolding crc_bytes_bits map_append concat_append
    using assms(1,2) by (intro crc_bits_window) simp_all
  then show ?thesis by (simp add: CRC32_def xor_right_cancel)
qed

section \<open>Properties\<close>

text \<open>
  C40: the table-driven checksum of the code equals the bit-serial division of the content,
  least significant bit first, by the reflected CRC-32 polynomial.
\<close>

theorem CRC32_is_division: "CRC32 arr = crc_serial (bits_of_bytes arr)"
  by (simp add: CRC32_def crc_serial_def crc_bytes_bits)

end
