(* ===== verification/Codec.thy ===== *)
theory Codec
  imports QPrelude
begin

text \<open>
  Fixed-width encodings. Every wire format of the program is built from fields of a known width:
  big-endian integers of two, four and six bytes, and 36-character identifiers. The locale
  \<open>fixed_codec\<close> is the contract such a field keeps with its reader; the lemmas proved inside it
  (reading a field off the front of a buffer, reading back a counted array of fields) serve the
  packet header, the frames of the coordinating server and the arrays of its routine messages.
\<close>

section \<open>The interface\<close>

locale fixed_codec =
  fixes enc :: "'a \<Rightarrow> 'c list"
    and dec :: "'c list \<Rightarrow> 'a"
    and width :: nat
    and valid :: "'a \<Rightarrow> bool"
  assumes length_enc: "valid x \<Longrightarrow> length (enc x) = width"
    and dec_enc: "valid x \<Longrightarrow> dec (enc x) = x"
begin

lemma enc_inj: "valid x \<Longrightarrow> valid y \<Longrightarrow> enc x = enc y \<Longrightarrow> x = y"
  by (metis dec_enc)

lemma dec_prefix: "valid x \<Longrightarrow> dec (take width (enc x @ rest)) = x"
  by (simp add: length_enc dec_enc)

lemma drop_prefix: "valid x \<Longrightarrow> drop width (enc x @ rest) = rest"
  by (simp add: length_enc)

lemma dec_at:
  "valid x \<Longrightarrow> length pre = off \<Longrightarrow> dec (take width (drop off (pre @ enc x @ rest))) = x"
  by (simp add: length_enc dec_enc)

lemma length_concat_enc:
  "\<forall>x \<in> set xs. valid x \<Longrightarrow> length (concat (map enc xs)) = width * length xs"
  by (induction xs) (auto simp: length_enc)

text \<open>The array loop \<open>for (i = 0; i < n; ++i) { read one field; offset += width; }\<close>.\<close>

lemma dec_nth:
  "\<forall>x \<in> set xs. valid x \<Longrightarrow> i < length xs \<Longrightarrow>
     dec (take width (drop (i * width) (concat (map enc xs) @ rest))) = xs ! i"
proof (induction xs arbitrary: i)
  case Nil
  then show ?case by simp
next
  case (Cons x xs)
  show ?case
  proof (cases i)
    case 0
    then show ?thesis using Cons.prems by (simp add: length_enc dec_enc)
  next
    case (Suc k)
    have "drop (i * width) (concat (map enc (x # xs)) @ rest)
        = drop (k * width) (concat (map enc xs) @ rest)"
      using Cons.prems Suc by (simp add: length_enc)
    then show ?thesis using Cons Suc by (simp del: drop_append)
  qed
qed

lemma dec_array:
  "\<forall>x \<in> set xs. valid x \<Longrightarrow>
     map (\<lambda>i. dec (take width (drop (i * width) (concat (map enc xs) @ rest)))) [0..<length xs] = xs"
  by (rule nth_equalityI) (simp_all add: dec_nth del: drop_append take_append)

end

text \<open>
  A reader that takes a value off the front of its input and hands back the rest. Whatever
  follows the value, it is read back; so no encoding is a proper beginning of another
  (\<open>stream_unique\<close>), and a list of values is read back by reading one after the other.
\<close>

locale stream_codec =
  fixes put :: "'a \<Rightarrow> 'c list"
    and get :: "'c list \<Rightarrow> ('a \<times> 'c list) option"
    and okay :: "'a \<Rightarrow> bool"
  assumes get_put: "okay x \<Longrightarrow> get (put x @ rest) = Some (x, rest)"
begin

lemma stream_unique:
  "okay x \<Longrightarrow> okay y \<Longrightarrow> put x @ r = put y @ r' \<Longrightarrow> x = y \<and> r = r'"
  by (metis get_put option.inject prod.inject)

lemma stream_inj: "okay x \<Longrightarrow> okay y \<Longrightarrow> put x = put y \<Longrightarrow> x = y"
  using stream_unique [of x y "[]" "[]"] by simp

primrec get_many :: "nat \<Rightarrow> 'c list \<Rightarrow> ('a list \<times> 'c list) option" where
  "get_many 0 s = Some ([], s)"
| "get_many (Suc n) s = (case get s of None \<Rightarrow> None
     | Some (x, s') \<Rightarrow> (case get_many n s' of None \<Rightarrow> None | Some (xs, r) \<Rightarrow> Some (x # xs, r)))"

lemma get_many_put:
  "\<forall>x \<in> set xs. okay x \<Longrightarrow> get_many (length xs) (concat (map put xs) @ rest) = Some (xs, rest)"
  by (induction xs) (simp_all add: get_put)

end

sublocale fixed_codec \<subseteq> stream: stream_codec enc
    "\<lambda>bs. if length bs < width then None else Some (dec (take width bs), drop width bs)" valid
  by unfold_locales (simp add: length_enc dec_enc)

section \<open>Big-endian integers\<close>

text \<open>
  The code writes \<open>(x >> 8) \& 0xFF\<close>, \<open>x \& 0xFF\<close>, ... and reads \<open>(a[0] << 8) | a[1]\<close>, ...
\<close>

definition put16 :: "u16 \<Rightarrow> byte list" where
  "put16 x = [ucast (drop_bit 8 x AND 0xFF), ucast (x AND 0xFF)]"

definition put32 :: "u32 \<Rightarrow> byte list" where
  "put32 x = [ucast (drop_bit 24 x AND 0xFF), ucast (drop_bit 16 x AND 0xFF),
     ucast (drop_bit 8 x AND 0xFF), ucast (x AND 0xFF)]"

definition put48 :: "u64 \<Rightarrow> byte list" where
  "put48 x = [ucast (drop_bit 40 x AND 0xFF), ucast (drop_bit 32 x AND 0xFF),
     ucast (drop_bit 24 x AND 0xFF), ucast (drop_bit 16 x AND 0xFF),
     ucast (drop_bit 8 x AND 0xFF), ucast (x AND 0xFF)]"

definition get16 :: "byte \<Rightarrow> byte \<Rightarrow> u16" where
  "get16 a b = push_bit 8 (ucast a) OR ucast b"

definition get32 :: "byte \<Rightarrow> byte \<Rightarrow> byte \<Rightarrow> byte \<Rightarrow> u32" where
  "get32 a b c d =
     push_bit 24 (ucast a) OR push_bit 16 (ucast b) OR push_bit 8 (ucast c) OR ucast d"

definition get48 :: "byte \<Rightarrow> byte \<Rightarrow> byte \<Rightarrow> byte \<Rightarrow> byte \<Rightarrow> byte \<Rightarrow> u64" where
  "get48 a b c d e f =
     push_bit 40 (ucast a) OR push_bit 32 (ucast b) OR push_bit 24 (ucast c)
     OR push_bit 16 (ucast d) OR push_bit 8 (ucast e) OR ucast f"

fun read16 :: "byte list \<Rightarrow> u16" where
  "read16 [a, b] = get16 a b"
| "read16 _ = 0"

fun read32 :: "byte list \<Rightarrow> u32" where
  "read32 [a, b, c, d] = get32 a b c d"
| "read32 _ = 0"

fun read48 :: "byte list \<Rightarrow> u64" where
  "read48 [a, b, c, d, e, f] = get48 a b c d e f"
| "read48 _ = 0"

lemma length_put [simp]:
  "length (put16 x) = 2" "length (put32 y) = 4" "length (put48 z) = 6"
  by (simp_all add: put16_def put32_def put48_def)

lemma byte_AND_FF [simp]: "(ucast (x AND 0xFF) :: byte) = ucast (x :: 'a::len word)"
proof (rule bit_word_eqI)
  fix n :: nat assume "n < LENGTH(8)"
  moreover have "x AND 0xFF = take_bit 8 x" by (simp add: take_bit_eq_mask mask_eq_exp_minus_1)
  ultimately show "bit (ucast (x AND 0xFF) :: byte) n = bit (ucast x :: byte) n"
    by (auto simp: bit_unsigned_iff bit_take_bit_iff dest: bit_imp_le_length)
qed

lemma get16_put: "get16 (ucast (drop_bit 8 x)) (ucast x) = x"
proof (rule bit_word_eqI)
  fix n :: nat assume n: "n < LENGTH(16)"
  then show "bit (get16 (ucast (drop_bit 8 x)) (ucast x)) n = bit x n"
    by (cases "n < 8")
      (auto simp: get16_def bit_or_iff bit_push_bit_iff bit_unsigned_iff bit_drop_bit_eq
        dest: bit_imp_le_length)
qed

lemma get32_put:
  "get32 (ucast (drop_bit 24 x)) (ucast (drop_bit 16 x)) (ucast (drop_bit 8 x)) (ucast x) = x"
  (is "?l = x")
proof (rule bit_word_eqI)
  fix n :: nat assume n: "n < LENGTH(32)"
  consider "n < 8" | "8 \<le> n \<and> n < 16" | "16 \<le> n \<and> n < 24" | "24 \<le> n" by linarith
  then show "bit ?l n = bit x n"
    using n
    by cases (auto simp: get32_def bit_or_iff bit_push_bit_iff bit_unsigned_iff bit_drop_bit_eq)
qed

lemma get48_put:
  "get48 (ucast (drop_bit 40 x)) (ucast (drop_bit 32 x)) (ucast (drop_bit 24 x))
     (ucast (drop_bit 16 x)) (ucast (drop_bit 8 x)) (ucast x) = take_bit 48 x"
  (is "?l = _")
proof (rule bit_word_eqI)
  fix n :: nat assume n: "n < LENGTH(64)"
  consider "n < 8" | "8 \<le> n \<and> n < 16" | "16 \<le> n \<and> n < 24" | "24 \<le> n \<and> n < 32"
    | "32 \<le> n \<and> n < 40" | "40 \<le> n \<and> n < 48" | "48 \<le> n" by linarith
  then show "bit ?l n = bit (take_bit 48 x) n"
    using n
    by cases (auto simp: get48_def bit_or_iff bit_push_bit_iff bit_unsigned_iff bit_drop_bit_eq
        bit_take_bit_iff)
qed

lemma read_put [simp]:
  "read16 (put16 x) = x" "read32 (put32 y) = y" "read48 (put48 z) = take_bit 48 z"
  by (simp_all add: put16_def put32_def put48_def get16_put get32_put get48_put)

section \<open>Interpretations\<close>

interpretation c16: fixed_codec put16 read16 2 "\<lambda>_. True"
  by unfold_locales simp_all

interpretation c32: fixed_codec put32 read32 4 "\<lambda>_. True"
  by unfold_locales simp_all

interpretation c48: fixed_codec put48 read48 6 "\<lambda>x. take_bit 48 x = x"
  by unfold_locales simp_all

end
