(* ===== verification/UdpPacket.thy ===== *)
theory UdpPacket
  imports Crc32 Codec
begin

text \<open>
  The 512-byte datagram of the peer-to-peer protocol: \<open>struct udp_packet\<close>, its two constructors
  and \<open>get_bytes\<close> of \<open>app_final/client/main.cpp\<close>, and the field reads with which
  \<open>udp_server::handle_receive\<close> takes a received buffer apart. The format is
  \<open>'F' | type | quantity | messageID (4) | packetID (6) | content (495) | CRC32 (4)\<close>.

  A \<open>std::array<char, n>\<close> is a byte list of length \<open>n\<close>; \<open>packet_ok\<close> is that length together with
  the checksum the constructors compute.
\<close>

section \<open>The packet\<close>

record udp_packet =
  pk_type :: byte
  pk_quantity :: byte
  pk_messageID :: u32
  pk_packetID :: u64
  pk_message :: "byte list"
  pk_checksum :: u32

text \<open>The constructor from a full content array.\<close>

definition packet_of_array :: "byte \<Rightarrow> byte \<Rightarrow> u32 \<Rightarrow> u64 \<Rightarrow> byte list \<Rightarrow> udp_packet" where
  "packet_of_array T Q mid pid content =
     \<lparr>pk_type = T, pk_quantity = Q, pk_messageID = mid, pk_packetID = pid,
      pk_message = content, pk_checksum = CRC32 content\<rparr>"

text \<open>
  The constructor from a string: the content array is zeroed, then at most 495 characters are
  copied into it.
\<close>

definition pad495 :: "byte list \<Rightarrow> byte list" where
  "pad495 s = take (min (length s) 495) s @ replicate (495 - min (length s) 495) 0"

definition packet_of_string :: "byte \<Rightarrow> byte \<Rightarrow> u32 \<Rightarrow> u64 \<Rightarrow> byte list \<Rightarrow> udp_packet" where
  "packet_of_string T Q mid pid content =
     (let msg = pad495 content in
      \<lparr>pk_type = T, pk_quantity = Q, pk_messageID = mid, pk_packetID = pid,
       pk_message = msg, pk_checksum = CRC32 msg\<rparr>)"

definition get_bytes :: "udp_packet \<Rightarrow> byte list" where
  "get_bytes p =
     [byte_of CHR ''F'', pk_type p, pk_quantity p] @ put32 (pk_messageID p) @ put48 (pk_packetID p)
     @ pk_message p @ put32 (pk_checksum p)"

definition get_messageID :: "int \<Rightarrow> u32" where
  "get_messageID rand = word_of_int (rand * 2 - 13)"

section \<open>Reading a buffer\<close>

definition actual_data :: "byte list \<Rightarrow> byte list" where
  "actual_data buf = map (\<lambda>i. buf ! i) [13..<508]"

definition received_checksum :: "byte list \<Rightarrow> u32" where
  "received_checksum buf = get32 (buf ! 508) (buf ! 509) (buf ! 510) (buf ! 511)"

definition buffer_MID :: "byte list \<Rightarrow> u32" where
  "buffer_MID buf = get32 (buf ! 3) (buf ! 4) (buf ! 5) (buf ! 6)"

definition buffer_PID :: "byte list \<Rightarrow> u64" where
  "buffer_PID buf = get48 (buf ! 7) (buf ! 8) (buf ! 9) (buf ! 10) (buf ! 11) (buf ! 12)"

definition is_empty_buffer :: "byte list \<Rightarrow> bool" where
  "is_empty_buffer buf = list_all (\<lambda>b. b = 0 \<or> b = byte_of CHR '' '') buf"

text \<open>The guard \<open>!is_empty \&\& recv_buffer[0] == 'F' \&\& is_checksum_correct\<close>.\<close>

definition accepts :: "byte list \<Rightarrow> bool" where
  "accepts buf \<longleftrightarrow>
     \<not> is_empty_buffer buf \<and> buf ! 0 = byte_of CHR ''F''
     \<and> CRC32 (actual_data buf) = received_checksum buf"

section \<open>Lemmas\<close>

definition packet_ok :: "udp_packet \<Rightarrow> bool" where
  "packet_ok p \<longleftrightarrow> length (pk_message p) = 495 \<and> pk_checksum p = CRC32 (pk_message p)"

lemma length_pad495 [simp]: "length (pad495 s) = 495"
  by (simp add: pad495_def min_def)

lemma take_pad495: "k \<le> length s \<Longrightarrow> k \<le> 495 \<Longrightarrow> take k (pad495 s) = take k s"
  by (simp add: pad495_def min_def)

lemma packet_of_string_ok [simp]: "packet_ok (packet_of_string T Q mid pid s)"
  by (simp add: packet_ok_def packet_of_string_def Let_def)

lemma packet_of_array_ok [simp]: "length a = 495 \<Longrightarrow> packet_ok (packet_of_array T Q mid pid a)"
  by (simp add: packet_ok_def packet_of_array_def)

lemma packet_of_array_sel [simp]:
  "pk_type (packet_of_array T Q mid pid a) = T"
  "pk_quantity (packet_of_array T Q mid pid a) = Q"
  "pk_messageID (packet_of_array T Q mid pid a) = mid"
  "pk_packetID (packet_of_array T Q mid pid a) = pid"
  "pk_message (packet_of_array T Q mid pid a) = a"
  by (simp_all add: packet_of_array_def)

lemma packet_of_string_sel [simp]:
  "pk_type (packet_of_string T Q mid pid s) = T"
  "pk_quantity (packet_of_string T Q mid pid s) = Q"
  "pk_messageID (packet_of_string T Q mid pid s) = mid"
  "pk_packetID (packet_of_string T Q mid pid s) = pid"
  "pk_message (packet_of_string T Q mid pid s) = pad495 s"
  by (simp_all add: packet_of_string_def Let_def)

lemma length_get_bytes: "packet_ok p \<Longrightarrow> length (get_bytes p) = 512"
  by (simp add: get_bytes_def packet_ok_def)

text \<open>Any buffer of that layout is read back field by field.\<close>

lemma actual_data_eq: "length buf = 512 \<Longrightarrow> actual_data buf = take 495 (drop 13 buf)"
  by (rule nth_equalityI) (simp_all add: actual_data_def del: upt_rec_numeral)

lemma actual_data_layout:
  "length h = 13 \<Longrightarrow> length m = 495 \<Longrightarrow> length c = 4 \<Longrightarrow> actual_data (h @ m @ c) = m"
  by (simp add: actual_data_eq)

lemma checksum_layout:
  "length h = 13 \<Longrightarrow> length m = 495 \<Longrightarrow> received_checksum (h @ m @ put32 x) = x"
  by (simp add: received_checksum_def nth_append put32_def get32_put)

lemma accepts_layout:
  assumes "length h = 13" "length m = 495" "h ! 0 = byte_of CHR ''F''"
  shows "accepts (h @ m @ put32 x) \<longleftrightarrow> CRC32 m = x"
proof -
  have "byte_of CHR ''F'' \<in> set (h @ m @ put32 x)"
    using assms by (metis Un_iff nth_mem set_append zero_less_numeral)
  moreover have "byte_of CHR ''F'' \<noteq> 0" "byte_of CHR ''F'' \<noteq> byte_of CHR '' ''"
    by (simp_all add: byte_of_def)
  ultimately have "\<not> is_empty_buffer (h @ m @ put32 x)"
    by (auto simp: is_empty_buffer_def list_all_iff simp del: set_append)
  then show ?thesis
    using assms by (simp add: accepts_def actual_data_layout checksum_layout nth_append)
qed

lemma packet_fields:
  assumes "packet_ok p"
  shows "length (get_bytes p) = 512 \<and> accepts (get_bytes p)
    \<and> get_bytes p ! 1 = pk_type p \<and> get_bytes p ! 2 = pk_quantity p
    \<and> buffer_MID (get_bytes p) = pk_messageID p
    \<and> buffer_PID (get_bytes p) = take_bit 48 (pk_packetID p)
    \<and> actual_data (get_bytes p) = pk_message p"
proof -
  define h where "h = [byte_of CHR ''F'', pk_type p, pk_quantity p]
    @ put32 (pk_messageID p) @ put48 (pk_packetID p)"
  have h: "length h = 13" "h ! 0 = byte_of CHR ''F''" by (simp_all add: h_def)
  have "get_bytes p = h @ pk_message p @ put32 (pk_checksum p)" by (simp add: h_def get_bytes_def)
  then have "accepts (get_bytes p)" "actual_data (get_bytes p) = pk_message p"
    using assms h by (simp_all add: accepts_layout actual_data_layout packet_ok_def)
  moreover have "buffer_MID (get_bytes p) = pk_messageID p"
    by (simp add: buffer_MID_def get_bytes_def nth_append put32_def get32_put)
  moreover have "buffer_PID (get_bytes p) = take_bit 48 (pk_packetID p)"
    by (simp add: buffer_PID_def get_bytes_def nth_append put32_def put48_def get48_put)
  ultimately show ?thesis using length_get_bytes [OF assms] by (simp add: get_bytes_def)
qed

lemmas packet_accepted = packet_fields [THEN conjunct2, THEN conjunct1]

section \<open>Properties\<close>

text \<open>
  C27: every packet the constructors build is accepted by the receiver and read back field for
  field; only the two most significant bytes of the packet number are lost.
\<close>

theorem packet_roundtrip:
  assumes "packet_ok p"
  shows "length (get_bytes p) = 512 \<and> accepts (get_bytes p)
    \<and> get_bytes p ! 1 = pk_type p \<and> get_bytes p ! 2 = pk_quantity p
    \<and> buffer_MID (get_bytes p) = pk_messageID p
    \<and> buffer_PID (get_bytes p) = take_bit 48 (pk_packetID p)
    \<and> actual_data (get_bytes p) = pk_message p"
  using assms by (rule packet_fields)

theorem packet_roundtrip_witness:
  "accepts (get_bytes (packet_of_string 79 0 7 9 [1, 2, 3]))
   \<and> buffer_MID (get_bytes (packet_of_string 79 0 7 9 [1, 2, 3])) = 7"
  using packet_roundtrip [of "packet_of_string 79 0 7 9 [1, 2, 3]"] by simp

text \<open>
  A genuine packet whose content is damaged on the way inside a window of at most four
  consecutive bytes is refused by the receiver's checksum test.
\<close>

lemma damaged_content_refused:
  assumes "packet_ok p" "pk_message p = a @ m @ c"
    and "length m' = length m" "length m \<le> 4" "m' \<noteq> m"
  shows "\<not> accepts (take 13 (get_bytes p) @ (a @ m' @ c) @ drop 508 (get_bytes p))"
proof -
  have h: "length (take 13 (get_bytes p)) = 13" "take 13 (get_bytes p) ! 0 = byte_of CHR ''F''"
    using length_get_bytes [OF assms(1)] by (simp_all add: get_bytes_def)
  have "drop 508 (get_bytes p) = put32 (CRC32 (a @ m @ c))"
    using assms(1,2) by (auto simp: get_bytes_def packet_ok_def)
  moreover have "length (a @ m' @ c) = 495"
    using assms(1-3) by (simp add: packet_ok_def)
  ultimately show ?thesis
    using accepts_layout [OF h(1) _ h(2), of "a @ m' @ c"] CRC32_detects_burst [OF assms(3-5)]
    by (simp del: append_assoc)
qed

lemma damaged_content_refused_witness:
  "\<not> accepts (take 13 (get_bytes (packet_of_string 84 0 7 0 [1, 2]))
      @ ([] @ [9] @ ([2] @ replicate 493 0))
      @ drop 508 (get_bytes (packet_of_string 84 0 7 0 [1, 2])))"
  by (rule damaged_content_refused [where m = "[1]"]) (simp_all add: pad495_def)

text \<open>
  The checksum covers the content only. Whatever stands in the twelve header bytes after the
  \<open>'F'\<close> (type, quantity, message and packet number), the receiver accepts the datagram.
\<close>

lemma header_not_protected:
  assumes "packet_ok p" "length h = 12"
  shows "accepts (byte_of CHR ''F'' # h @ drop 13 (get_bytes p))"
proof -
  have "drop 13 (get_bytes p) = pk_message p @ put32 (CRC32 (pk_message p))"
    using assms(1) by (simp add: get_bytes_def packet_ok_def put32_def put48_def)
  then show ?thesis
    using accepts_layout [of "byte_of CHR ''F'' # h" "pk_message p"] assms
    by (simp add: packet_ok_def)
qed

lemma header_not_protected_witness:
  "accepts (byte_of CHR ''F'' # replicate 12 255 @ drop 13 (get_bytes (packet_of_string 84 0 7 0 [1])))"
  by (rule header_not_protected) simp_all

end
