(* ===== verification/CppString.thy ===== *)
theory CppString
  imports Codec
begin

text \<open>
  \<open>std::string\<close> as the program uses it (\<open>find\<close>, \<open>substr\<close>, \<open>rfind(x, 0)\<close>, decimal and
  hexadecimal conversions, formatted input) and the string routines of the client:
  \<open>replace_string_pattern_with\<close> and \<open>json_escape\<close> of \<open>app_final/client/QLib.hpp\<close>,
  \<open>html_escape\<close> of \<open>app_final/client/main.cpp\<close>.

  The two escapers are interpreted as stream codecs: the text they write, followed by the
  character that ends it in its document, is read back exactly.
\<close>

section \<open>Searching and slicing\<close>

text \<open>\<open>std::string::npos\<close>; positions are \<open>size_t\<close>, so sums of positions wrap at 64 bits.\<close>

definition npos :: nat where
  "npos = 2 ^ 64 - 1"

definition add_pos :: "nat \<Rightarrow> nat \<Rightarrow> nat" where
  "add_pos a b = (a + b) mod 2 ^ 64"

definition starts_with :: "string \<Rightarrow> string \<Rightarrow> bool" where
  "starts_with pat s \<longleftrightarrow> take (length pat) s = pat"

fun find_list :: "string \<Rightarrow> string \<Rightarrow> nat option" where
  "find_list pat [] = (if pat = [] then Some 0 else None)"
| "find_list pat (c # s) =
     (if starts_with pat (c # s) then Some 0 else map_option Suc (find_list pat s))"

definition str_find :: "string \<Rightarrow> string \<Rightarrow> nat \<Rightarrow> nat" where
  "str_find s pat pos =
     (if pos \<le> length s
      then (case find_list pat (drop pos s) of None \<Rightarrow> npos | Some i \<Rightarrow> pos + i) else npos)"

definition contains :: "string \<Rightarrow> string \<Rightarrow> bool" where
  "contains s pat \<longleftrightarrow> find_list pat s \<noteq> None"

definition substr :: "string \<Rightarrow> nat \<Rightarrow> nat \<Rightarrow> string res" where
  "substr s pos n = (if length s < pos then Inl (Throw OutOfRange) else Inr (take n (drop pos s)))"

lemma starts_with_append [simp]: "starts_with pat (pat @ s)"
  by (simp add: starts_with_def)

lemma starts_with_iff: "starts_with pat s \<longleftrightarrow> (\<exists>r. s = pat @ r)"
  unfolding starts_with_def by (metis append_eq_conv_conj append_take_drop_id)

lemma find_list_Some:
  "find_list pat s = Some i \<Longrightarrow> i + length pat \<le> length s \<and> starts_with pat (drop i s)"
proof (induction pat s arbitrary: i rule: find_list.induct)
  case (1 pat)
  then show ?case by (auto simp: starts_with_def split: if_splits)
next
  case (2 pat c s)
  show ?case
  proof (cases "starts_with pat (c # s)")
    case True
    then have "length pat \<le> length (c # s)" unfolding starts_with_iff by (metis le_add1 length_append)
    then show ?thesis using True 2 by simp
  next
    case False
    then show ?thesis using 2 by auto
  qed
qed

lemma find_list_least: "find_list pat s = Some i \<Longrightarrow> j < i \<Longrightarrow> \<not> starts_with pat (drop j s)"
proof (induction pat s arbitrary: i j rule: find_list.induct)
  case (2 pat c s)
  then show ?case by (cases j) (auto split: if_splits)
qed (simp split: if_splits)

lemma find_list_None: "find_list pat s = None \<longleftrightarrow> (\<forall>j \<le> length s. \<not> starts_with pat (drop j s))"
proof (induction pat s rule: find_list.induct)
  case (1 pat)
  then show ?case by (auto simp: starts_with_def)
next
  case (2 pat c s)
  show ?case
  proof (cases "starts_with pat (c # s)")
    case True
    then show ?thesis by force
  next
    case False
    then have "find_list pat (c # s) = None \<longleftrightarrow> (\<forall>j \<le> length s. \<not> starts_with pat (drop (Suc j) (c # s)))"
      using 2 by simp
    also have "\<dots> \<longleftrightarrow> (\<forall>j \<le> length (c # s). \<not> starts_with pat (drop j (c # s)))"
      using False by (metis Suc_le_mono drop0 length_Cons not0_implies_Suc)
    finally show ?thesis .
  qed
qed

lemma contains_iff: "contains s pat \<longleftrightarrow> (\<exists>a b. s = a @ pat @ b)"
proof
  assume "contains s pat"
  then obtain j where "j \<le> length s" "starts_with pat (drop j s)"
    by (auto simp: contains_def find_list_None)
  then show "\<exists>a b. s = a @ pat @ b" by (metis append_take_drop_id starts_with_iff)
next
  assume "\<exists>a b. s = a @ pat @ b"
  then obtain a b where s: "s = a @ pat @ b" by blast
  then have "length a \<le> length s" "starts_with pat (drop (length a) s)" by simp_all
  then show "contains s pat" unfolding contains_def find_list_None by blast
qed

section \<open>\<open>replace_string_pattern_with\<close>\<close>

text \<open>The loop: search from \<open>start_pos\<close>, replace in place, continue after the insertion.\<close>

function replace_loop :: "string \<Rightarrow> nat \<Rightarrow> string \<Rightarrow> string \<Rightarrow> string" where
  "replace_loop source start_pos pattern1 string2 =
     (if pattern1 = [] \<or> length source < start_pos then source
      else case find_list pattern1 (drop start_pos source) of
        None \<Rightarrow> source
      | Some i \<Rightarrow>
          let at = start_pos + i;
              source' = take at source @ string2 @ drop (at + length pattern1) source
          in replace_loop source' (at + length string2) pattern1 string2)"
  by pat_completeness auto
termination
proof (relation "measure (\<lambda>(s, p, _, _). length s - p)", goal_cases)
  case 1
  show ?case by simp
next
  case (2 source start_pos pattern1 string2 i)
  have "i + length pattern1 \<le> length source - start_pos"
    using find_list_Some [OF 2(2)] by simp
  moreover have "0 < length pattern1" "start_pos \<le> length source" using 2(1) by simp_all
  ultimately show ?case using 2 by (cases pattern1) (auto simp: min_def)
qed

declare replace_loop.simps [simp del]

definition replace_string_pattern_with :: "string \<Rightarrow> string \<Rightarrow> string \<Rightarrow> string" where
  "replace_string_pattern_with source pattern1 string2 =
     (if pattern1 = [] then source else replace_loop source 0 pattern1 string2)"

text \<open>The left-to-right scan that the loop implements.\<close>

function scan_replace :: "string \<Rightarrow> string \<Rightarrow> string \<Rightarrow> string" where
  "scan_replace pat r s =
     (if pat = [] \<or> s = [] then s
      else if starts_with pat s then r @ scan_replace pat r (drop (length pat) s)
      else hd s # scan_replace pat r (tl s))"
  by pat_completeness auto
termination
  by (relation "measure (\<lambda>(_, _, s). length s)") auto

declare scan_replace.simps [simp del]

lemma scan_replace_Nil [simp]: "scan_replace pat r [] = []"
  by (simp add: scan_replace.simps)

lemma scan_replace_absent: "find_list pat s = None \<Longrightarrow> scan_replace pat r s = s"
proof (induction s)
  case (Cons c s)
  then show ?case by (subst scan_replace.simps) (auto split: if_splits)
qed simp

lemma scan_replace_found:
  "pat \<noteq> [] \<Longrightarrow> find_list pat s = Some i \<Longrightarrow>
     scan_replace pat r s = take i s @ r @ scan_replace pat r (drop (i + length pat) s)"
proof (induction s arbitrary: i)
  case (Cons c s)
  show ?case
  proof (cases "starts_with pat (c # s)")
    case True
    then show ?thesis using Cons.prems by (subst scan_replace.simps) auto
  next
    case False
    then obtain k where "i = Suc k" "find_list pat s = Some k" using Cons.prems by auto
    then show ?thesis using False Cons by (subst scan_replace.simps) auto
  qed
qed simp

lemma replace_loop_scan:
  "pat \<noteq> [] \<Longrightarrow> p \<le> length s \<Longrightarrow>
     replace_loop s p pat r = take p s @ scan_replace pat r (drop p s)"
proof (induction s p pat r rule: replace_loop.induct)
  case (1 s p pat r)
  show ?case
  proof (cases "find_list pat (drop p s)")
    case None
    then show ?thesis using "1.prems" by (subst replace_loop.simps) (simp add: scan_replace_absent)
  next
    case (Some i)
    let ?s = "take (p + i) s @ r @ drop (p + i + length pat) s"
    have i: "i + length pat \<le> length (drop p s)" using find_list_Some [OF Some] by blast
    then have len: "length (take (p + i) s) = p + i" using "1.prems" by simp
    have "take (p + i + length r) ?s = take (p + i) s @ r" using len by simp
    then have a: "take (p + i + length r) ?s = take p s @ take i (drop p s) @ r"
      by (simp only: take_add append_assoc)
    have b: "drop (p + i + length r) ?s = drop (i + length pat) (drop p s)"
      using len by (simp add: ac_simps)
    have "replace_loop s p pat r = replace_loop ?s (p + i + length r) pat r"
      using Some "1.prems" by (subst replace_loop.simps) (simp add: Let_def)
    also have "\<dots> = take (p + i + length r) ?s @ scan_replace pat r (drop (p + i + length r) ?s)"
      using "1.IH" [OF _ Some refl refl] "1.prems" len by simp
    finally show ?thesis unfolding a b using scan_replace_found [OF "1.prems"(1) Some] by simp
  qed
qed

lemma replace_is_scan: "replace_string_pattern_with s pat r = scan_replace pat r s"
  by (simp add: replace_string_pattern_with_def replace_loop_scan scan_replace.simps [of "[]"])

section \<open>Order\<close>

text \<open>\<open>operator<\<close> of strings: lexicographic by unsigned characters.\<close>

fun string_less :: "string \<Rightarrow> string \<Rightarrow> bool" where
  "string_less s [] \<longleftrightarrow> False"
| "string_less [] (d # t) \<longleftrightarrow> True"
| "string_less (c # s) (d # t) \<longleftrightarrow>
     (of_char c :: nat) < of_char d \<or> (c = d \<and> string_less s t)"

lemma string_less_total: "s \<noteq> t \<Longrightarrow> string_less s t \<longleftrightarrow> \<not> string_less t s"
proof (induction s t rule: string_less.induct)
  case (1 s)
  then show ?case by (cases s) simp_all
next
  case (3 c s d t)
  have "(of_char c :: nat) = of_char d \<longleftrightarrow> c = d" by simp
  then show ?case using 3 by (auto simp: not_less le_less)
qed simp

lemma string_less_irrefl [simp]: "\<not> string_less s s"
  by (induction s) simp_all

lemma string_less_trans: "string_less s t \<Longrightarrow> string_less t u \<Longrightarrow> string_less s u"
proof (induction s t arbitrary: u rule: string_less.induct)
  case (2 d t)
  then show ?case by (cases u) simp_all
next
  case (3 c s d t)
  then show ?case by (cases u) auto
qed simp

section \<open>Escaping for JSON\<close>

abbreviation quote :: char where "quote \<equiv> CHR 0x22"
abbreviation backslash :: char where "backslash \<equiv> CHR 0x5C"
abbreviation newline :: char where "newline \<equiv> CHR 0x0A"
abbreviation carriage_return :: char where "carriage_return \<equiv> CHR 0x0D"
abbreviation tab :: char where "tab \<equiv> CHR 0x09"
abbreviation crlf :: string where "crlf \<equiv> [carriage_return, newline]"

definition json_escape_char :: "char \<Rightarrow> string" where
  "json_escape_char c =
     (if c = quote then [backslash, quote]
      else if c = backslash then [backslash, backslash]
      else if c = newline then [backslash, CHR ''n'']
      else if c = carriage_return then [backslash, CHR ''r'']
      else if c = tab then [backslash, CHR ''t'']
      else [c])"

definition json_escape :: "string \<Rightarrow> string" where
  "json_escape s = concat (map json_escape_char s)"

text \<open>
  The reader: the body of a JSON string (RFC 8259) up to its closing quote, with the two-character
  escapes; a bare control character makes the document invalid.
\<close>

definition json_unescape_char :: "char \<Rightarrow> char option" where
  "json_unescape_char d =
     (if d = quote \<or> d = backslash \<or> d = CHR ''/'' then Some d
      else if d = CHR ''n'' then Some newline
      else if d = CHR ''r'' then Some carriage_return
      else if d = CHR ''t'' then Some tab
      else if d = CHR ''b'' then Some (CHR 0x08)
      else if d = CHR ''f'' then Some (CHR 0x0C)
      else None)"

definition json_control :: "char \<Rightarrow> bool" where
  "json_control c \<longleftrightarrow> (of_char c :: nat) < 0x20"

abbreviation push_char :: "char \<Rightarrow> (string \<times> string) option \<Rightarrow> (string \<times> string) option" where
  "push_char c r \<equiv> map_option (map_prod (Cons c) id) r"

fun json_string :: "string \<Rightarrow> (string \<times> string) option" where
  "json_string [] = None"
| "json_string [c] = (if c = quote then Some ([], []) else None)"
| "json_string (c # d # s) =
     (if c = quote then Some ([], d # s)
      else if c = backslash then
        (case json_unescape_char d of None \<Rightarrow> None | Some x \<Rightarrow> push_char x (json_string s))
      else if json_control c then None
      else push_char c (json_string (d # s)))"

definition json_safe :: "string \<Rightarrow> bool" where
  "json_safe s \<longleftrightarrow> list_all (\<lambda>c. \<not> json_control c \<or> c \<in> {newline, carriage_return, tab}) s"

lemma json_escape_simps [simp]:
  "json_escape [] = []"
  "json_escape (c # s) = json_escape_char c @ json_escape s"
  by (simp_all add: json_escape_def)

lemma json_escape_append: "json_escape (s @ t) = json_escape s @ json_escape t"
  by (simp add: json_escape_def)

lemma json_string_escape_char:
  "\<not> json_control c \<or> c \<in> {newline, carriage_return, tab} \<Longrightarrow>
     json_string (json_escape_char c @ t) = push_char c (json_string t)"
  by (cases t) (auto simp: json_escape_char_def json_unescape_char_def json_control_def)

lemma json_string_escape:
  "json_safe s \<Longrightarrow> json_string (json_escape s @ quote # rest) = Some (s, rest)"
  by (induction s) (cases rest; simp_all add: json_safe_def json_string_escape_char)+

interpretation json: stream_codec "\<lambda>s. json_escape s @ [quote]" json_string json_safe
  by unfold_locales (simp add: json_string_escape)

section \<open>Escaping for HTML\<close>

definition html_escape_char :: "char \<Rightarrow> string" where
  "html_escape_char c =
     (if c = CHR ''&'' then ''&amp;''
      else if c = CHR ''<'' then ''&lt;''
      else if c = CHR ''>'' then ''&gt;''
      else if c = quote then ''&quot;''
      else if c = CHR 0x27 then ''&#39;''
      else [c])"

definition html_escape :: "string \<Rightarrow> string" where
  "html_escape s = concat (map html_escape_char s)"

text \<open>The reader: character data of an HTML document up to the next tag.\<close>

function html_text :: "string \<Rightarrow> (string \<times> string) option" where
  "html_text s =
     (if s = [] then None
      else if hd s = CHR ''<'' then Some ([], tl s)
      else if starts_with ''&amp;'' s then push_char (CHR ''&'') (html_text (drop 5 s))
      else if starts_with ''&lt;'' s then push_char (CHR ''<'') (html_text (drop 4 s))
      else if starts_with ''&gt;'' s then push_char (CHR ''>'') (html_text (drop 4 s))
      else if starts_with ''&quot;'' s then push_char quote (html_text (drop 6 s))
      else if starts_with ''&#39;'' s then push_char (CHR 0x27) (html_text (drop 5 s))
      else push_char (hd s) (html_text (tl s)))"
  by pat_completeness auto
termination
  by (relation "measure length") auto

declare html_text.simps [simp del]

lemma html_escape_simps [simp]:
  "html_escape [] = []"
  "html_escape (c # s) = html_escape_char c @ html_escape s"
  by (simp_all add: html_escape_def)

lemma html_text_escape_char: "html_text (html_escape_char c @ t) = push_char c (html_text t)"
  by (subst html_text.simps) (auto simp: html_escape_char_def starts_with_def)

lemma html_text_escape: "html_text (html_escape s @ CHR ''<'' # rest) = Some (s, rest)"
  by (induction s) (simp_all add: html_text_escape_char html_text.simps [of "CHR ''<'' # rest"])

interpretation html: stream_codec "\<lambda>s. html_escape s @ ''<''" html_text "\<lambda>_. True"
  by unfold_locales (simp add: html_text_escape)

lemma html_escape_clean:
  "c \<in> set (html_escape s) \<Longrightarrow> c \<noteq> CHR ''<'' \<and> c \<noteq> CHR ''>'' \<and> c \<noteq> quote \<and> c \<noteq> CHR 0x27"
  by (induction s) (auto simp: html_escape_char_def split: if_splits)

section \<open>Properties\<close>

text \<open>
  The in-place search-and-replace loop, which resumes after each insertion, terminates and
  computes the left-to-right scan that replaces every non-overlapping occurrence of the pattern,
  never looking inside what it inserted.
\<close>

lemma replace_refines_scan:
  "replace_string_pattern_with source pattern1 string2 = scan_replace pattern1 string2 source"
  by (rule replace_is_scan)

text \<open>
  A text without control characters other than newline, carriage return and tab survives the
  trip through a JSON document: escaped, quoted and followed by anything, a JSON reader gets the
  text back and stops at its closing quote.
\<close>

lemma json_escape_roundtrip:
  "json_safe s \<Longrightarrow> json_string (json_escape s @ [quote] @ rest) = Some (s, rest)"
  using json.get_put [of s rest] by simp

lemma json_escape_roundtrip_witness:
  "json_string (json_escape [CHR ''a'', quote, backslash, newline] @ [quote] @ '',1'')
     = Some ([CHR ''a'', quote, backslash, newline], '',1'')"
  by (rule json_escape_roundtrip) (simp add: json_safe_def json_control_def)

text \<open>
  Escaped character data contains none of the characters that could close the surrounding
  tag or attribute, and an HTML reader gets exactly the original text back, for every text.
\<close>

lemma html_escape_roundtrip:
  "set (html_escape s) \<inter> {CHR ''<'', CHR ''>'', quote, CHR 0x27} = {}
   \<and> html_text (html_escape s @ ''<'' @ rest) = Some (s, rest)"
  using html.get_put [of s rest] html_escape_clean [of _ s] by auto

end
