(* ===== verification/CppNumber.thy ===== *)
theory CppNumber
  imports CppString
begin

text \<open>
  Numbers as text: \<open>std::to_string\<close>, \<open>std::stoi\<close>, \<open>std::stoul\<close>, \<open>snprintf("%02x")\<close>, and formatted
  input \<open>file >> word >> number\<close>. These are functions of the C++ standard library; the model
  follows the standard's text (\<open>strtol\<close>: leading white space, a sign, for base 16 an optional
  \<open>0x\<close>, the longest run of digits, and no test that the input ends there).
\<close>

section \<open>Decimal output\<close>

definition digit_char :: "nat \<Rightarrow> char" where
  "digit_char d = char_of (48 + d)"

fun show_nat :: "nat \<Rightarrow> string" where
  "show_nat n = (if n < 10 then [digit_char n] else show_nat (n div 10) @ [digit_char (n mod 10)])"

declare show_nat.simps [simp del]

definition show_int :: "int \<Rightarrow> string" where
  "show_int i = (if i < 0 then CHR ''-'' # show_nat (nat (- i)) else show_nat (nat i))"

section \<open>Digits\<close>

definition digit_val :: "char \<Rightarrow> nat option" where
  "digit_val c = (let n = of_char c in
     if 48 \<le> n \<and> n \<le> 57 then Some (n - 48)
     else if 97 \<le> n \<and> n \<le> 102 then Some (n - 87)
     else if 65 \<le> n \<and> n \<le> 70 then Some (n - 55)
     else None)"

definition is_digit :: "nat \<Rightarrow> char \<Rightarrow> bool" where
  "is_digit base c = (case digit_val c of None \<Rightarrow> False | Some d \<Rightarrow> d < base)"

definition is_space :: "char \<Rightarrow> bool" where
  "is_space c \<longleftrightarrow> c = CHR '' '' \<or> (9 \<le> (of_char c :: nat) \<and> (of_char c :: nat) \<le> 13)"

definition digits_val :: "nat \<Rightarrow> string \<Rightarrow> nat" where
  "digits_val base ds = foldl (\<lambda>acc c. acc * base + the (digit_val c)) 0 ds"

section \<open>\<open>strtol\<close>, \<open>stoi\<close>, \<open>stoul\<close>\<close>

text \<open>\<open>None\<close>: no conversion could be performed.\<close>

definition strtol :: "nat \<Rightarrow> string \<Rightarrow> int option" where
  "strtol base s0 =
     (let s = dropWhile is_space s0;
          neg = (s \<noteq> [] \<and> hd s = CHR ''-'');
          t = (if s \<noteq> [] \<and> (hd s = CHR ''-'' \<or> hd s = CHR ''+'') then tl s else s);
          u = (if base = 16 \<and> (starts_with ''0x'' t \<or> starts_with ''0X'' t)
                 \<and> 2 < length t \<and> is_digit 16 (t ! 2) then drop 2 t else t);
          ds = takeWhile (is_digit base) u
      in if ds = [] then None
         else Some (if neg then - int (digits_val base ds) else int (digits_val base ds)))"

definition int_min :: int where "int_min = - (2 ^ 31)"
definition int_max :: int where "int_max = 2 ^ 31 - 1"

definition stoi :: "nat \<Rightarrow> string \<Rightarrow> int res" where
  "stoi base s = (case strtol base s of
     None \<Rightarrow> Inl (Throw InvalidArgument)
   | Some i \<Rightarrow> if i < int_min \<or> int_max < i then Inl (Throw OutOfRange) else Inr i)"

text \<open>\<open>unsigned long\<close> has 32 bits on the program's platform; a negative input wraps.\<close>

definition stoul :: "string \<Rightarrow> nat res" where
  "stoul s = (case strtol 10 s of
     None \<Rightarrow> Inl (Throw InvalidArgument)
   | Some i \<Rightarrow> if i \<le> - (2 ^ 32) \<or> 2 ^ 32 \<le> i then Inl (Throw OutOfRange)
       else Inr (nat (i mod 2 ^ 32)))"

section \<open>Formatted input\<close>

text \<open>
  An input stream is the unread text and whether the stream is still good. Extraction from a
  failed or exhausted stream leaves the variable untouched (\<open>None\<close>): what it holds then is what
  the program put there before, if anything.
\<close>

type_synonym istream = "string \<times> bool"

definition extract_word :: "istream \<Rightarrow> string option \<times> istream" where
  "extract_word st = (case st of (s0, good) \<Rightarrow>
     let s = dropWhile is_space s0 in
     if \<not> good \<or> s = [] then (None, (s, False))
     else (Some (takeWhile (\<lambda>c. \<not> is_space c) s), (dropWhile (\<lambda>c. \<not> is_space c) s, True)))"

definition extract_int :: "istream \<Rightarrow> int option \<times> istream" where
  "extract_int st = (case st of (s0, good) \<Rightarrow>
     let s = dropWhile is_space s0 in
     if \<not> good \<or> s = [] then (None, (s, False))
     else
       let neg = (hd s = CHR ''-'');
           t = (if neg \<or> hd s = CHR ''+'' then tl s else s);
           ds = takeWhile (is_digit 10) t;
           rest = dropWhile (is_digit 10) t;
           v = (if neg then - int (digits_val 10 ds) else int (digits_val 10 ds))
       in if ds = [] then (Some 0, (rest, False))
          else if v < int_min then (Some int_min, (rest, False))
          else if int_max < v then (Some int_max, (rest, False))
          else (Some v, (rest, True)))"

section \<open>Hexadecimal bytes\<close>

definition hex_digit :: "nat \<Rightarrow> char" where
  "hex_digit d = (if d < 10 then char_of (48 + d) else char_of (87 + d))"

text \<open>\<open>snprintf(buf, sizeof(buf), "%02x", b)\<close>\<close>

definition hex_byte :: "byte \<Rightarrow> string" where
  "hex_byte b = [hex_digit (unat b div 16), hex_digit (unat b mod 16)]"

section \<open>Lemmas\<close>

lemma digit_val_digit_char: "d < 10 \<Longrightarrow> digit_val (digit_char d) = Some d"
  by (simp add: digit_val_def digit_char_def)

lemma digit_val_hex_digit: "d < 16 \<Longrightarrow> digit_val (hex_digit d) = Some d"
  by (auto simp: digit_val_def hex_digit_def)

lemma is_digit_digit_char: "d < 10 \<Longrightarrow> is_digit 10 (digit_char d)"
  by (simp add: is_digit_def digit_val_digit_char)

lemma is_digit_hex_digit: "d < 16 \<Longrightarrow> is_digit 16 (hex_digit d)"
  by (simp add: is_digit_def digit_val_hex_digit)

lemma digit_not_space: "is_digit b c \<Longrightarrow> \<not> is_space c"
  by (auto simp: is_digit_def digit_val_def is_space_def Let_def split: if_splits)

lemma digit_not_sign: "is_digit b c \<Longrightarrow> c \<noteq> CHR ''-'' \<and> c \<noteq> CHR ''+'' \<and> c \<noteq> CHR ''x'' \<and> c \<noteq> CHR ''X''"
  by (auto simp: is_digit_def digit_val_def Let_def split: if_splits)

lemma digits_val_snoc: "digits_val b (ds @ [c]) = digits_val b ds * b + the (digit_val c)"
  by (simp add: digits_val_def)

lemma show_nat_digits: "\<forall>c \<in> set (show_nat n). is_digit 10 c"
proof (induction n rule: show_nat.induct)
  case (1 n)
  then show ?case by (subst show_nat.simps) (auto simp: is_digit_digit_char)
qed

lemma show_nat_nonempty [simp]: "show_nat n \<noteq> []"
  by (subst show_nat.simps) simp

lemma digits_val_show_nat: "digits_val 10 (show_nat n) = n"
proof (induction n rule: show_nat.induct)
  case (1 n)
  show ?case
  proof (cases "n < 10")
    case True
    then show ?thesis
      by (subst show_nat.simps) (simp add: digits_val_def digit_val_digit_char)
  next
    case False
    then show ?thesis using 1
      by (subst show_nat.simps) (simp add: digits_val_snoc digit_val_digit_char)
  qed
qed

lemma show_nat_inj: "show_nat m = show_nat n \<longleftrightarrow> m = n"
  by (metis digits_val_show_nat)

lemma hd_show_nat: "is_digit 10 (hd (show_nat n))"
  using show_nat_digits [of n] by (simp add: list.set_sel)

text \<open>Decimal output is read back by \<open>stoul\<close>, \<open>stoi\<close> and \<open>operator>>\<close>.\<close>

definition ends_number :: "string \<Rightarrow> bool" where
  "ends_number r \<longleftrightarrow> r = [] \<or> \<not> is_digit 10 (hd r)"

lemma takeWhile_show_nat:
  "ends_number r \<Longrightarrow> takeWhile (is_digit 10) (show_nat n @ r) = show_nat n"
  "ends_number r \<Longrightarrow> dropWhile (is_digit 10) (show_nat n @ r) = r"
  using show_nat_digits [of n]
  by (cases r; simp add: ends_number_def takeWhile_append2 dropWhile_append2)+

lemma dropWhile_space_show_nat: "dropWhile is_space (show_nat n @ r) = show_nat n @ r"
  using hd_show_nat [of n] by (cases "show_nat n") (auto dest: digit_not_space)

lemma strtol_show_nat: "ends_number r \<Longrightarrow> strtol 10 (show_nat n @ r) = Some (int n)"
proof -
  assume r: "ends_number r"
  have "hd (show_nat n @ r) \<noteq> CHR ''-'' \<and> hd (show_nat n @ r) \<noteq> CHR ''+''"
    using digit_not_sign [OF hd_show_nat [of n]] by simp
  then show ?thesis
    by (simp add: strtol_def dropWhile_space_show_nat takeWhile_show_nat [OF r] digits_val_show_nat)
qed

lemma extract_int_show_nat:
  assumes "ends_number r" "list_all is_space ws" "int n \<le> int_max"
  shows "extract_int (ws @ show_nat n @ r, True) = (Some (int n), (r, True))"
proof -
  have "dropWhile is_space (ws @ show_nat n @ r) = show_nat n @ r"
    using assms(2) by (induction ws) (simp_all add: dropWhile_space_show_nat)
  moreover have "hd (show_nat n @ r) \<noteq> CHR ''-'' \<and> hd (show_nat n @ r) \<noteq> CHR ''+''"
    using digit_not_sign [OF hd_show_nat [of n]] by simp
  ultimately show ?thesis
    using assms takeWhile_show_nat [OF assms(1), of n]
    by (simp add: extract_int_def Let_def digits_val_show_nat int_min_def
        del: dropWhile_eq_Nil_conv)
qed

lemma stoi_hex_byte: "stoi 16 (hex_byte b) = Inr (int (unat b))"
proof -
  have lt: "unat b < 256" using unsigned_less [of b, where ?'a = nat] by simp
  let ?h = "hex_digit (unat b div 16)" and ?l = "hex_digit (unat b mod 16)"
  have d: "digit_val ?h = Some (unat b div 16)" "digit_val ?l = Some (unat b mod 16)"
    using lt by (simp_all add: digit_val_hex_digit)
  have g: "is_digit 16 ?h" "is_digit 16 ?l" using lt by (simp_all add: is_digit_hex_digit)
  have "strtol 16 [?h, ?l] = Some (int (unat b))"
    using digit_not_space [OF g(1)] digit_not_sign [OF g(1)] digit_not_sign [OF g(2)] g d
    by (simp add: strtol_def digits_val_def starts_with_def Let_def)
  moreover have "uint b < 256" "\<not> uint b < - 2147483648"
    using unsigned_less [of b, where ?'a = int] unsigned_greater_eq [of b, where ?'a = int]
    by (simp, linarith)
  ultimately show ?thesis by (simp add: stoi_def hex_byte_def int_min_def int_max_def)
qed

end
