(* ===== verification/FileSys.thy ===== *)
theory FileSys
  imports CppString
begin

text \<open>
  The file system as the program sees it through \<open>std::ifstream\<close>, \<open>std::ofstream\<close> and
  \<open>std::filesystem\<close>. A path string is resolved to its components: both slashes separate, empty
  components and \<open>.\<close> vanish, \<open>..\<close> leaves the enclosing directory. A state holds the regular
  files with their contents and the directories in the order a \<open>directory_iterator\<close> meets them;
  the working directory is the root \<open>[]\<close>.

  Opening a stream for writing succeeds when the parent directory exists and the name is not a
  directory; when it does not open, what is written is silently lost, as with \<open>std::ofstream\<close>.
  Permissions, links, disk errors and the newline translation of text streams are not modelled.
\<close>

section \<open>Paths\<close>

type_synonym path = "string list"

definition is_sep :: "char \<Rightarrow> bool" where
  "is_sep c \<longleftrightarrow> c = CHR ''/'' \<or> c = backslash"

fun split_path :: "string \<Rightarrow> string \<Rightarrow> path" where
  "split_path cur [] = [cur]"
| "split_path cur (c # s) = (if is_sep c then cur # split_path [] s else split_path (cur @ [c]) s)"

definition resolve_step :: "path \<Rightarrow> string \<Rightarrow> path" where
  "resolve_step p c =
     (if c = [] \<or> c = ''.'' then p else if c = ''..'' then butlast p else p @ [c])"

definition resolve :: "string \<Rightarrow> path" where
  "resolve s = foldl resolve_step [] (split_path [] s)"

text \<open>A name that is one path component and stays where it is put.\<close>

definition plain_name :: "string \<Rightarrow> bool" where
  "plain_name s \<longleftrightarrow> s \<noteq> [] \<and> s \<noteq> ''.'' \<and> s \<noteq> ''..'' \<and> list_all (\<lambda>c. \<not> is_sep c) s"

section \<open>State and operations\<close>

record filesys =
  fs_files :: "(path \<times> string) list"
  fs_dirs :: "path list"

definition is_directory :: "filesys \<Rightarrow> path \<Rightarrow> bool" where
  "is_directory fs p \<longleftrightarrow> p = [] \<or> p \<in> set (fs_dirs fs)"

definition fs_exists :: "filesys \<Rightarrow> path \<Rightarrow> bool" where
  "fs_exists fs p \<longleftrightarrow> is_directory fs p \<or> map_of (fs_files fs) p \<noteq> None"

text \<open>\<open>std::ifstream\<close>: the contents, \<open>None\<close> when the file does not open.\<close>

definition fs_read :: "filesys \<Rightarrow> path \<Rightarrow> string option" where
  "fs_read fs p = (if is_directory fs p then None else map_of (fs_files fs) p)"

definition can_write :: "filesys \<Rightarrow> path \<Rightarrow> bool" where
  "can_write fs p \<longleftrightarrow> p \<noteq> [] \<and> \<not> is_directory fs p \<and> is_directory fs (butlast p)"

text \<open>\<open>std::ofstream\<close>, truncating and appending.\<close>

definition fs_write :: "filesys \<Rightarrow> path \<Rightarrow> string \<Rightarrow> filesys" where
  "fs_write fs p s =
     (if can_write fs p then fs\<lparr>fs_files := AList.update p s (fs_files fs)\<rparr> else fs)"

definition fs_append :: "filesys \<Rightarrow> path \<Rightarrow> string \<Rightarrow> filesys" where
  "fs_append fs p s =
     (if can_write fs p
      then fs\<lparr>fs_files := AList.update p
        ((case map_of (fs_files fs) p of None \<Rightarrow> [] | Some old \<Rightarrow> old) @ s) (fs_files fs)\<rparr>
      else fs)"

text \<open>\<open>create_directories\<close>: every missing prefix becomes a directory; a file in the way throws.\<close>

definition add_dir :: "filesys \<Rightarrow> path \<Rightarrow> filesys" where
  "add_dir fs p = (if is_directory fs p then fs else fs\<lparr>fs_dirs := fs_dirs fs @ [p]\<rparr>)"

fun mkdirs :: "filesys \<Rightarrow> path list \<Rightarrow> filesys res" where
  "mkdirs fs [] = Inr fs"
| "mkdirs fs (p # ps) =
     (if \<not> is_directory fs p \<and> map_of (fs_files fs) p \<noteq> None then Inl (Throw FilesystemError)
      else mkdirs (add_dir fs p) ps)"

definition path_prefixes :: "path \<Rightarrow> path list" where
  "path_prefixes p = map (\<lambda>n. take n p) [1..<Suc (length p)]"

definition create_directories :: "filesys \<Rightarrow> path \<Rightarrow> filesys res" where
  "create_directories fs p = mkdirs fs (path_prefixes p)"

text \<open>\<open>remove\<close> deletes one file (an empty directory otherwise); \<open>remove_all\<close> a whole subtree.\<close>

definition children :: "filesys \<Rightarrow> path \<Rightarrow> path list" where
  "children fs p =
     filter (\<lambda>q. q \<noteq> [] \<and> butlast q = p) (fs_dirs fs @ map fst (fs_files fs))"

definition fs_remove :: "filesys \<Rightarrow> path \<Rightarrow> filesys res" where
  "fs_remove fs p =
     (if p = [] \<or> (is_directory fs p \<and> children fs p \<noteq> []) then Inl (Throw FilesystemError)
      else if is_directory fs p then Inr (fs\<lparr>fs_dirs := filter (\<lambda>d. d \<noteq> p) (fs_dirs fs)\<rparr>)
      else Inr (fs\<lparr>fs_files := AList.delete p (fs_files fs)\<rparr>))"

definition below :: "path \<Rightarrow> path \<Rightarrow> bool" where
  "below p q \<longleftrightarrow> take (length p) q = p"

definition remove_all :: "filesys \<Rightarrow> path \<Rightarrow> filesys" where
  "remove_all fs p =
     fs\<lparr>fs_files := filter (\<lambda>(q, _). \<not> below p q) (fs_files fs),
        fs_dirs := filter (\<lambda>d. \<not> below p d) (fs_dirs fs)\<rparr>"

text \<open>\<open>directory_iterator\<close> over \<open>p\<close>, its subdirectories only.\<close>

definition subdirectories :: "filesys \<Rightarrow> path \<Rightarrow> path list" where
  "subdirectories fs p = filter (\<lambda>d. d \<noteq> [] \<and> butlast d = p) (fs_dirs fs)"

section \<open>The store interface\<close>

text \<open>What a component that keeps named texts relies on.\<close>

locale text_store =
  fixes rd :: "'s \<Rightarrow> 'k \<Rightarrow> 'v option"
    and wr :: "'s \<Rightarrow> 'k \<Rightarrow> 'v \<Rightarrow> 's"
    and writable :: "'s \<Rightarrow> 'k \<Rightarrow> bool"
  assumes rd_wr_same: "writable s k \<Longrightarrow> rd (wr s k v) k = Some v"
    and rd_wr_other: "k \<noteq> k' \<Longrightarrow> rd (wr s k v) k' = rd s k'"
    and wr_unwritable: "\<not> writable s k \<Longrightarrow> rd (wr s k v) = rd s"
    and writable_wr: "writable (wr s k v) k' = writable s k'"
begin

lemma rd_wr: "rd (wr s k v) k' = (if k' = k \<and> writable s k then Some v else rd s k')"
  using rd_wr_same rd_wr_other wr_unwritable by metis

lemma wr_wr_same: "rd (wr (wr s k v) k w) = rd (wr s k w)"
  by (auto simp: fun_eq_iff rd_wr writable_wr)

lemma wr_commute: "k \<noteq> k' \<Longrightarrow> rd (wr (wr s k v) k' w) = rd (wr (wr s k' w) k v)"
  by (auto simp: fun_eq_iff rd_wr writable_wr)

lemma rd_wr_fold:
  "k \<notin> fst ` set kvs \<Longrightarrow> rd (fold (\<lambda>(a, v) s. wr s a v) kvs s) k = rd s k"
  by (induction kvs arbitrary: s) (auto simp: rd_wr_other)

end

section \<open>Lemmas\<close>

lemma is_directory_write [simp]:
  "is_directory (fs_write fs p s) q = is_directory fs q"
  "is_directory (fs_append fs p s) q = is_directory fs q"
  by (simp_all add: fs_write_def fs_append_def is_directory_def)

lemma dirs_write [simp]:
  "fs_dirs (fs_write fs p s) = fs_dirs fs" "fs_dirs (fs_append fs p s) = fs_dirs fs"
  by (simp_all add: fs_write_def fs_append_def)

lemma can_write_write [simp]:
  "can_write (fs_write fs p s) q = can_write fs q"
  "can_write (fs_append fs p s) q = can_write fs q"
  by (simp_all add: can_write_def)

interpretation files: text_store fs_read fs_write can_write
  by unfold_locales
    (auto simp: fs_read_def fs_write_def can_write_def is_directory_def update_conv')

lemma fs_read_append:
  "fs_read (fs_append fs p s) q =
     (if q = p \<and> can_write fs p
      then Some ((case fs_read fs p of None \<Rightarrow> [] | Some old \<Rightarrow> old) @ s) else fs_read fs q)"
  by (auto simp: fs_read_def fs_append_def can_write_def is_directory_def update_conv'
      split: option.splits)

lemmas fs_read_simps = files.rd_wr fs_read_append

text \<open>A file system whose entries have their directories, and no name is both.\<close>

definition fs_wf :: "filesys \<Rightarrow> bool" where
  "fs_wf fs \<longleftrightarrow>
     (\<forall>d \<in> set (fs_dirs fs). d \<noteq> [] \<and> is_directory fs (butlast d))
     \<and> (\<forall>f. map_of (fs_files fs) f \<noteq> None \<longrightarrow> can_write fs f)
     \<and> distinct (fs_dirs fs) \<and> distinct (map fst (fs_files fs))"

lemma fs_wf_update:
  assumes "fs_wf fs" "can_write fs p"
  shows "fs_wf (fs\<lparr>fs_files := AList.update p s (fs_files fs)\<rparr>)"
proof -
  let ?fs = "fs\<lparr>fs_files := AList.update p s (fs_files fs)\<rparr>"
  have "is_directory ?fs = is_directory fs" "can_write ?fs = can_write fs"
    by (simp_all add: is_directory_def can_write_def fun_eq_iff)
  then show ?thesis
    using assms by (auto simp: fs_wf_def update_conv' distinct_update)
qed

lemma fs_wf_write: "fs_wf fs \<Longrightarrow> fs_wf (fs_write fs p s)"
  by (simp add: fs_write_def fs_wf_update)

lemma fs_wf_append: "fs_wf fs \<Longrightarrow> fs_wf (fs_append fs p s)"
  by (simp add: fs_append_def fs_wf_update)

lemma is_directory_add_dir: "is_directory (add_dir fs p) q \<longleftrightarrow> is_directory fs q \<or> q = p"
  by (auto simp: add_dir_def is_directory_def)

lemma files_add_dir [simp]: "fs_files (add_dir fs p) = fs_files fs"
  by (simp add: add_dir_def)

lemma fs_wf_add_dir:
  assumes "fs_wf fs" "map_of (fs_files fs) p = None" "is_directory fs (butlast p)"
  shows "fs_wf (add_dir fs p)"
proof (cases "is_directory fs p")
  case True
  then show ?thesis using assms by (simp add: add_dir_def)
next
  case False
  then have "fs_dirs (add_dir fs p) = fs_dirs fs @ [p]" "p \<noteq> []" "p \<notin> set (fs_dirs fs)"
    by (auto simp: add_dir_def is_directory_def)
  then show ?thesis
    using assms unfolding fs_wf_def can_write_def is_directory_add_dir by auto
qed

lemma mkdirs_wf:
  assumes "fs_wf fs" "mkdirs fs ps = Inr fs'"
    and "\<forall>i < length ps. butlast (ps ! i) = [] \<or> butlast (ps ! i) \<in> set (take i ps)"
  shows "fs_wf fs' \<and> (\<forall>q. is_directory fs' q \<longleftrightarrow> is_directory fs q \<or> q \<in> set ps)
    \<and> fs_files fs' = fs_files fs"
  using assms
proof (induction ps arbitrary: fs' rule: rev_induct)
  case Nil
  then show ?case by simp
next
  case (snoc p ps)
  have app: "mkdirs fs (xs @ ys) = bind_res (mkdirs fs xs) (\<lambda>f. mkdirs f ys)" for fs xs ys
    by (induction xs arbitrary: fs) simp_all
  from snoc.prems(2) obtain f where f: "mkdirs fs ps = Inr f" "mkdirs f [p] = Inr fs'"
    by (auto simp: app bind_res_Inr_iff)
  have "\<forall>i < length ps. butlast (ps ! i) = [] \<or> butlast (ps ! i) \<in> set (take i ps)"
  proof (intro allI impI)
    fix i assume "i < length ps"
    then show "butlast (ps ! i) = [] \<or> butlast (ps ! i) \<in> set (take i ps)"
      using snoc.prems(3) [rule_format, of i] by (simp add: nth_append)
  qed
  then have IH: "fs_wf f" "\<forall>q. is_directory f q \<longleftrightarrow> is_directory fs q \<or> q \<in> set ps"
      "fs_files f = fs_files fs"
    using snoc.IH [OF snoc.prems(1) f(1)] by blast+
  have "is_directory f (butlast p)"
    using snoc.prems(3) [rule_format, of "length ps"] IH(2) by (auto simp: is_directory_def)
  moreover have fs': "fs' = add_dir f p" "is_directory f p \<or> map_of (fs_files f) p = None"
    using f(2) by (auto split: if_splits)
  moreover have "fs_wf (add_dir f p)" if "is_directory f p"
    using that IH(1) by (simp add: add_dir_def)
  ultimately have "fs_wf fs'" using fs_wf_add_dir [OF IH(1)] by blast
  then show ?case using IH fs' by (auto simp: is_directory_add_dir)
qed

lemma create_directories_wf:
  assumes "fs_wf fs" "create_directories fs p = Inr fs'"
  shows "fs_wf fs' \<and> (\<forall>q. is_directory fs' q \<longleftrightarrow> is_directory fs q \<or> q \<in> set (path_prefixes p))
    \<and> fs_files fs' = fs_files fs"
proof (rule mkdirs_wf [OF assms(1)])
  show "mkdirs fs (path_prefixes p) = Inr fs'" using assms(2) by (simp add: create_directories_def)
  show "\<forall>i < length (path_prefixes p). butlast (path_prefixes p ! i) = []
      \<or> butlast (path_prefixes p ! i) \<in> set (take i (path_prefixes p))"
  proof (intro allI impI)
    fix i assume i: "i < length (path_prefixes p)"
    then have ip: "i < length p" by (simp add: path_prefixes_def del: upt_Suc)
    have nth: "path_prefixes p ! k = take (Suc k) p" if "k < length p" for k
      using that by (simp add: path_prefixes_def nth_upt del: upt_Suc)
    show "butlast (path_prefixes p ! i) = [] \<or> butlast (path_prefixes p ! i) \<in> set (take i (path_prefixes p))"
    proof (cases i)
      case 0
      then show ?thesis using ip nth by (cases p) simp_all
    next
      case (Suc k)
      then have "butlast (path_prefixes p ! i) = path_prefixes p ! k"
        using ip nth by (simp add: butlast_take)
      also have "\<dots> = take i (path_prefixes p) ! k" using Suc by simp
      finally show ?thesis using Suc i by (metis length_take less_Suc_eq min.absorb4 nth_mem)
    qed
  qed
qed

section \<open>Removal keeps the file system well formed\<close>

lemma below_iff: "below p q \<longleftrightarrow> (\<exists>r. q = p @ r)"
  unfolding below_def by (metis append_eq_conv_conj append_take_drop_id)
lemma below_butlast: "below p (butlast q) \<Longrightarrow> below p q"
  unfolding below_iff by (metis append.assoc append_butlast_last_id butlast.simps(1) append_is_Nil_conv)

lemma map_of_filter_key: "map_of (filter (\<lambda>(q, _). P q) xs) k = (if P k then map_of xs k else None)"
  by (induction xs) auto

lemma fs_wf_remove_all:
  assumes "fs_wf fs" "p \<noteq> []"
  shows "fs_wf (remove_all fs p)"
proof -
  have dir: "is_directory (remove_all fs p) q \<longleftrightarrow> is_directory fs q \<and> (q = [] \<or> \<not> below p q)" for q
    by (auto simp: remove_all_def is_directory_def)
  have fl: "map_of (fs_files (remove_all fs p)) q = (if below p q then None else map_of (fs_files fs) q)" for q
    by (simp add: remove_all_def map_of_filter_key)
  have "distinct (map fst (filter (\<lambda>(q, _). \<not> below p q) (fs_files fs)))"
    using assms(1) by (simp add: fs_wf_def distinct_map_filter)
  then show ?thesis
    using assms below_butlast [of p] unfolding fs_wf_def can_write_def dir fl
    by (auto simp: remove_all_def)
qed

section \<open>Resolving the paths the program builds\<close>

lemma split_path_plain:
  "list_all (\<lambda>c. \<not> is_sep c) a \<Longrightarrow> split_path cur (a @ s) = split_path (cur @ a) s"
  by (induction a arbitrary: cur) simp_all

lemma split_path_name: "list_all (\<lambda>c. \<not> is_sep c) a \<Longrightarrow> split_path cur a = [cur @ a]"
  using split_path_plain [of a cur "[]"] by simp

definition friend_file :: "string \<Rightarrow> string \<Rightarrow> path" where
  "friend_file u f = resolve (''./friends/'' @ u @ ''/'' @ f)"

lemma friend_file_plain: "plain_name u \<Longrightarrow> plain_name f \<Longrightarrow> friend_file u f = [''friends'', u, f]"
  by (simp add: friend_file_def resolve_def plain_name_def split_path_plain split_path_name
      resolve_step_def is_sep_def)
end
