(* ===== verification/Crypto.thy ===== *)
theory Crypto
  imports CppNumber FileSys
begin

text \<open>
  Keys and encryption: \<open>aes_encrypt\<close>, \<open>aes_decrypt\<close>, the hexadecimal key files, the X25519 key
  pair and the key wrapping \<open>encrypt_ECC\<close> / \<open>decrypt_ECC\<close> of \<open>app_final/client/main.cpp\<close>, with the
  variants of \<open>app_final/server/main.cpp\<close> where they differ.

  OpenSSL is not part of the repository. The record \<open>evp\<close> holds its primitives as parameters:
  AES-256-CBC with padding for a key and an initialisation vector, the X25519 public key and
  shared secret of raw keys, SHA-256; \<open>None\<close> is a call that reports failure. \<open>evp_laws\<close> states
  what its documentation promises of them. Random bytes come from a stream of answers to
  \<open>RAND_bytes\<close>, each a success flag and what the buffer holds afterwards.
\<close>

section \<open>OpenSSL as a parameter\<close>

record evp =
  evp_encrypt :: "byte list \<Rightarrow> byte list \<Rightarrow> byte list \<Rightarrow> byte list option"
  evp_decrypt :: "byte list \<Rightarrow> byte list \<Rightarrow> byte list \<Rightarrow> byte list option"
  x25519_public :: "byte list \<Rightarrow> byte list option"
  x25519_derive :: "byte list \<Rightarrow> byte list \<Rightarrow> byte list option"
  sha256 :: "byte list \<Rightarrow> byte list"

type_synonym entropy = "(nat \<Rightarrow> bool \<times> byte list) stream"

definition rand_bytes :: "nat \<Rightarrow> entropy \<Rightarrow> (bool \<times> byte list) \<times> entropy" where
  "rand_bytes n e = (shd e n, stl e)"

definition entropy_ok :: "entropy \<Rightarrow> bool" where
  "entropy_ok e \<longleftrightarrow> (\<forall>f \<in> sset e. \<forall>n. fst (f n) \<and> length (snd (f n)) = n)"

definition evp_laws :: "evp \<Rightarrow> bool" where
  "evp_laws ev \<longleftrightarrow>
     (\<forall>k iv p. length k = 32 \<longrightarrow> length iv = 16 \<longrightarrow>
        (\<exists>c. evp_encrypt ev k iv p = Some c \<and> length c = 16 * (length p div 16 + 1)
           \<and> evp_decrypt ev k iv c = Some p))
     \<and> (\<forall>s. length (sha256 ev s) = 32)
     \<and> (\<forall>k. length k = 32 \<longrightarrow> (\<exists>p. x25519_public ev k = Some p \<and> length p = 32))
     \<and> (\<forall>a b pa pb. length a = 32 \<longrightarrow> length b = 32 \<longrightarrow>
          x25519_public ev a = Some pa \<longrightarrow> x25519_public ev b = Some pb \<longrightarrow>
          (\<exists>s. x25519_derive ev a pb = Some s \<and> x25519_derive ev b pa = Some s))"

section \<open>AES\<close>

text \<open>The client does not look at what \<open>RAND_bytes\<close> returns.\<close>

definition aes_encrypt :: "evp \<Rightarrow> string \<Rightarrow> byte list \<Rightarrow> entropy \<Rightarrow> byte list res \<times> entropy" where
  "aes_encrypt ev plaintext key e =
     (let ((_, iv), e') = rand_bytes 16 e in
      case evp_encrypt ev key iv (bytes_of plaintext) of
        None \<Rightarrow> (throw ''EVP_EncryptInit_ex failed'', e')
      | Some ciphertext \<Rightarrow> (Inr (iv @ ciphertext), e'))"

text \<open>The server does.\<close>

definition server_aes_encrypt ::
  "evp \<Rightarrow> string \<Rightarrow> byte list \<Rightarrow> entropy \<Rightarrow> byte list res \<times> entropy" where
  "server_aes_encrypt ev plaintext key e =
     (let ((ok, iv), e') = rand_bytes 16 e in
      if \<not> ok then (throw ''RAND_bytes failed'', e')
      else case evp_encrypt ev key iv (bytes_of plaintext) of
        None \<Rightarrow> (throw ''EVP_EncryptInit_ex failed'', e')
      | Some ciphertext \<Rightarrow> (Inr (iv @ ciphertext), e'))"

definition aes_decrypt :: "evp \<Rightarrow> byte list \<Rightarrow> byte list \<Rightarrow> string res" where
  "aes_decrypt ev input key =
     (if length input < 16 then throw ''Input too short''
      else case evp_decrypt ev key (take 16 input) (drop 16 input) of
        None \<Rightarrow> throw ''EVP_DecryptFinal_ex failed''
      | Some plaintext \<Rightarrow> Inr (string_of plaintext))"

definition server_aes_decrypt :: "evp \<Rightarrow> byte list \<Rightarrow> byte list \<Rightarrow> string res" where
  "server_aes_decrypt ev input key =
     (if length input < 16 then throw ''Input too short''
      else case evp_decrypt ev key (take 16 input) (drop 16 input) of
        None \<Rightarrow> throw ''EVP_DecryptFinal_ex failed - wrong key or corrupted data''
      | Some plaintext \<Rightarrow> Inr (string_of plaintext))"

lemma server_aes_decrypt_Inr: "server_aes_decrypt ev input key = Inr p \<longleftrightarrow> aes_decrypt ev input key = Inr p"
  by (simp add: server_aes_decrypt_def aes_decrypt_def throw_def split: option.split)

section \<open>Keys in hexadecimal files\<close>

text \<open>The loop \<open>for (i = 0; i < 32; ++i) key[i] = stoi(hex.substr(i * 2, 2), nullptr, 16)\<close>.\<close>

fun hex_loop :: "string \<Rightarrow> nat list \<Rightarrow> byte list res" where
  "hex_loop hex [] = Inr []"
| "hex_loop hex (i # is) =
     bind_res (substr hex (i * 2) 2) (\<lambda>s.
     bind_res (stoi 16 s) (\<lambda>v.
     bind_res (hex_loop hex is) (\<lambda>key. Inr (word_of_int v # key))))"

definition hex_to_key :: "string \<Rightarrow> byte list res" where
  "hex_to_key hex =
     (if length hex \<noteq> 64 then throw ''bad key length'' else hex_loop hex [0..<32])"

text \<open>\<open>std::getline\<close> into an empty string, then \<open>pop_back\<close> while it ends in CR or LF.\<close>

definition first_line :: "string \<Rightarrow> string" where
  "first_line s = takeWhile (\<lambda>c. c \<noteq> newline) s"

definition strip_eol :: "string \<Rightarrow> string" where
  "strip_eol s = rev (dropWhile (\<lambda>c. c = carriage_return \<or> c = newline) (rev s))"

definition load_key :: "filesys \<Rightarrow> string \<Rightarrow> byte list res" where
  "load_key fs u = (case fs_read fs (friend_file u ''AES'') of
     None \<Rightarrow> throw ''no key''
   | Some contents \<Rightarrow>
       let hex = strip_eol (first_line contents) in
       if hex = [] then throw ''empty AES key'' else hex_to_key hex)"

definition load_hex_key :: "filesys \<Rightarrow> path \<Rightarrow> byte list res" where
  "load_hex_key fs p = (case fs_read fs p of
     None \<Rightarrow> throw ''no key file''
   | Some contents \<Rightarrow>
       let hex = strip_eol (first_line contents) in
       if length hex \<noteq> 64 then throw ''bad hex key'' else hex_loop hex [0..<32])"

text \<open>The writer loop over \<open>snprintf("%02x")\<close>.\<close>

definition hex_string :: "byte list \<Rightarrow> string" where
  "hex_string key = concat (map hex_byte key)"

definition save_hex_key :: "filesys \<Rightarrow> path \<Rightarrow> byte list \<Rightarrow> filesys" where
  "save_hex_key fs p key = fs_write fs p (hex_string key)"

definition generate_AES :: "filesys \<Rightarrow> string \<Rightarrow> entropy \<Rightarrow> byte list \<times> filesys \<times> entropy" where
  "generate_AES fs u e =
     (let ((_, key), e') = rand_bytes 32 e
      in (key, fs_write fs (friend_file u ''AES'') (hex_string key), e'))"

definition user_key_file :: "string \<Rightarrow> path" where
  "user_key_file u = resolve (''./users/'' @ u @ ''/AES'')"

definition save_aes_key :: "filesys \<Rightarrow> string \<Rightarrow> byte list \<Rightarrow> unit res \<times> filesys" where
  "save_aes_key fs u key =
     (case create_directories fs (resolve (''./users/'' @ u)) of
        Inl e \<Rightarrow> (Inl e, fs)
      | Inr fs' \<Rightarrow>
          if \<not> can_write fs' (user_key_file u) then (throw ''cannot create AES key file'', fs')
          else (Inr (), fs_write fs' (user_key_file u) (hex_string key)))"

definition load_aes_key :: "filesys \<Rightarrow> string \<Rightarrow> byte list res" where
  "load_aes_key fs u = load_hex_key fs (user_key_file u)"

section \<open>X25519\<close>

definition ecc_file :: path where "ecc_file = resolve ''./user_settings/ECC''"
definition ecc_pub_file :: path where "ecc_pub_file = resolve ''./user_settings/ECC_PUB''"

text \<open>\<open>EVP_PKEY_keygen\<close>: a raw private key is any 32 random bytes.\<close>

definition keygen :: "entropy \<Rightarrow> byte list option \<times> entropy" where
  "keygen e = (let ((ok, k), e') = rand_bytes 32 e in (if ok then Some k else None, e'))"

definition generate_or_load_ecc_keys :: "evp \<Rightarrow> filesys \<Rightarrow> entropy \<Rightarrow> filesys res \<times> entropy" where
  "generate_or_load_ecc_keys ev fs e =
     (let ((priv :: (byte list \<times> filesys) res), e') =
        (if fs_exists fs ecc_file then
           (Inr (bytes_of (case fs_read fs ecc_file of None \<Rightarrow> [] | Some c \<Rightarrow> c), fs), e)
         else (case keygen e of
             (None, e1) \<Rightarrow> (throw ''EVP_PKEY_keygen failed'', e1)
           | (Some k, e1) \<Rightarrow> (Inr (k, fs_write fs ecc_file (string_of k)), e1)))
      in (bind_res priv (\<lambda>(k, fs1).
            case x25519_public ev k of
              None \<Rightarrow> throw ''cannot load or export the ECC key''
            | Some pub \<Rightarrow> Inr (fs_write fs1 ecc_pub_file (string_of pub))), e'))"

definition encrypt_ECC ::
  "evp \<Rightarrow> byte list \<Rightarrow> byte list \<Rightarrow> entropy \<Rightarrow> string res \<times> entropy" where
  "encrypt_ECC ev AES_key public_ecc_key e =
     (case keygen e of
        (None, e1) \<Rightarrow> (throw ''EVP_PKEY_keygen failed'', e1)
      | (Some ephemeral_key, e1) \<Rightarrow>
          (case x25519_public ev ephemeral_key of
             None \<Rightarrow> (throw ''EVP_PKEY_get_raw_public_key failed'', e1)
           | Some ephemeral_pub \<Rightarrow>
               (case x25519_derive ev ephemeral_key public_ecc_key of
                  None \<Rightarrow> (throw ''EVP_PKEY_derive failed'', e1)
                | Some shared_secret \<Rightarrow>
                    let wrap_key = sha256 ev shared_secret;
                        (encrypted_aes, e2) = aes_encrypt ev (string_of AES_key) wrap_key e1
                    in (bind_res encrypted_aes
                          (\<lambda>c. Inr (string_of ephemeral_pub @ string_of c)), e2))))"

definition server_encrypt_ECC ::
  "evp \<Rightarrow> byte list \<Rightarrow> byte list \<Rightarrow> entropy \<Rightarrow> string res \<times> entropy" where
  "server_encrypt_ECC ev AES_key public_ecc_key e =
     (case keygen e of
        (None, e1) \<Rightarrow> (throw ''EVP_PKEY_keygen failed'', e1)
      | (Some ephemeral_key, e1) \<Rightarrow>
          (case x25519_public ev ephemeral_key of
             None \<Rightarrow> (throw ''EVP_PKEY_get_raw_public_key failed'', e1)
           | Some ephemeral_pub \<Rightarrow>
               (case x25519_derive ev ephemeral_key public_ecc_key of
                  None \<Rightarrow> (throw ''EVP_PKEY_derive failed'', e1)
                | Some shared_secret \<Rightarrow>
                    let wrap_key = sha256 ev shared_secret;
                        (encrypted_aes, e2) = server_aes_encrypt ev (string_of AES_key) wrap_key e1
                    in (bind_res encrypted_aes
                          (\<lambda>c. Inr (string_of ephemeral_pub @ string_of c)), e2))))"

definition decrypt_ECC :: "evp \<Rightarrow> filesys \<Rightarrow> string \<Rightarrow> byte list res" where
  "decrypt_ECC ev fs encrypted_payload =
     (if length encrypted_payload < 32 + 16 + 1 then throw ''decrypt_ECC: payload too short''
      else case fs_read fs ecc_file of
        None \<Rightarrow> throw ''decrypt_ECC: no private ECC key''
      | Some priv \<Rightarrow>
          if length priv \<noteq> 32 then throw ''decrypt_ECC: bad private key size''
          else case x25519_derive ev (bytes_of priv) (bytes_of (take 32 encrypted_payload)) of
            None \<Rightarrow> throw ''decrypt_ECC: EVP_PKEY_derive failed''
          | Some shared_secret \<Rightarrow>
              let wrap_key = sha256 ev shared_secret in
              bind_res (aes_decrypt ev (bytes_of (drop 32 encrypted_payload)) wrap_key) (\<lambda>d.
              if length d \<noteq> 32 then throw ''decrypt_ECC: bad key size'' else Inr (bytes_of d)))"

section \<open>Server identifiers\<close>

definition uuid_format :: "byte list \<Rightarrow> string" where
  "uuid_format b =
     hex_string (take 4 b) @ ''-'' @ hex_string (take 2 (drop 4 b)) @ ''-''
     @ hex_string (take 2 (drop 6 b)) @ ''-'' @ hex_string (take 2 (drop 8 b)) @ ''-''
     @ hex_string (drop 10 b)"

definition generate_uuid :: "entropy \<Rightarrow> string res \<times> entropy" where
  "generate_uuid e =
     (let ((ok, bytes), e') = rand_bytes 16 e in
      if \<not> ok then (throw ''RAND_bytes failed during UUID generation'', e')
      else (Inr (uuid_format (bytes[6 := (bytes ! 6 AND 0x0F) OR 0x40,
                                    8 := (bytes ! 8 AND 0x3F) OR 0x80])), e'))"

section \<open>Lemmas: hexadecimal keys\<close>

lemma unat_byte_less: "unat (b :: byte) < 256"
  using unsigned_less [of b, where ?'a = nat] by simp

lemma length_hex_byte [simp]: "length (hex_byte b) = 2"
  by (simp add: hex_byte_def)

lemma hex_string_simps [simp]:
  "hex_string [] = []" "hex_string (b # bs) = hex_byte b @ hex_string bs"
  by (simp_all add: hex_string_def)

lemma length_hex_string [simp]: "length (hex_string key) = 2 * length key"
  by (induction key) simp_all

definition is_hex_char :: "char \<Rightarrow> bool" where
  "is_hex_char c \<longleftrightarrow>
     (let n = (of_char c :: nat) in (48 \<le> n \<and> n \<le> 57) \<or> (97 \<le> n \<and> n \<le> 102))"

lemma is_hex_char_hex_digit: "d < 16 \<Longrightarrow> is_hex_char (hex_digit d)"
  by (auto simp: is_hex_char_def hex_digit_def)

lemma is_hex_char_hex_byte: "list_all is_hex_char (hex_byte b)"
proof -
  have "unat b div 16 < 16" "unat b mod 16 < 16" using unat_byte_less [of b] by simp_all
  then show ?thesis by (simp add: hex_byte_def is_hex_char_hex_digit)
qed

lemma is_hex_char_hex_string: "list_all is_hex_char (hex_string key)"
  by (induction key) (simp_all add: is_hex_char_hex_byte)

lemma hex_char_plain:
  "is_hex_char c \<Longrightarrow> c \<noteq> newline \<and> c \<noteq> carriage_return \<and> \<not> is_sep c \<and> c \<noteq> CHR ''.''"
  by (auto simp: is_hex_char_def is_sep_def)

lemma first_line_hex: "list_all is_hex_char s \<Longrightarrow> first_line s = s"
  by (auto simp: first_line_def takeWhile_eq_all_conv list_all_iff dest: hex_char_plain)

lemma strip_eol_hex: "list_all is_hex_char s \<Longrightarrow> strip_eol s = s"
  by (cases s rule: rev_cases) (auto simp: strip_eol_def dest: hex_char_plain)

lemma hex_string_append: "hex_string (a @ b) = hex_string a @ hex_string b"
  by (simp add: hex_string_def)

lemma hex_string_substr: "i < length key \<Longrightarrow> substr (hex_string key) (i * 2) 2 = Inr (hex_byte (key ! i))"
proof -
  assume i: "i < length key"
  have "hex_string key = hex_string (take i key) @ hex_byte (key ! i) @ hex_string (drop (Suc i) key)"
    using id_take_nth_drop [OF i] by (metis hex_string_append hex_string_simps(2))
  moreover have "length (hex_string (take i key)) = i * 2" using i by simp
  ultimately show ?thesis using i by (simp add: substr_def)
qed

lemma hex_loop_hex_string:
  "\<forall>i \<in> set is. i < length key \<Longrightarrow> hex_loop (hex_string key) is = Inr (map (\<lambda>i. key ! i) is)"
  by (induction "is") (simp_all add: hex_string_substr stoi_hex_byte)

lemma hex_loop_round: "length key = 32 \<Longrightarrow> hex_loop (hex_string key) [0..<32] = Inr key"
  using hex_loop_hex_string [of "[0..<32]" key] map_nth [of key] by simp

definition key_of_hex :: "string \<Rightarrow> byte list" where
  "key_of_hex s = (case hex_to_key s of Inl _ \<Rightarrow> [] | Inr k \<Rightarrow> k)"

interpretation hexkey: fixed_codec hex_string key_of_hex 64 "\<lambda>k. length k = 32"
  by unfold_locales (simp_all add: key_of_hex_def hex_to_key_def hex_loop_round)

lemma load_key_of_hex:
  "length key = 32 \<Longrightarrow> fs_read fs (friend_file u ''AES'') = Some (hex_string key) \<Longrightarrow>
     load_key fs u = Inr key"
proof -
  assume k: "length key = 32" and rd: "fs_read fs (friend_file u ''AES'') = Some (hex_string key)"
  have "strip_eol (first_line (hex_string key)) = hex_string key"
    by (simp add: first_line_hex strip_eol_hex is_hex_char_hex_string)
  moreover have "length (hex_string key) = 64" using k by simp
  then have "hex_string key \<noteq> []" by (metis list.size(3) zero_neq_numeral)
  ultimately show ?thesis using k rd by (simp add: load_key_def hex_to_key_def hex_loop_round)
qed

lemma load_hex_key_of_hex:
  "length key = 32 \<Longrightarrow> fs_read fs p = Some (hex_string key) \<Longrightarrow> load_hex_key fs p = Inr key"
  by (simp add: load_hex_key_def first_line_hex strip_eol_hex is_hex_char_hex_string hex_loop_round)

section \<open>Lemmas: encryption\<close>

lemma entropy_okD:
  "entropy_ok e \<Longrightarrow> rand_bytes n e = (r, e') \<Longrightarrow> fst r \<and> length (snd r) = n \<and> entropy_ok e'"
  unfolding entropy_ok_def rand_bytes_def by (auto intro: stl_sset shd_sset)

lemma evp_encryptE:
  assumes "evp_laws ev" "length k = 32" "length iv = 16"
  obtains c where "evp_encrypt ev k iv p = Some c" "length c = 16 * (length p div 16 + 1)"
    "evp_decrypt ev k iv c = Some p"
  using assms unfolding evp_laws_def by blast

text \<open>Under the laws the encryption succeeds, the size is known, and the key reads it back.\<close>

lemma aes_encryptE:
  assumes "evp_laws ev" "entropy_ok e" "length key = 32"
  obtains c e' where "aes_encrypt ev p key e = (Inr c, e')"
    "server_aes_encrypt ev p key e = (Inr c, e')"
    "length c = 16 + 16 * (length p div 16 + 1)"
    "aes_decrypt ev c key = Inr p" "entropy_ok e'"
proof -
  obtain ok iv e' where r: "rand_bytes 16 e = ((ok, iv), e')" by (metis prod.exhaust)
  have iv: "ok" "length iv = 16" "entropy_ok e'" using entropy_okD [OF assms(2) r] by auto
  obtain c where c: "evp_encrypt ev key iv (bytes_of p) = Some c"
    "length c = 16 * (length (bytes_of p) div 16 + 1)" "evp_decrypt ev key iv c = Some (bytes_of p)"
    using evp_encryptE [OF assms(1,3) iv(2)] by blast
  have "aes_decrypt ev (iv @ c) key = Inr p"
    using iv c by (simp add: aes_decrypt_def)
  then show thesis
    using that [of "iv @ c" e'] r iv c by (simp add: aes_encrypt_def server_aes_encrypt_def)
qed

lemma keygenE:
  assumes "evp_laws ev" "entropy_ok e"
  obtains k pub e' where "keygen e = (Some k, e')" "length k = 32" "entropy_ok e'"
    "x25519_public ev k = Some pub" "length pub = 32"
proof -
  obtain ok k e' where r: "rand_bytes 32 e = ((ok, k), e')" by (metis prod.exhaust)
  have k: "ok" "length k = 32" "entropy_ok e'" using entropy_okD [OF assms(2) r] by auto
  obtain pub where "x25519_public ev k = Some pub" "length pub = 32"
    using assms(1) k(2) unfolding evp_laws_def by blast
  then show thesis using that r k by (simp add: keygen_def)
qed

lemma evp_dh:
  assumes "evp_laws ev" "length a = 32" "length b = 32"
    and "x25519_public ev a = Some pa" "x25519_public ev b = Some pb"
  obtains s where "x25519_derive ev a pb = Some s" "x25519_derive ev b pa = Some s"
proof -
  from assms(1) have "\<forall>a b pa pb. length a = 32 \<longrightarrow> length b = 32 \<longrightarrow>
      x25519_public ev a = Some pa \<longrightarrow> x25519_public ev b = Some pb \<longrightarrow>
      (\<exists>s. x25519_derive ev a pb = Some s \<and> x25519_derive ev b pa = Some s)"
    unfolding evp_laws_def by (elim conjE)
  then have "\<exists>s. x25519_derive ev a pb = Some s \<and> x25519_derive ev b pa = Some s"
    using assms(2-5) by simp
  then show thesis using that by blast
qed

text \<open>Both wrappers produce the same 96 bytes, which the private key's machine opens.\<close>

lemma wrap_unwrap:
  assumes "evp_laws ev" "entropy_ok e" "length key = 32" "length priv = 32"
    and "x25519_public ev priv = Some pub" "fs_read fs ecc_file = Some (string_of priv)"
  obtains m e' where "encrypt_ECC ev key pub e = (Inr m, e')"
    "server_encrypt_ECC ev key pub e = (Inr m, e')" "length m = 96"
    "decrypt_ECC ev fs m = Inr key" "entropy_ok e'"
proof -
  obtain k kpub e1 where kg: "keygen e = (Some k, e1)" "length k = 32" "entropy_ok e1"
    "x25519_public ev k = Some kpub" "length kpub = 32"
    using keygenE [OF assms(1,2)] by blast
  obtain sec where sec: "x25519_derive ev k pub = Some sec" "x25519_derive ev priv kpub = Some sec"
    using evp_dh [OF assms(1) kg(2) assms(4) kg(4) assms(5)] by blast
  have wk: "length (sha256 ev sec) = 32" using assms(1) by (simp add: evp_laws_def)
  obtain c e2 where c: "aes_encrypt ev (string_of key) (sha256 ev sec) e1 = (Inr c, e2)"
    "server_aes_encrypt ev (string_of key) (sha256 ev sec) e1 = (Inr c, e2)"
    "length c = 16 + 16 * (length (string_of key) div 16 + 1)"
    "aes_decrypt ev c (sha256 ev sec) = Inr (string_of key)" "entropy_ok e2"
    using aes_encryptE [OF assms(1) kg(3) wk] by blast
  let ?m = "string_of kpub @ string_of c"
  have "encrypt_ECC ev key pub e = (Inr ?m, e2)" "server_encrypt_ECC ev key pub e = (Inr ?m, e2)"
    using kg sec c by (simp_all add: encrypt_ECC_def server_encrypt_ECC_def Let_def)
  moreover have "decrypt_ECC ev fs ?m = Inr key"
    using kg sec c assms(3,4,6) by (simp add: decrypt_ECC_def Let_def)
  ultimately show thesis using that [of ?m e2] kg c assms(3) by simp
qed

lemma hex_loop_length: "hex_loop hex is = Inr k \<Longrightarrow> length k = length is"
  by (induction "is" arbitrary: k) (auto simp: bind_res_Inr_iff)

lemma load_key_length: "load_key fs u = Inr key \<Longrightarrow> length key = 32"
  by (auto simp: load_key_def hex_to_key_def Let_def dest: hex_loop_length
      split: option.splits if_splits)

lemma load_hex_key_length: "load_hex_key fs p = Inr key \<Longrightarrow> length key = 32"
  by (auto simp: load_hex_key_def Let_def dest: hex_loop_length split: option.splits if_splits)

lemma encrypt_ECC_length:
  assumes "evp_laws ev" "entropy_ok e" "length key = 32" "encrypt_ECC ev key pub e = (Inr m, e')"
  shows "length m = 96"
proof -
  obtain k kpub e1 where kg: "keygen e = (Some k, e1)" "length k = 32" "entropy_ok e1"
    "x25519_public ev k = Some kpub" "length kpub = 32"
    using keygenE [OF assms(1,2)] by blast
  then obtain sec where sec: "x25519_derive ev k pub = Some sec"
    using assms(4) by (auto simp: encrypt_ECC_def split: option.splits)
  have wk: "length (sha256 ev sec) = 32" using assms(1) by (simp add: evp_laws_def)
  obtain c e2 where "aes_encrypt ev (string_of key) (sha256 ev sec) e1 = (Inr c, e2)"
    "length c = 16 + 16 * (length (string_of key) div 16 + 1)"
    using aes_encryptE [OF assms(1) kg(3) wk] by metis
  then show ?thesis using assms(3,4) kg sec by (auto simp: encrypt_ECC_def Let_def)
qed

section \<open>Lemmas: no undefined behaviour\<close>

text \<open>A loader never runs into undefined behaviour: it returns or throws.\<close>

lemma substr_not_ub: "\<not> is_ub (substr s p n)"
  by (simp add: substr_def)

lemma stoi_not_ub: "\<not> is_ub (stoi b s)"
  by (simp add: stoi_def split: option.split)

lemma is_ub_bind: "is_ub (bind_res r f) \<longleftrightarrow> is_ub r \<or> (\<exists>x. r = Inr x \<and> is_ub (f x))"
  by (cases r) (auto simp: is_ub_def)

lemma hex_loop_not_ub: "\<not> is_ub (hex_loop hex is)"
  by (induction "is") (auto simp: is_ub_bind substr_not_ub stoi_not_ub)

lemma load_key_not_ub: "\<not> is_ub (load_key fs u)"
  by (auto simp: load_key_def hex_to_key_def Let_def hex_loop_not_ub split: option.split)

lemma aes_decrypt_not_ub: "\<not> is_ub (aes_decrypt ev c k)"
  by (simp add: aes_decrypt_def split: option.split)

lemma server_aes_decrypt_not_ub: "\<not> is_ub (server_aes_decrypt ev c k)"
  by (simp add: server_aes_decrypt_def split: option.split)

lemma aes_encrypt_not_ub: "\<not> is_ub (fst (aes_encrypt ev p k e))"
  by (simp add: aes_encrypt_def split: option.split prod.split)

lemma decrypt_ECC_not_ub: "\<not> is_ub (decrypt_ECC ev fs p)"
  by (auto simp: decrypt_ECC_def Let_def is_ub_bind aes_decrypt_not_ub split: option.split)

lemma encrypt_ECC_not_ub: "\<not> is_ub (fst (encrypt_ECC ev k pk e))"
  using aes_encrypt_not_ub [of ev]
  by (simp add: encrypt_ECC_def Let_def is_ub_bind split: option.split prod.split)
    (metis fst_conv)

lemma load_hex_key_not_ub: "\<not> is_ub (load_hex_key fs p)"
  by (auto simp: load_hex_key_def Let_def hex_loop_not_ub split: option.split)

lemma create_directories_not_ub: "\<not> is_ub (create_directories fs p)"
proof -
  have "\<not> is_ub (mkdirs fs ps)" for ps
    by (induction ps arbitrary: fs) simp_all
  then show ?thesis by (simp add: create_directories_def)
qed

lemma is_ub_Inl: "is_ub (Inl e) \<longleftrightarrow> (\<exists>what. e = UB what)"
  by (cases e) simp_all

section \<open>Lemmas: identifiers\<close>

lemma uuid_format_chars: "list_all (\<lambda>c. is_hex_char c \<or> c = CHR ''-'') (uuid_format b)"
  by (auto simp: uuid_format_def list_all_iff
      dest: is_hex_char_hex_string [unfolded list_all_iff, rule_format])

lemma length_uuid_format: "length b = 16 \<Longrightarrow> length (uuid_format b) = 36"
  by (simp add: uuid_format_def)

lemma hex_dash_plain:
  assumes "list_all (\<lambda>c. is_hex_char c \<or> c = CHR ''-'') s" "s \<noteq> []"
  shows "plain_name s"
proof -
  have "\<not> is_sep c \<and> c \<noteq> CHR ''.''" if "c \<in> set s" for c
    using assms(1) that hex_char_plain [of c] by (auto simp: list_all_iff is_sep_def)
  then show ?thesis using assms(2) by (auto simp: plain_name_def list_all_iff)
qed

lemma uuid_format_plain: "length b = 16 \<Longrightarrow> plain_name (uuid_format b)"
proof (rule hex_dash_plain [OF uuid_format_chars])
  assume "length b = 16"
  then have "length (uuid_format b) = 36" by (rule length_uuid_format)
  then show "uuid_format b \<noteq> []" by (metis list.size(3) zero_neq_numeral)
qed

lemma version_byte: "hd (hex_byte ((b AND 0x0F) OR 0x40)) = CHR ''4''"
proof -
  let ?x = "(b AND 0x0F) OR 0x40"
  have "drop_bit 4 ?x = 4" by (simp add: drop_bit_or drop_bit_and)
  then have "drop_bit 4 (unat ?x) = 4" using unat_drop_bit_eq [of 4 ?x] by simp
  then have "unat ?x div 16 = 4" by (simp add: drop_bit_eq_div)
  moreover have "hex_digit 4 = CHR ''4''" by code_simp
  ultimately show ?thesis by (simp add: hex_byte_def)
qed

lemma variant_byte: "hd (hex_byte ((b AND 0x3F) OR 0x80)) \<in> set ''89ab''"
proof -
  let ?x = "(b AND 0x3F) OR 0x80"
  have "drop_bit 6 ?x = 2" by (simp add: drop_bit_or drop_bit_and)
  then have "drop_bit 6 (unat ?x) = 2" using unat_drop_bit_eq [of 6 ?x] by simp
  then have "unat ?x div 64 = 2" by (simp add: drop_bit_eq_div)
  then have "unat ?x div 16 \<in> {8, 9, 10, 11}" by auto
  moreover have "hex_digit 8 = CHR ''8''" "hex_digit 9 = CHR ''9''" "hex_digit 10 = CHR ''a''"
      "hex_digit 11 = CHR ''b''" by code_simp+
  ultimately show ?thesis by (auto simp: hex_byte_def)
qed

section \<open>A concrete provider\<close>

text \<open>
  A provider that keeps the laws, for the witnesses: padding to whole blocks without secrecy, and
  a commutative shared secret.
\<close>

definition pad_block :: "byte list \<Rightarrow> byte list" where
  "pad_block p = p @ replicate (16 - length p mod 16) (word_of_nat (16 - length p mod 16))"

definition unpad_block :: "byte list \<Rightarrow> byte list option" where
  "unpad_block c =
     (if c = [] then None else
        let n = unat (last c) in
        if n = 0 \<or> 16 < n \<or> length c < n then None else Some (take (length c - n) c))"

definition plain_evp :: evp where
  "plain_evp = \<lparr>evp_encrypt = (\<lambda>k iv p. Some (pad_block p)),
     evp_decrypt = (\<lambda>k iv c. unpad_block c),
     x25519_public = (\<lambda>k. if length k = 32 then Some k else None),
     x25519_derive = (\<lambda>a b. Some (map2 (XOR) a b)),
     sha256 = (\<lambda>s. take 32 (s @ replicate 32 0))\<rparr>"

definition plain_entropy :: entropy where
  "plain_entropy = sconst (\<lambda>n. (True, replicate n 0))"

lemma unpad_pad: "unpad_block (pad_block p) = Some p"
proof -
  define n where "n = 16 - length p mod 16"
  have n: "0 < n" "n \<le> 16" by (simp_all add: n_def)
  have pad: "pad_block p = p @ replicate n (word_of_nat n)" by (simp add: pad_block_def n_def)
  have "unat (word_of_nat n :: byte) = n" using n by (simp add: unat_of_nat)
  moreover have "last (pad_block p) = word_of_nat n" using n by (simp add: pad last_append)
  ultimately show ?thesis using n by (simp add: unpad_block_def pad)
qed

lemma length_pad_block: "length (pad_block p) = 16 * (length p div 16 + 1)"
proof -
  have "n + (16 - n mod 16) = 16 * (n div 16 + 1)" for n :: nat by presburger
  then show ?thesis by (simp add: pad_block_def)
qed

lemma plain_evp_laws: "evp_laws plain_evp"
proof -
  have "map2 (XOR) a b = map2 (XOR) b a" for a b :: "byte list"
    by (rule nth_equalityI) (simp_all add: xor.commute min.commute)
  then show ?thesis
    by (auto simp: evp_laws_def plain_evp_def unpad_pad length_pad_block split: if_splits)
qed

lemma plain_entropy_ok: "entropy_ok plain_entropy"
  by (simp add: entropy_ok_def plain_entropy_def)

lemma generate_uuid_facts:
  assumes "entropy_ok e" "generate_uuid e = (r, e')"
  shows "\<exists>u. r = Inr u \<and> length u = 36 \<and> u ! 14 = CHR ''4'' \<and> u ! 19 \<in> set ''89ab''
    \<and> plain_name u \<and> user_key_file u = [''users'', u, ''AES'']"
proof -
  obtain ok b where rb: "rand_bytes 16 e = ((ok, b), e')"
    using assms(2) by (cases "rand_bytes 16 e") (auto simp: generate_uuid_def split: if_splits)
  have b: "ok" "length b = 16" using entropy_okD [OF assms(1) rb] by simp_all
  let ?b = "b[6 := (b ! 6 AND 0x0F) OR 0x40, 8 := (b ! 8 AND 0x3F) OR 0x80]"
  let ?u = "uuid_format ?b"
  have r: "r = Inr ?u" using assms(2) rb b by (simp add: generate_uuid_def)
  have plain: "plain_name ?u" using b uuid_format_plain [of ?b] by simp
  have "?b ! 6 = (b ! 6 AND 0x0F) OR 0x40" "?b ! 8 = (b ! 8 AND 0x3F) OR 0x80" using b by simp_all
  moreover have "take 2 (drop 6 ?b) = [?b ! 6, ?b ! 7]" "take 2 (drop 8 ?b) = [?b ! 8, ?b ! 9]"
    using b by (simp_all add: take_Suc_conv_app_nth numeral_2_eq_2)
  ultimately have "?u ! 14 = hd (hex_byte ((b ! 6 AND 0x0F) OR 0x40))"
    "?u ! 19 = hd (hex_byte ((b ! 8 AND 0x3F) OR 0x80))"
    using b by (simp_all add: uuid_format_def nth_append hex_byte_def)
  then have "?u ! 14 = CHR ''4''" "?u ! 19 \<in> set ''89ab''"
    using version_byte variant_byte by simp_all
  moreover have "user_key_file ?u = [''users'', ?u, ''AES'']"
    using plain by (simp add: user_key_file_def resolve_def plain_name_def split_path_plain
        resolve_step_def is_sep_def)
  ultimately show ?thesis using r plain length_uuid_format [of ?b] b by simp
qed

section \<open>Properties\<close>

text \<open>
  A 32-byte key written as hexadecimal text is read back unchanged, whenever its file can be
  written; both loaders of the client agree on it.
\<close>

lemma key_file_roundtrip:
  assumes "length key = 32" "can_write fs (friend_file u ''AES'')"
  shows "load_hex_key (save_hex_key fs (friend_file u ''AES'') key) (friend_file u ''AES'') = Inr key
    \<and> load_key (save_hex_key fs (friend_file u ''AES'') key) u = Inr key"
  using assms load_hex_key_of_hex [OF assms(1)] load_key_of_hex [OF assms(1)]
  by (simp add: save_hex_key_def fs_read_simps)

lemma key_file_roundtrip_witness:
  "load_key (save_hex_key \<lparr>fs_files = [], fs_dirs = [[''friends''], [''friends'', ''f'']]\<rparr>
     (friend_file ''f'' ''AES'') (replicate 32 7)) ''f'' = Inr (replicate 32 7)"
  by (rule key_file_roundtrip [THEN conjunct2])
    (simp_all add: friend_file_plain plain_name_def is_sep_def can_write_def is_directory_def)

text \<open>
  Key exchange. A session key wrapped for a public key, by the client's or the server's
  routine, is 96 bytes long and is recovered by \<open>decrypt_ECC\<close> on the machine whose file
  \<open>user_settings/ECC\<close> holds the private key.
\<close>

lemma key_exchange:
  assumes "evp_laws ev" "entropy_ok e" "length key = 32" "length priv = 32"
    and "x25519_public ev priv = Some pub" "fs_read fs ecc_file = Some (string_of priv)"
  shows "\<exists>m e'. encrypt_ECC ev key pub e = (Inr m, e') \<and> server_encrypt_ECC ev key pub e = (Inr m, e')
    \<and> length m = 96 \<and> decrypt_ECC ev fs m = Inr key"
  using wrap_unwrap [OF assms] by metis

lemma key_exchange_witness:
  "\<exists>m e'. encrypt_ECC plain_evp (replicate 32 5) (replicate 32 9) plain_entropy = (Inr m, e')
     \<and> server_encrypt_ECC plain_evp (replicate 32 5) (replicate 32 9) plain_entropy = (Inr m, e')
     \<and> length m = 96
     \<and> decrypt_ECC plain_evp \<lparr>fs_files = [(ecc_file, string_of (replicate 32 9))],
          fs_dirs = [[''user_settings'']]\<rparr> m = Inr (replicate 32 5)"
  by (rule key_exchange [OF plain_evp_laws plain_entropy_ok, where priv = "replicate 32 9"])
    (simp_all add: plain_evp_def fs_read_def is_directory_def ecc_file_def resolve_def
      resolve_step_def is_sep_def)

text \<open>
  An identifier drawn by the server has 36 characters, is a version 4 UUID (its fifteenth
  character is \<open>4\<close>, its twentieth one of \<open>8\<close>, \<open>9\<close>, \<open>a\<close>, \<open>b\<close>) and is a single path component,
  so the key file it names lies directly in a directory below \<open>users\<close>.
\<close>

lemma generate_uuid_v4:
  assumes "entropy_ok e" "generate_uuid e = (r, e')"
  shows "\<exists>u. r = Inr u \<and> length u = 36 \<and> u ! 14 = CHR ''4'' \<and> u ! 19 \<in> set ''89ab''
    \<and> plain_name u \<and> user_key_file u = [''users'', u, ''AES'']"
  using assms by (rule generate_uuid_facts)

lemma generate_uuid_v4_witness:
  "\<exists>u. fst (generate_uuid plain_entropy) = Inr u \<and> length u = 36 \<and> u ! 14 = CHR ''4''
     \<and> u ! 19 \<in> set ''89ab'' \<and> plain_name u \<and> user_key_file u = [''users'', u, ''AES'']"
  by (rule generate_uuid_v4 [OF plain_entropy_ok prod.collapse [symmetric]])

end
