(* ===== verification/History.thy ===== *)
theory History
  imports FileSys CppNumber
begin

text \<open>
  The message history: \<open>save_message\<close> appends a record to \<open>friends/<uuid>/messages.txt\<close>,
  \<open>make_json_messages\<close> reads the file back and renders it for the browser
  (\<open>app_final/client/main.cpp\<close>). The abstract history is a list of entries; appending refines
  adding an entry at its end as long as the text holds no line break, and a text with line breaks
  can forge entries.
\<close>

section \<open>Lines\<close>

text \<open>Repeated \<open>std::getline\<close> until the end of the file.\<close>

function lines_of :: "string \<Rightarrow> string list" where
  "lines_of s =
     (if s = [] then []
      else let line = takeWhile (\<lambda>c. c \<noteq> newline) s
           in line # lines_of (drop (Suc (length line)) s))"
  by pat_completeness auto
termination
  by (relation "measure length") auto

declare lines_of.simps [simp del]

lemma lines_of_Nil [simp]: "lines_of [] = []"
  by (simp add: lines_of.simps)

lemma lines_of_Cons: "newline \<notin> set l \<Longrightarrow> lines_of (l @ newline # s) = l # lines_of s"
proof -
  assume "newline \<notin> set l"
  then have "takeWhile (\<lambda>c. c \<noteq> newline) (l @ newline # s) = l"
    by (subst takeWhile_append2) auto
  then show ?thesis by (subst lines_of.simps) (simp add: Let_def)
qed

text \<open>\<open>line.rfind(key, 0) == 0\<close> followed by \<open>line.substr(key.size())\<close>.\<close>

definition field_of :: "string \<Rightarrow> string \<Rightarrow> string option" where
  "field_of key line = (if starts_with key line then Some (drop (length key) line) else None)"

section \<open>Writing\<close>

definition messages_file :: "string \<Rightarrow> path" where
  "messages_file u = friend_file u ''messages.txt''"

definition history_record :: "string \<Rightarrow> string \<Rightarrow> string \<Rightarrow> string \<Rightarrow> string" where
  "history_record who message date time_str =
     newline # CHR ''$'' # who @ newline #
     ''message:'' @ message @ newline #
     ''date:'' @ date @ newline #
     ''time:'' @ time_str @ newline #
     ''$end'' @ [newline]"

definition save_message ::
  "filesys \<Rightarrow> string \<Rightarrow> string \<Rightarrow> string \<Rightarrow> string \<Rightarrow> string \<Rightarrow> filesys" where
  "save_message fs requested_uuid message who date time_str =
     fs_append fs (resolve (''friends/'' @ requested_uuid @ ''/messages.txt''))
       (history_record who message date time_str)"

section \<open>Reading\<close>

record entry =
  en_sender :: string
  en_message :: string
  en_date :: string
  en_time :: string

text \<open>The inner loop, up to the line \<open>$end\<close> or the end of the file.\<close>

fun read_entry :: "entry \<Rightarrow> string list \<Rightarrow> entry \<times> string list" where
  "read_entry e [] = (e, [])"
| "read_entry e (line # lines) =
     (if line = ''$end'' then (e, lines)
      else read_entry
        (case field_of ''message:'' line of Some m \<Rightarrow> e\<lparr>en_message := m\<rparr>
         | None \<Rightarrow> (case field_of ''date:'' line of Some d \<Rightarrow> e\<lparr>en_date := d\<rparr>
           | None \<Rightarrow> (case field_of ''time:'' line of Some t \<Rightarrow> e\<lparr>en_time := t\<rparr>
             | None \<Rightarrow> e))) lines)"

lemma read_entry_rest: "read_entry e ls = (e', rest) \<Longrightarrow> length rest \<le> length ls"
  by (induction ls arbitrary: e) (auto simp: le_SucI split: if_splits)

definition new_entry :: "string \<Rightarrow> entry" where
  "new_entry sender = \<lparr>en_sender = sender, en_message = [], en_date = [], en_time = []\<rparr>"

function read_history :: "string \<Rightarrow> string list \<Rightarrow> entry list" where
  "read_history req_uuid [] = []"
| "read_history req_uuid (line # lines) =
     (if line = ''$friend'' \<or> line = ''$you'' then
        (let (e, rest) = read_entry (new_entry (if line = ''$friend'' then req_uuid else ''you'')) lines
         in e # read_history req_uuid rest)
      else read_history req_uuid lines)"
  by pat_completeness auto
termination
  by (relation "measure (\<lambda>(_, ls). length ls)")
    (auto simp: less_Suc_eq_le dest: read_entry_rest [OF sym])

text \<open>The JSON document for the browser; only the message text is escaped.\<close>

definition json_entry :: "entry \<Rightarrow> string" where
  "json_entry e =
     ''{'' @ [quote] @ ''sender'' @ [quote] @ '':'' @ [quote] @ en_sender e @ [quote] @ '',''
     @ [quote] @ ''message'' @ [quote] @ '':'' @ [quote] @ json_escape (en_message e) @ [quote] @ '',''
     @ [quote] @ ''date'' @ [quote] @ '':'' @ [quote] @ en_date e @ [quote] @ '',''
     @ [quote] @ ''time'' @ [quote] @ '':'' @ [quote] @ en_time e @ [quote] @ ''}''"

fun comma_separated :: "string list \<Rightarrow> string" where
  "comma_separated [] = []"
| "comma_separated [x] = x"
| "comma_separated (x # y # xs) = x @ '','' @ comma_separated (y # xs)"

definition history_entries :: "filesys \<Rightarrow> string \<Rightarrow> entry list" where
  "history_entries fs u = (case fs_read fs (messages_file u) of
     None \<Rightarrow> [] | Some contents \<Rightarrow> read_history u (lines_of contents))"

definition make_json_messages :: "filesys \<Rightarrow> string \<Rightarrow> string" where
  "make_json_messages fs req_uuid = ''['' @ comma_separated (map json_entry (history_entries fs req_uuid)) @ '']''"

section \<open>Lemmas\<close>

text \<open>\<open>friends/...\<close> and \<open>./friends/...\<close> name the same file.\<close>

lemma save_message_path: "resolve (''friends/'' @ u @ ''/messages.txt'') = messages_file u"
proof -
  have s: "split_path [] (''friends/'' @ x) = ''friends'' # split_path [] x" for x
    by (simp add: is_sep_def)
  have t: "split_path [] (''./friends/'' @ x) = ''.'' # ''friends'' # split_path [] x" for x
    by (simp add: is_sep_def)
  show ?thesis
    unfolding messages_file_def friend_file_def resolve_def s
    by (simp only: append_assoc append.simps t [simplified append.simps] foldl.simps)
      (simp add: resolve_step_def t [simplified])
qed

lemma save_message_alt:
  "save_message fs u m who d t = fs_append fs (messages_file u) (history_record who m d t)"
  by (simp only: save_message_def save_message_path)

definition one_line :: "string \<Rightarrow> bool" where
  "one_line s \<longleftrightarrow> newline \<notin> set s"

definition entry_for :: "string \<Rightarrow> string \<Rightarrow> string \<Rightarrow> string \<Rightarrow> string \<Rightarrow> entry" where
  "entry_for u who m d t = \<lparr>en_sender = (if who = ''friend'' then u else ''you''),
     en_message = m, en_date = d, en_time = t\<rparr>"

lemma lines_of_record:
  assumes "who = ''you'' \<or> who = ''friend''" "one_line m" "one_line d" "one_line t"
  shows "lines_of (history_record who m d t @ rest) =
     [[], CHR ''$'' # who, ''message:'' @ m, ''date:'' @ d, ''time:'' @ t, ''$end''] @ lines_of rest"
proof -
  have "lines_of ([] @ newline # (CHR ''$'' # who) @ newline # (''message:'' @ m) @ newline #
      (''date:'' @ d) @ newline # (''time:'' @ t) @ newline # ''$end'' @ newline # rest)
    = [[], CHR ''$'' # who, ''message:'' @ m, ''date:'' @ d, ''time:'' @ t, ''$end''] @ lines_of rest"
    using assms unfolding one_line_def by (subst lines_of_Cons, force)+ simp
  then show ?thesis by (simp add: history_record_def)
qed

lemma read_history_record:
  assumes "who = ''you'' \<or> who = ''friend''"
  shows "read_history u ([[], CHR ''$'' # who, ''message:'' @ m, ''date:'' @ d, ''time:'' @ t, ''$end''] @ ls)
     = entry_for u who m d t # read_history u ls"
  using assms by (auto simp: field_of_def starts_with_def new_entry_def entry_for_def)

text \<open>A file made of whole records, one per entry.\<close>

definition whole_records :: "string \<Rightarrow> bool" where
  "whole_records s \<longleftrightarrow> (\<forall>u rest. read_history u (lines_of (s @ rest))
     = read_history u (lines_of s) @ read_history u (lines_of rest))"

lemma whole_records_Nil: "whole_records []"
  by (simp add: whole_records_def)

lemma whole_records_append:
  "whole_records s \<Longrightarrow> whole_records t \<Longrightarrow> whole_records (s @ t)"
  by (simp add: whole_records_def)

lemma read_one_record:
  assumes "who = ''you'' \<or> who = ''friend''" "one_line m" "one_line d" "one_line t"
  shows "read_history u (lines_of (history_record who m d t @ rest))
      = entry_for u who m d t # read_history u (lines_of rest)"
    and "whole_records (history_record who m d t)"
proof -
  show 1: "read_history u (lines_of (history_record who m d t @ rest))
      = entry_for u who m d t # read_history u (lines_of rest)" for u rest
    using lines_of_record [OF assms] read_history_record [OF assms(1)] by simp
  show "whole_records (history_record who m d t)"
    using 1 [of _ "[]"] by (simp add: whole_records_def 1)
qed

section \<open>Appending refines adding an entry\<close>

text \<open>The file of a conversation consists of whole records; a missing file counts as empty.\<close>

definition history_ok :: "filesys \<Rightarrow> string \<Rightarrow> bool" where
  "history_ok fs u \<longleftrightarrow> can_write fs (messages_file u)
     \<and> whole_records (case fs_read fs (messages_file u) of None \<Rightarrow> [] | Some c \<Rightarrow> c)"

lemma history_entries_alt:
  "history_entries fs u
     = read_history u (lines_of (case fs_read fs (messages_file u) of None \<Rightarrow> [] | Some c \<Rightarrow> c))"
  by (simp add: history_entries_def split: option.split)

lemma save_message_refines:
  assumes "history_ok fs u" "who = ''you'' \<or> who = ''friend''" "one_line m" "one_line d" "one_line t"
  shows "history_ok (save_message fs u m who d t) u
    \<and> history_entries (save_message fs u m who d t) u = history_entries fs u @ [entry_for u who m d t]"
proof -
  let ?old = "case fs_read fs (messages_file u) of None \<Rightarrow> [] | Some c \<Rightarrow> c"
  have old: "can_write fs (messages_file u)" "whole_records ?old"
    using assms(1) by (simp_all add: history_ok_def)
  have new: "fs_read (save_message fs u m who d t) (messages_file u) = Some (?old @ history_record who m d t)"
    using old(1) by (simp add: save_message_alt fs_read_append)
  have "whole_records (?old @ history_record who m d t)"
    using old(2) read_one_record(2) [OF assms(2-5)] by (rule whole_records_append)
  moreover have "read_history u (lines_of (?old @ history_record who m d t))
      = history_entries fs u @ [entry_for u who m d t]"
    using old(2) read_one_record(1) [OF assms(2-5), of u "[]"]
    by (simp add: whole_records_def history_entries_alt)
  ultimately show ?thesis
    using old(1) by (simp add: history_ok_def history_entries_alt new) (simp add: save_message_alt)
qed

lemma save_message_other:
  "messages_file v \<noteq> messages_file u \<Longrightarrow>
     history_entries (save_message fs u m who d t) v = history_entries fs v"
  by (simp add: history_entries_def save_message_alt fs_read_append)

text \<open>A saved message: sender tag, text, date and time.\<close>

type_synonym saved = "string \<times> string \<times> string \<times> string"

definition saved_ok :: "saved \<Rightarrow> bool" where
  "saved_ok r = (case r of (who, m, d, t) \<Rightarrow>
     (who = ''you'' \<or> who = ''friend'') \<and> one_line m \<and> one_line d \<and> one_line t)"

definition save_all :: "string \<Rightarrow> saved list \<Rightarrow> filesys \<Rightarrow> filesys" where
  "save_all u rs fs = fold (\<lambda>(who, m, d, t) fs. save_message fs u m who d t) rs fs"

lemma save_all_refines:
  "history_ok fs u \<Longrightarrow> list_all saved_ok rs \<Longrightarrow>
     history_entries (save_all u rs fs) u
       = history_entries fs u @ map (\<lambda>(who, m, d, t). entry_for u who m d t) rs"
proof (induction rs arbitrary: fs)
  case Nil
  then show ?case by (simp add: save_all_def)
next
  case (Cons r rs)
  obtain who m d t where r: "r = (who, m, d, t)" by (cases r)
  then show ?case
    using Cons save_message_refines [OF Cons.prems(1), of who m d t]
    by (simp add: save_all_def saved_ok_def)
qed

section \<open>Reading one entry of the document\<close>

definition expect :: "string \<Rightarrow> string \<Rightarrow> string option" where
  "expect lit s = (if starts_with lit s then Some (drop (length lit) s) else None)"

lemma expect_append [simp]: "expect lit (lit @ s) = Some s"
  by (simp add: expect_def)

definition json_field :: "string \<Rightarrow> string" where
  "json_field name = [quote] @ name @ [quote] @ '':'' @ [quote]"

definition read_json_entry :: "string \<Rightarrow> (entry \<times> string) option" where
  "read_json_entry s0 =
     Option.bind (expect (''{'' @ json_field ''sender'') s0) (\<lambda>s1.
     Option.bind (json_string s1) (\<lambda>(sender, s2).
     Option.bind (expect ('','' @ json_field ''message'') s2) (\<lambda>s3.
     Option.bind (json_string s3) (\<lambda>(m, s4).
     Option.bind (expect ('','' @ json_field ''date'') s4) (\<lambda>s5.
     Option.bind (json_string s5) (\<lambda>(d, s6).
     Option.bind (expect ('','' @ json_field ''time'') s6) (\<lambda>s7.
     Option.bind (json_string s7) (\<lambda>(t, s8).
     Option.bind (expect ''}'' s8) (\<lambda>s9.
       Some (\<lparr>en_sender = sender, en_message = m, en_date = d, en_time = t\<rparr>, s9))))))))))"

text \<open>A text that needs no escaping.\<close>

definition json_plain :: "string \<Rightarrow> bool" where
  "json_plain s \<longleftrightarrow> list_all (\<lambda>c. \<not> json_control c \<and> c \<noteq> quote \<and> c \<noteq> backslash) s"

lemma json_escape_plain: "json_plain s \<Longrightarrow> json_escape s = s"
  by (induction s) (auto simp: json_plain_def json_escape_char_def json_control_def)

lemma json_string_plain: "json_plain s \<Longrightarrow> json_string (s @ quote # rest) = Some (s, rest)"
proof -
  assume p: "json_plain s"
  then have "json_safe s" by (auto simp: json_plain_def json_safe_def list_all_iff)
  then show ?thesis using json_string_escape [of s rest] json_escape_plain [OF p] by metis
qed

lemma json_string_prefix:
  "json_plain m \<Longrightarrow> json_string (m @ c # d # z) = map_option (map_prod ((@) m) id) (json_string (c # d # z))"
proof (induction m)
  case (Cons a m)
  obtain b y where "m @ c # d # z = b # y" by (cases m) auto
  then have "json_string ((a # m) @ c # d # z) = push_char a (json_string (m @ c # d # z))"
    using Cons.prems by (simp add: json_plain_def)
  then show ?case using Cons
    by (cases "json_string (c # d # z)") (auto simp: json_plain_def simp del: json_string.simps)
qed (cases "json_string (c # d # z)", auto simp del: json_string.simps)

definition entry_ok :: "entry \<Rightarrow> bool" where
  "entry_ok e \<longleftrightarrow> json_plain (en_sender e) \<and> json_safe (en_message e)
     \<and> json_plain (en_date e) \<and> json_plain (en_time e)"

lemma read_json_entry_round: "entry_ok e \<Longrightarrow> read_json_entry (json_entry e @ rest) = Some (e, rest)"
proof -
  assume ok: "entry_ok e"
  have "json_entry e @ rest = (''{'' @ json_field ''sender'') @ en_sender e @ quote #
      ('','' @ json_field ''message'') @ json_escape (en_message e) @ quote #
      ('','' @ json_field ''date'') @ en_date e @ quote #
      ('','' @ json_field ''time'') @ en_time e @ quote # ''}'' @ rest"
    by (simp add: json_entry_def json_field_def)
  then show ?thesis
    using ok unfolding read_json_entry_def entry_ok_def
    by (simp only: expect_append json_string_plain json_string_escape Option.bind.simps prod.case) simp
qed

interpretation json_entry: stream_codec json_entry read_json_entry entry_ok
  by unfold_locales (rule read_json_entry_round)

lemma one_friend:
  "history_ok \<lparr>fs_files = [], fs_dirs = [[''friends''], [''friends'', ''f'']]\<rparr> ''f''"
  "history_entries \<lparr>fs_files = [], fs_dirs = [[''friends''], [''friends'', ''f'']]\<rparr> ''f'' = []"
proof -
  have "messages_file ''f'' = [''friends'', ''f'', ''messages.txt'']"
    by (simp add: messages_file_def friend_file_plain plain_name_def is_sep_def)
  then show
    "history_ok \<lparr>fs_files = [], fs_dirs = [[''friends''], [''friends'', ''f'']]\<rparr> ''f''"
    "history_entries \<lparr>fs_files = [], fs_dirs = [[''friends''], [''friends'', ''f'']]\<rparr> ''f'' = []"
    by (simp_all add: history_ok_def can_write_def is_directory_def fs_read_def
        whole_records_Nil history_entries_def)
qed

section \<open>Properties\<close>

text \<open>
  The history file refines an append-only list of entries: after saving any sequence of
  one-line messages of the user and of one friend, the entries read back for the browser are the
  former ones followed by exactly these, in order, with sender, text, date and time.
\<close>

lemma history_refines_list:
  assumes "history_ok fs u" "list_all saved_ok rs"
  shows "history_entries (save_all u rs fs) u
    = history_entries fs u @ map (\<lambda>(who, m, d, t). entry_for u who m d t) rs"
  using assms by (rule save_all_refines)

lemma history_refines_list_witness:
  "history_entries
     (save_all ''f'' [(''you'', ''hi'', ''2025-01-02'', ''10:11:12''), (''friend'', ''$end'', ''d'', ''t'')]
       \<lparr>fs_files = [], fs_dirs = [[''friends''], [''friends'', ''f'']]\<rparr>) ''f''
   = [entry_for ''f'' ''you'' ''hi'' ''2025-01-02'' ''10:11:12'', entry_for ''f'' ''friend'' ''$end'' ''d'' ''t'']"
  using one_friend by (subst history_refines_list) (simp_all add: saved_ok_def one_line_def)

text \<open>
  Every object of the document built for the browser is valid JSON and reads back as the entry
  it was made from, when the message has no control characters other than newline, carriage
  return and tab and the unescaped fields (sender, date, time) need no escaping.
\<close>

lemma history_document_entry:
  "entry_ok e \<Longrightarrow> read_json_entry (json_entry e @ rest) = Some (e, rest)"
  by (rule json_entry.get_put)

lemma history_document_entry_witness:
  "read_json_entry (json_entry (entry_for ''f'' ''you'' [quote, newline] ''d'' ''t'') @ '','')
     = Some (entry_for ''f'' ''you'' [quote, newline] ''d'' ''t'', '','')"
  by (rule history_document_entry)
    (simp add: entry_ok_def json_plain_def json_safe_def json_control_def entry_for_def)

text \<open>
  A text with line breaks is not one entry. A friend who sends the text built here (a message
  \<open>a\<close>, the lines that end its record, and the opening lines of another record) has it stored as
  two entries, the second of them attributed to the user, with a text of the friend's choice.
\<close>

definition forged_text :: "string \<Rightarrow> string \<Rightarrow> string" where
  "forged_text a b = a @ newline # ''$end'' @ newline # ''$you'' @ newline # ''message:'' @ b"

lemma line_breaks_forge_entries:
  assumes "history_ok fs u" "one_line a" "one_line b" "one_line d" "one_line t"
  shows "history_entries (save_message fs u (forged_text a b) ''friend'' d t) u
    = history_entries fs u @ [entry_for u ''friend'' a [] [], entry_for u ''you'' b d t]"
proof -
  let ?old = "case fs_read fs (messages_file u) of None \<Rightarrow> [] | Some c \<Rightarrow> c"
  let ?r = "history_record ''friend'' (forged_text a b) d t"
  have "lines_of ([] @ newline # ''$friend'' @ newline # (''message:'' @ a) @ newline #
      ''$end'' @ newline # ''$you'' @ newline # (''message:'' @ b) @ newline #
      (''date:'' @ d) @ newline # (''time:'' @ t) @ newline # ''$end'' @ newline # [])
    = [[], ''$friend'', ''message:'' @ a, ''$end'', ''$you'', ''message:'' @ b, ''date:'' @ d,
       ''time:'' @ t, ''$end'']"
    using assms(2-5) unfolding one_line_def by (subst lines_of_Cons, force)+ simp
  then have "lines_of ?r = [[], ''$friend'', ''message:'' @ a, ''$end'', ''$you'', ''message:'' @ b,
      ''date:'' @ d, ''time:'' @ t, ''$end'']"
    by (simp add: history_record_def forged_text_def)
  then have "read_history u (lines_of ?r) = [entry_for u ''friend'' a [] [], entry_for u ''you'' b d t]"
    by (simp add: field_of_def starts_with_def new_entry_def entry_for_def)
  moreover have "fs_read (save_message fs u (forged_text a b) ''friend'' d t) (messages_file u)
      = Some (?old @ ?r)"
    using assms(1) by (simp add: save_message_alt fs_read_append history_ok_def)
  ultimately show ?thesis
    using assms(1) by (simp add: history_entries_alt history_ok_def whole_records_def)
qed

lemma line_breaks_forge_entries_witness:
  "history_entries (save_message \<lparr>fs_files = [], fs_dirs = [[''friends''], [''friends'', ''f'']]\<rparr>
      ''f'' (forged_text ''hi'' ''I owe you'') ''friend'' ''d'' ''t'') ''f''
    = [entry_for ''f'' ''friend'' ''hi'' [] [], entry_for ''f'' ''you'' ''I owe you'' ''d'' ''t'']"
  using one_friend by (subst line_breaks_forge_entries) (simp_all add: one_line_def)

end
