(* ===== verification/World.thy ===== *)
theory World
  imports Crypto History
begin

text \<open>
  The process-wide state of the client (\<open>app_final/client/main.cpp\<close>): its global variables, the
  file system, and the environment it observes. The clock is a number of nanoseconds, \<open>w_date\<close> and
  \<open>w_time\<close> are what \<open>strftime\<close> makes of it, \<open>w_rands\<close> the values \<open>rand()\<close> will return.

  An operation that can fail returns its outcome together with the state it left behind: what a
  handler did before an exception stays done.
\<close>

section \<open>State\<close>

record peer_info =     \<comment> \<open>\<open>PeerConnectionInfo\<close>\<close>
  pi_uuid :: string
  pi_ip :: string
  pi_iport :: u16
  pi_oport :: u16

record world =
  w_fs :: filesys
  w_now :: int
  w_date :: string
  w_time :: string
  w_entropy :: entropy
  w_rands :: "int stream"
  g_uuid :: string
  g_selected_user :: string
  g_last_packets_times :: "(string \<times> int) list"
  g_notifications_count :: "(string \<times> int) list"
  g_connection_to_server_active :: bool
  g_my_local_ip :: string
  g_public_ip :: string
  g_c_server_uuid :: string
  g_found_peers :: "peer_info list"

type_synonym ('s, 'a) act = "'s \<Rightarrow> 'a res \<times> 's"

definition seconds :: "int \<Rightarrow> int" where
  "seconds n = n * 1000000000"

section \<open>Small operations on it\<close>

text \<open>\<open>file.tellg()\<close> bytes, all of them read.\<close>

definition read_file :: "filesys \<Rightarrow> string \<Rightarrow> string res" where
  "read_file fs filename = (case fs_read fs (resolve filename) of
     None \<Rightarrow> throw (''Could not open file: '' @ filename)
   | Some contents \<Rightarrow> Inr contents)"

definition check_activity :: "world \<Rightarrow> string \<Rightarrow> bool" where
  "check_activity w u = (case map_of (g_last_packets_times w) u of
     None \<Rightarrow> False
   | Some last_packet_time \<Rightarrow> last_packet_time \<ge> w_now w - seconds 2)"

definition notifications :: "world \<Rightarrow> string \<Rightarrow> int" where
  "notifications w u = (case map_of (g_notifications_count w) u of None \<Rightarrow> 0 | Some n \<Rightarrow> n)"

definition save_message_now :: "string \<Rightarrow> string \<Rightarrow> string \<Rightarrow> world \<Rightarrow> world" where
  "save_message_now u message who w =
     w\<lparr>w_fs := save_message (w_fs w) u message who (w_date w) (w_time w)\<rparr>"

definition next_rand :: "world \<Rightarrow> int \<times> world" where
  "next_rand w = (shd (w_rands w), w\<lparr>w_rands := stl (w_rands w)\<rparr>)"

text \<open>Touching a friend at the arrival of any datagram.\<close>

definition packet_seen :: "string \<Rightarrow> world \<Rightarrow> world" where
  "packet_seen u w = w\<lparr>g_last_packets_times := AList.update u (w_now w) (g_last_packets_times w)\<rparr>"

lemma check_activity_seen:
  "check_activity (packet_seen u w) v \<longleftrightarrow> v = u \<or> check_activity w v"
  by (auto simp: check_activity_def packet_seen_def seconds_def update_conv' split: option.split)

lemma packet_seen_sel [simp]:
  "w_fs (packet_seen u w) = w_fs w" "w_now (packet_seen u w) = w_now w"
  "g_selected_user (packet_seen u w) = g_selected_user w"
  "w_entropy (packet_seen u w) = w_entropy w"
  by (simp_all add: packet_seen_def)

end
