(* ===== verification/UdpServer.thy ===== *)
theory UdpServer
  imports World UdpPacket
begin

text \<open>
  \<open>class udp_server\<close> of \<open>app_final/client/main.cpp\<close>: the connection to one friend. The object's
  fields are the record \<open>udp_server\<close>; the operations of the asynchronous runtime that the object
  has under way are fields too: \<open>us_receiving\<close> (a pending \<open>async_receive_from\<close>), \<open>us_punching\<close>
  (the punch timer waits) and \<open>us_transfer\<close> (the transmit timer waits, with what its handler has
  captured; starting it again cancels the earlier wait); \<open>us_open\<close> says whether the socket is bound. Datagrams handed to \<open>async_send_to\<close> are
  appended to \<open>us_outbox\<close>. A handler maps the object and the process state to its outcome and
  the state it leaves.

  Sockets are not part of the repository: \<open>net_bind\<close> says whether a port can be bound,
  \<open>net_resolve\<close> what a name and a service resolve to (\<open>None\<close> throws).
\<close>

section \<open>State\<close>

record net =
  net_bind :: "u16 \<Rightarrow> bool"
  net_resolve :: "string \<Rightarrow> string \<Rightarrow> (string \<times> nat) option"

record incoming_file =
  if_total :: u64
  if_name :: string
  if_chunks :: "(u64 \<times> byte list) list"

record transfer =      \<comment> \<open>the captures of the transmit timer's handler\<close>
  tr_messageID :: u32
  tr_data :: "byte list"
  tr_total :: u64
  tr_index :: u64

record udp_server =
  us_uuid :: string
  us_username :: string
  us_stopped :: bool
  us_open :: bool
  us_port :: u16
  us_target :: "string \<times> nat"
  us_recv_buffer :: "byte list"
  us_receiving :: bool
  us_punching :: bool
  us_transfer :: "transfer option"
  us_incoming :: "(u32 \<times> incoming_file) list"
  us_outbox :: "byte list list"

type_synonym conn = "udp_server \<times> world"

definition send_arr :: "byte list \<Rightarrow> udp_server \<Rightarrow> udp_server" where
  "send_arr arr s = s\<lparr>us_outbox := us_outbox s @ [arr]\<rparr>"

definition start_receive :: "udp_server \<Rightarrow> udp_server" where
  "start_receive s = (if us_stopped s then s else s\<lparr>us_receiving := True\<rparr>)"

text \<open>\<open>std::fill_n(recv_buffer.begin(), n, 0)\<close>\<close>

definition fill_buffer :: "nat \<Rightarrow> udp_server \<Rightarrow> udp_server" where
  "fill_buffer n s = s\<lparr>us_recv_buffer := replicate n 0 @ drop n (us_recv_buffer s)\<rparr>"

text \<open>A datagram lands at the front of the buffer; what it does not cover keeps its contents.\<close>

definition deliver :: "byte list \<Rightarrow> udp_server \<Rightarrow> udp_server" where
  "deliver dgram s = s\<lparr>us_recv_buffer :=
     take 512 dgram @ drop (length (take 512 dgram)) (us_recv_buffer s)\<rparr>"

section \<open>Sending\<close>

definition send_msg :: "string \<Rightarrow> udp_server \<Rightarrow> udp_server" where
  "send_msg msg s = send_arr (bytes_of msg) s"

text \<open>The blocking variant throws when the system refuses the datagram.\<close>

definition sync_send :: "bool \<Rightarrow> string \<Rightarrow> udp_server \<Rightarrow> unit res \<times> udp_server" where
  "sync_send ok msg s =
     (if ok then (Inr (), s\<lparr>us_outbox := us_outbox s @ [bytes_of msg]\<rparr>) else (Inl (Throw SystemError), s))"

definition send_text :: "evp \<Rightarrow> string \<Rightarrow> conn \<Rightarrow> conn" where
  "send_text ev msg0 c = (case c of (s, w) \<Rightarrow>
     let msg = (if length msg0 > 477 then take 477 msg0 else msg0);
         (encrypted, e') = (case load_key (w_fs w) (us_uuid s) of
            Inl err \<Rightarrow> (Inl err, w_entropy w)
          | Inr key \<Rightarrow> aes_encrypt ev msg key (w_entropy w));
         payload = (case encrypted of
            Inl _ \<Rightarrow> bytes_of msg
          | Inr enc \<Rightarrow> put16 (word_of_nat (length enc)) @ enc);
         (r, w') = next_rand (w\<lparr>w_entropy := e'\<rparr>);
         packet = packet_of_string (byte_of CHR ''T'') 0 (get_messageID r) 0 payload
     in (send_arr (get_bytes packet) s, w'))"

text \<open>One encrypted piece of a file in its 495-byte content: length, ciphertext, zeros.\<close>

definition content_array :: "byte list \<Rightarrow> byte list" where
  "content_array bs = bs @ replicate (495 - length bs) 0"

definition file_piece :: "byte list \<Rightarrow> nat \<Rightarrow> byte list" where
  "file_piece data offset = take 461 (drop offset data)"

definition encrypt_piece ::
  "evp \<Rightarrow> byte list \<Rightarrow> conn \<Rightarrow> byte list res \<times> entropy" where
  "encrypt_piece ev chunk c = (case c of (s, w) \<Rightarrow>
     case load_key (w_fs w) (us_uuid s) of
       Inl err \<Rightarrow> (Inl err, w_entropy w)
     | Inr key \<Rightarrow> aes_encrypt ev (string_of chunk) key (w_entropy w))"

definition piece_packet :: "u32 \<Rightarrow> u64 \<Rightarrow> u64 \<Rightarrow> byte list \<Rightarrow> udp_packet res" where
  "piece_packet messageID total_packets packet_index encrypted =
     (if length encrypted > 493 then Inl (UB ''std::copy past the content array'')
      else Inr (packet_of_array (byte_of CHR ''F'') (if packet_index + 1 = total_packets then 0 else 2)
        messageID packet_index
        (content_array (put16 (word_of_nat (length encrypted)) @ encrypted))))"

definition total_packets_of :: "byte list \<Rightarrow> u64" where
  "total_packets_of data = (word_of_nat (length data) + 460) div 461"

definition file_header :: "u64 \<Rightarrow> string \<Rightarrow> byte list" where
  "file_header total_packets filename =
     content_array (put48 total_packets @ [0] @ bytes_of (take 487 filename))"

definition send_file ::
  "u32 \<Rightarrow> byte list \<Rightarrow> string \<Rightarrow> udp_server \<Rightarrow> udp_server" where
  "send_file messageID data filename s =
     (if us_stopped s then s
      else
        let total = total_packets_of data;
            packet = packet_of_array (byte_of CHR ''F'') 1 messageID total (file_header total filename)
        in (send_arr (get_bytes packet) s)
             \<lparr>us_transfer := Some \<lparr>tr_messageID = messageID, tr_data = data, tr_total = total,
                tr_index = 0\<rparr>\<rparr>)"

definition send_file_packet ::
  "evp \<Rightarrow> u32 \<Rightarrow> byte list \<Rightarrow> u64 \<Rightarrow> u64 \<Rightarrow> conn \<Rightarrow> unit res \<times> conn" where
  "send_file_packet ev messageID data total_packets packet_index c = (case c of (s, w) \<Rightarrow>
     if us_stopped s then (Inr (), c)
     else
       let chunk = file_piece data (unat (packet_index * 461));
           (encrypted, e') = encrypt_piece ev chunk c;
           w' = w\<lparr>w_entropy := e'\<rparr>
       in case encrypted of
            Inl _ \<Rightarrow> (Inr (), (s, w'))
          | Inr enc \<Rightarrow>
              (case piece_packet messageID total_packets packet_index enc of
                 Inl e \<Rightarrow> (Inl e, (s, w'))
               | Inr packet \<Rightarrow>
                   let s' = send_arr (get_bytes packet) s in
                   (Inr (), (if packet_index + 1 < total_packets
                     then s'\<lparr>us_transfer := Some \<lparr>tr_messageID = messageID, tr_data = data,
                       tr_total = total_packets, tr_index = packet_index + 1\<rparr>\<rparr>
                     else s', w'))))"

text \<open>The transmit timer fires: the wait is over before its handler runs.\<close>

definition transmit_fires :: "evp \<Rightarrow> conn \<Rightarrow> unit res \<times> conn" where
  "transmit_fires ev c = (case c of (s, w) \<Rightarrow>
     case us_transfer s of
       None \<Rightarrow> (Inr (), c)
     | Some tr \<Rightarrow>
         let s' = s\<lparr>us_transfer := None\<rparr> in
         if us_stopped s then (Inr (), (s', w))
         else send_file_packet ev (tr_messageID tr) (tr_data tr) (tr_total tr) (tr_index tr) (s', w))"

definition resend_file ::
  "evp \<Rightarrow> u32 \<Rightarrow> byte list \<Rightarrow> u64 \<Rightarrow> conn \<Rightarrow> unit res \<times> conn" where
  "resend_file ev messageID data packet_index c = (case c of (s, w) \<Rightarrow>
     if us_stopped s then (Inr (), c)
     else if unat (packet_index * 461) \<ge> length data then (Inr (), c)
     else
       let chunk = file_piece data (unat (packet_index * 461));
           (encrypted, e') = encrypt_piece ev chunk c;
           w' = w\<lparr>w_entropy := e'\<rparr>
       in case encrypted of
            Inl _ \<Rightarrow> (Inr (), (s, w'))
          | Inr enc \<Rightarrow>
              (case piece_packet messageID (total_packets_of data) packet_index enc of
                 Inl e \<Rightarrow> (Inl e, (s, w'))
               | Inr packet \<Rightarrow> (Inr (), (send_arr (get_bytes packet) s, w'))))"

text \<open>
  \<open>generate_AES\<close> overwrites the friend's key file before the key is wrapped; a failing wrap leaves
  the new key in place.
\<close>

definition send_encrypted_AES_key :: "evp \<Rightarrow> byte list \<Rightarrow> conn \<Rightarrow> unit res \<times> conn" where
  "send_encrypted_AES_key ev received_ecc_public_key c = (case c of (s, w) \<Rightarrow>
     let (key, fs', e1) = generate_AES (w_fs w) (us_uuid s) (w_entropy w);
         (wrapped, e2) = encrypt_ECC ev key received_ecc_public_key e1;
         w' = w\<lparr>w_fs := fs', w_entropy := e2\<rparr>
     in case wrapped of
          Inl e \<Rightarrow> (Inl e, (s, w'))
        | Inr enc \<Rightarrow>
            if length enc > 492 then (Inl (UB ''store past the content array''), (s, w'))
            else
              let arr = content_array ([byte_of CHR ''A''] @ put16 (word_of_nat (length enc)) @ bytes_of enc);
                  (r, w'') = next_rand w'
              in (Inr (), (send_arr (get_bytes
                    (packet_of_array (byte_of CHR ''O'') 0 (get_messageID r) 0 arr)) s, w'')))"

definition send_ECC_public_key :: "conn \<Rightarrow> unit res \<times> conn" where
  "send_ECC_public_key c = (case c of (s, w) \<Rightarrow>
     case read_file (w_fs w) ''./user_settings/ECC_PUB'' of
       Inl e \<Rightarrow> (Inl e, c)
     | Inr ECC_PUB \<Rightarrow>
         if length ECC_PUB < 31 then (Inl (UB ''ECC_PUB[i] past the terminator''), c)
         else
           let k = take 32 (bytes_of ECC_PUB @ [0]);
               arr = content_array ([byte_of CHR ''P''] @ k @ k @ k);
               (r, w') = next_rand w
           in (Inr (), (send_arr (get_bytes
                 (packet_of_array (byte_of CHR ''O'') 0 (get_messageID r) 0 arr)) s, w')))"

definition udp_punch :: "conn \<Rightarrow> unit res \<times> conn" where
  "udp_punch c = (case c of (s, w) \<Rightarrow>
     if us_stopped s then (Inr (), (s\<lparr>us_punching := False\<rparr>, w))
     else case read_file (w_fs w) ''./user_settings/name.txt'' of
       Inl e \<Rightarrow> (Inl e, (s\<lparr>us_punching := False\<rparr>, w))
     | Inr name \<Rightarrow>
         let (r1, w1) = next_rand w; (r2, w2) = next_rand w1;
             packet = packet_of_string (byte_of CHR ''O'') 0 (word_of_int r1) (word_of_int r2)
               (bytes_of (CHR ''N'' # name))
         in (Inr (), ((send_arr (get_bytes packet) s)\<lparr>us_punching := True\<rparr>, w2)))"

section \<open>Receiving: texts and control packets\<close>

definition handle_text :: "evp \<Rightarrow> byte list \<Rightarrow> conn \<Rightarrow> conn" where
  "handle_text ev actual c = (case c of (s, w) \<Rightarrow>
     let enc_len = get16 (actual ! 0) (actual ! 1) in
     if enc_len = 0 \<or> enc_len > 493 then c
     else
       let encrypted = take (unat enc_len) (drop 2 actual) in
       case bind_res (load_key (w_fs w) (us_uuid s)) (aes_decrypt ev encrypted) of
         Inl _ \<Rightarrow> c
       | Inr msg \<Rightarrow>
           if msg = [] then c
           else
             let w1 = save_message_now (us_uuid s) msg ''friend'' w in
             (s, if us_uuid s \<noteq> g_selected_user w1
                 then w1\<lparr>g_notifications_count := AList.update (us_uuid s)
                        (notifications w1 (us_uuid s) + 1) (g_notifications_count w1)\<rparr>
                 else w1))"

text \<open>\<open>std::string(recv_buffer.data() + 14)\<close> reads up to a zero byte.\<close>

definition c_string :: "byte list \<Rightarrow> string res" where
  "c_string bs =
     (if 0 \<in> set bs then Inr (string_of (takeWhile (\<lambda>b. b \<noteq> 0) bs))
      else Inl (UB ''unterminated string''))"

definition handle_username :: "byte list \<Rightarrow> conn \<Rightarrow> unit res \<times> conn" where
  "handle_username buf c = (case c of (s, w) \<Rightarrow>
     case c_string (drop 14 buf) of
       Inl e \<Rightarrow> (Inl e, c)
     | Inr received \<Rightarrow>
         if received \<noteq> us_username s \<and> received \<noteq> [] then
           let short = (if length received > 64 then take 64 received else received);
               new_username = takeWhile (\<lambda>c. c \<noteq> carriage_return \<and> c \<noteq> newline) short;
               username_path = friend_file (us_uuid s) ''username.txt''
           in if new_username = [] then (Inr (), c)
              else (case fs_remove (w_fs w) username_path of
                 Inl e \<Rightarrow> (Inl e, c)
               | Inr fs \<Rightarrow> (Inr (), (s\<lparr>us_username := new_username\<rparr>,
                   w\<lparr>w_fs := fs_write fs username_path (html_escape new_username)\<rparr>)))
         else (Inr (), c))"

definition handle_public_key :: "evp \<Rightarrow> byte list \<Rightarrow> byte list \<Rightarrow> conn \<Rightarrow> unit res \<times> conn" where
  "handle_public_key ev buf actual c =
     (let are_consistent = list_all (\<lambda>i. actual ! (1 + i) = actual ! (33 + i)
            \<and> actual ! (33 + i) = actual ! (65 + i)) [0..<32]
      in if CRC32 actual = received_checksum buf \<and> are_consistent
         then send_encrypted_AES_key ev (take 32 (drop 1 actual)) c
         else (Inr (), c))"

definition handle_key :: "evp \<Rightarrow> byte list \<Rightarrow> conn \<Rightarrow> unit res \<times> conn" where
  "handle_key ev actual c = (case c of (s, w) \<Rightarrow>
     let enc_len = get16 (actual ! 1) (actual ! 2) in
     if 3 + unat enc_len > length actual then (Inl (UB ''payload past the content array''), c)
     else
       let payload = string_of (take (unat enc_len) (drop 3 actual)) in
       case decrypt_ECC ev (w_fs w) payload of
         Inl _ \<Rightarrow> (Inr (), c)
       | Inr aes_key \<Rightarrow>
           (Inr (), (s, w\<lparr>w_fs := fs_write (w_fs w) (friend_file (us_uuid s) ''AES'') (hex_string aes_key)\<rparr>)))"

definition handle_control :: "evp \<Rightarrow> byte list \<Rightarrow> byte list \<Rightarrow> conn \<Rightarrow> unit res \<times> conn" where
  "handle_control ev buf actual c =
     (if actual ! 0 = byte_of CHR ''N'' then handle_username buf c
      else if actual ! 0 = byte_of CHR ''P'' then handle_public_key ev buf actual c
      else if actual ! 0 = byte_of CHR ''A'' then handle_key ev actual c
      else (Inr (), c))"

section \<open>Receiving: files\<close>

definition received_dir :: "string \<Rightarrow> string" where
  "received_dir u = ''./received/'' @ u @ ''/''"

definition bad_name_char :: "char \<Rightarrow> bool" where
  "bad_name_char c \<longleftrightarrow> c \<in> set ''/:*?<>|'' \<or> c = backslash \<or> c = quote"

text \<open>\<open>filename.rfind('.')\<close>, then the parts before and from it.\<close>

definition split_ext :: "string \<Rightarrow> string \<times> string" where
  "split_ext name =
     (if CHR ''.'' \<in> set name
      then (rev (tl (dropWhile (\<lambda>c. c \<noteq> CHR ''.'') (rev name))),
            CHR ''.'' # rev (takeWhile (\<lambda>c. c \<noteq> CHR ''.'') (rev name)))
      else (name, []))"

definition numbered_name :: "string \<Rightarrow> string \<Rightarrow> nat \<Rightarrow> string" where
  "numbered_name base ext suffix = base @ ''('' @ show_nat suffix @ '')'' @ ext"

text \<open>\<open>while (fs::exists(...)) ++suffix;\<close> -- \<open>None\<close> if it never ends.\<close>

partial_function (option) free_suffix :: "(nat \<Rightarrow> bool) \<Rightarrow> nat \<Rightarrow> nat option" where
  "free_suffix taken suffix = (if taken suffix then free_suffix taken (Suc suffix) else Some suffix)"

definition name_taken :: "filesys \<Rightarrow> string \<Rightarrow> string \<Rightarrow> bool" where
  "name_taken fs u name = fs_exists fs (resolve (received_dir u @ name))"

definition unique_name :: "filesys \<Rightarrow> string \<Rightarrow> string \<Rightarrow> string res" where
  "unique_name fs u name =
     (if name_taken fs u name then
        let (base, ext) = split_ext name in
        (case free_suffix (\<lambda>n. name_taken fs u (numbered_name base ext n)) 1 of
           None \<Rightarrow> Inl (UB ''the suffix loop does not end'')
         | Some suffix \<Rightarrow> Inr (numbered_name base ext suffix))
      else Inr name)"

definition header_name :: "u32 \<Rightarrow> byte list \<Rightarrow> string" where
  "header_name MID actual =
     (let filename = string_of (takeWhile (\<lambda>b. b \<noteq> 0) (drop 7 actual));
          valid = (filename \<noteq> [] \<and> list_all (\<lambda>c. \<not> bad_name_char c) filename)
      in if valid then filename else show_nat (unat MID))"

definition handle_file_header :: "u32 \<Rightarrow> byte list \<Rightarrow> conn \<Rightarrow> unit res \<times> conn" where
  "handle_file_header MID actual c = (case c of (s, w) \<Rightarrow>
     let total_packets = get48 (actual ! 0) (actual ! 1) (actual ! 2) (actual ! 3) (actual ! 4) (actual ! 5);
         filename = header_name MID actual
     in case create_directories (w_fs w) (resolve (received_dir (us_uuid s))) of
          Inl e \<Rightarrow> (Inl e, c)
        | Inr fs \<Rightarrow>
            let w1 = w\<lparr>w_fs := fs\<rparr> in
            (case unique_name fs (us_uuid s) filename of
               Inl e \<Rightarrow> (Inl e, (s, w1))
             | Inr final \<Rightarrow> (Inr (), (s\<lparr>us_incoming := AList.update MID
                 \<lparr>if_total = total_packets, if_name = final, if_chunks = []\<rparr> (us_incoming s)\<rparr>, w1))))"

text \<open>The loop that writes the chunks in the order of their numbers, up to the first missing one.\<close>

fun assemble :: "(u64 \<times> byte list) list \<Rightarrow> nat list \<Rightarrow> byte list" where
  "assemble chunks [] = []"
| "assemble chunks (i # is) =
     (case map_of chunks (word_of_nat i) of None \<Rightarrow> [] | Some d \<Rightarrow> d @ assemble chunks is)"

definition handle_file_data :: "evp \<Rightarrow> u32 \<Rightarrow> u64 \<Rightarrow> byte list \<Rightarrow> conn \<Rightarrow> unit res \<times> conn" where
  "handle_file_data ev MID PID actual c = (case c of (s, w) \<Rightarrow>
     case map_of (us_incoming s) MID of
       None \<Rightarrow> (Inr (), c)
     | Some file \<Rightarrow>
         let enc_len = get16 (actual ! 0) (actual ! 1) in
         if enc_len = 0 \<or> enc_len > 493 then (Inr (), c)
         else
           let encrypted = take (unat enc_len) (drop 2 actual) in
           (case bind_res (load_key (w_fs w) (us_uuid s)) (aes_decrypt ev encrypted) of
              Inl _ \<Rightarrow> (Inr (), c)
            | Inr decrypted \<Rightarrow>
                let chunks = AList.update PID (bytes_of decrypted) (if_chunks file) in
                if length chunks = unat (if_total file) then
                  (case create_directories (w_fs w) (resolve (received_dir (us_uuid s))) of
                     Inl e \<Rightarrow> (Inl e, (s\<lparr>us_incoming := AList.update MID (file\<lparr>if_chunks := chunks\<rparr>) (us_incoming s)\<rparr>, w))
                   | Inr fs \<Rightarrow> (Inr (),
                       (s\<lparr>us_incoming := AList.delete MID (us_incoming s)\<rparr>,
                        w\<lparr>w_fs := fs_write fs (resolve (received_dir (us_uuid s) @ if_name file))
                             (string_of (assemble chunks [0..<unat (if_total file)]))\<rparr>)))
                else (Inr (), (s\<lparr>us_incoming := AList.update MID (file\<lparr>if_chunks := chunks\<rparr>) (us_incoming s)\<rparr>, w))))"

definition handle_file :: "evp \<Rightarrow> byte list \<Rightarrow> byte list \<Rightarrow> conn \<Rightarrow> unit res \<times> conn" where
  "handle_file ev buf actual c =
     (if CRC32 actual = received_checksum buf then
        if buf ! 2 = 1 then handle_file_header (buffer_MID buf) actual c
        else if buf ! 2 = 2 \<or> buf ! 2 = 0
          then handle_file_data ev (buffer_MID buf) (buffer_PID buf) actual c
        else (Inr (), c)
      else (Inr (), c))"

section \<open>Receiving: the handler\<close>

definition dispatch :: "evp \<Rightarrow> byte list \<Rightarrow> conn \<Rightarrow> unit res \<times> conn" where
  "dispatch ev buf c =
     (let actual = actual_data buf in
      if buf ! 1 = byte_of CHR ''T'' then (Inr (), handle_text ev actual c)
      else if buf ! 1 = byte_of CHR ''O'' then handle_control ev buf actual c
      else if buf ! 1 = byte_of CHR ''F'' then handle_file ev buf actual c
      else (Inr (), c))"

definition listen_again :: "conn \<Rightarrow> conn" where
  "listen_again c = (case c of (s, w) \<Rightarrow> (start_receive (fill_buffer 512 s), w))"

definition handle_receive :: "evp \<Rightarrow> bool \<Rightarrow> conn \<Rightarrow> unit res \<times> conn" where
  "handle_receive ev error c = (case c of (s0, w) \<Rightarrow>
     let s = s0\<lparr>us_receiving := False\<rparr> in
     if us_stopped s \<or> error then (Inr (), (s, w))
     else
       let c1 = (s, packet_seen (us_uuid s) w); buf = us_recv_buffer s in
       if accepts buf then
         (case dispatch ev buf c1 of
            (Inl e, c2) \<Rightarrow> (Inl e, c2)
          | (Inr _, c2) \<Rightarrow> (Inr (), listen_again c2))
       else (Inr (), listen_again c1))"

definition receive :: "evp \<Rightarrow> byte list \<Rightarrow> conn \<Rightarrow> unit res \<times> conn" where
  "receive ev dgram c = (case c of (s, w) \<Rightarrow> handle_receive ev False (deliver dgram s, w))"

section \<open>Life cycle\<close>

definition blank_server :: "string \<Rightarrow> u16 \<Rightarrow> string \<times> nat \<Rightarrow> byte list \<Rightarrow> udp_server" where
  "blank_server u port target garbage =
     \<lparr>us_uuid = u, us_username = [], us_stopped = False, us_open = True, us_port = port,
      us_target = target, us_recv_buffer = garbage, us_receiving = False,
      us_punching = False, us_transfer = None, us_incoming = [], us_outbox = []\<rparr>"

definition new_udp_server ::
  "net \<Rightarrow> int \<Rightarrow> int \<Rightarrow> string \<Rightarrow> string \<Rightarrow> byte list \<Rightarrow> world \<Rightarrow> udp_server res \<times> world" where
  "new_udp_server nt iport oport ip_address u garbage w =
     (let port = word_of_int iport in
      if \<not> net_bind nt port then (Inl (Throw SystemError), w)
      else case net_resolve nt ip_address (show_int oport) of
        None \<Rightarrow> (Inl (Throw SystemError), w)
      | Some target \<Rightarrow>
          let s = blank_server u port target garbage
          in (case udp_punch (start_receive s, w) of
                (Inl e, (_, w1)) \<Rightarrow> (Inl e, w1)
              | (Inr _, (s1, w1)) \<Rightarrow>
                  (case read_file (w_fs w1) (''./friends/'' @ u @ ''/username.txt'') of
                     Inl e \<Rightarrow> (Inl e, w1)
                   | Inr name \<Rightarrow> (Inr ((fill_buffer 64 s1)\<lparr>us_username := name\<rparr>), w1))))"

definition change_target :: "net \<Rightarrow> int \<Rightarrow> int \<Rightarrow> string \<Rightarrow> udp_server \<Rightarrow> unit res \<times> udp_server" where
  "change_target nt iport oport ip_addr s =
     (let port = word_of_int iport; s1 = s\<lparr>us_receiving := False, us_open := False\<rparr> in
      if \<not> net_bind nt port then (Inl (Throw SystemError), s1)
      else case net_resolve nt ip_addr (show_int oport) of
        None \<Rightarrow> (Inl (Throw SystemError), s1\<lparr>us_port := port, us_open := True\<rparr>)
      | Some target \<Rightarrow>
          (Inr (), start_receive (fill_buffer 64 (s1\<lparr>us_port := port, us_open := True, us_target := target\<rparr>))))"

definition stop :: "udp_server \<Rightarrow> udp_server" where
  "stop s = s\<lparr>us_stopped := True, us_punching := False, us_receiving := False, us_open := False\<rparr>"

end
