(* ===== verification/UdpTexts.thy ===== *)
theory UdpTexts
  imports UdpServer
begin

text \<open>
  Texts and key exchange between two \<open>udp_server\<close> objects: what one side's datagram does to the
  other side. The lemmas first reduce \<open>handle_receive\<close> on a packet the constructors built to the
  handler for its type; the properties then compose the sender with the receiver.
\<close>

section \<open>Lemmas: contents\<close>

lemma length_content_array: "length bs \<le> 495 \<Longrightarrow> length (content_array bs) = 495"
  by (simp add: content_array_def)

lemma pad495_content: "length bs \<le> 495 \<Longrightarrow> pad495 bs = content_array bs"
  by (simp add: pad495_def content_array_def)

lemma length_prefix:
  assumes "length enc \<le> 493"
  shows "unat (word_of_nat (length enc) :: u16) = length enc"
  using assms by (simp add: unat_of_nat)

text \<open>A length-prefixed ciphertext is read back from its content array.\<close>

lemma prefixed_read:
  assumes "length enc \<le> 493" "m = content_array (put16 (word_of_nat (length enc)) @ enc)"
  shows "get16 (m ! 0) (m ! 1) = word_of_nat (length enc)"
    and "take (length enc) (drop 2 m) = enc" "length m = 495"
proof -
  have m: "m = put16 (word_of_nat (length enc)) @ enc @ replicate (493 - length enc) 0"
    using assms by (simp add: content_array_def)
  show "get16 (m ! 0) (m ! 1) = word_of_nat (length enc)"
    using m by (simp add: put16_def get16_put)
  show "take (length enc) (drop 2 m) = enc" "length m = 495"
    using m assms(1) by simp_all
qed

lemma word16_small:
  assumes "length enc \<le> 493" "enc \<noteq> []"
  shows "(word_of_nat (length enc) :: u16) \<noteq> 0" "\<not> (493 :: u16) < word_of_nat (length enc)"
  using length_prefix [OF assms(1)] assms by (auto simp: word_less_nat_alt)

section \<open>Lemmas: receiving a packet\<close>

definition listening :: "udp_server \<Rightarrow> bool" where
  "listening s \<longleftrightarrow> \<not> us_stopped s \<and> us_receiving s \<and> length (us_recv_buffer s) = 512"

definition idle :: "udp_server \<Rightarrow> udp_server" where
  "idle s = s\<lparr>us_recv_buffer := replicate 512 0, us_receiving := True\<rparr>"

lemma idle_sel [simp]:
  "us_uuid (idle s) = us_uuid s" "us_username (idle s) = us_username s"
  "us_incoming (idle s) = us_incoming s" "us_outbox (idle s) = us_outbox s"
  "us_stopped (idle s) = us_stopped s" "us_transfer (idle s) = us_transfer s"
  "us_recv_buffer (idle s) = replicate 512 0" "us_receiving (idle s)"
  by (simp_all add: idle_def)

lemma listening_idle: "listening s \<Longrightarrow> listening (idle s)"
  by (simp add: listening_def)

lemma deliver_full:
  "length d = 512 \<Longrightarrow> length (us_recv_buffer s) = 512 \<Longrightarrow>
     deliver d s = s\<lparr>us_recv_buffer := d\<rparr>"
  by (simp add: deliver_def)

lemma listen_again_idle:
  "\<not> us_stopped s \<Longrightarrow> length (us_recv_buffer s) = 512 \<Longrightarrow> listen_again (s, w) = (idle s, w)"
  by (simp add: listen_again_def fill_buffer_def start_receive_def idle_def)

text \<open>The object while a packet's handler runs.\<close>

definition handling :: "byte list \<Rightarrow> udp_server \<Rightarrow> udp_server" where
  "handling buf s = s\<lparr>us_recv_buffer := buf, us_receiving := False\<rparr>"

lemma handling_sel [simp]:
  "us_uuid (handling b s) = us_uuid s" "us_username (handling b s) = us_username s"
  "us_incoming (handling b s) = us_incoming s" "us_outbox (handling b s) = us_outbox s"
  "us_stopped (handling b s) = us_stopped s" "us_transfer (handling b s) = us_transfer s"
  "us_recv_buffer (handling b s) = b"
  by (simp_all add: handling_def)

lemma idle_handling [simp]: "idle (handling b s) = idle s"
  by (simp add: idle_def handling_def)

lemma receive_packet:
  assumes "packet_ok p" "listening s"
  shows "receive ev (get_bytes p) (s, w) =
    (case dispatch ev (get_bytes p) (handling (get_bytes p) s, packet_seen (us_uuid s) w) of
       (Inl e, c2) \<Rightarrow> (Inl e, c2) | (Inr _, c2) \<Rightarrow> (Inr (), listen_again c2))"
proof -
  have l: "length (get_bytes p) = 512" "length (us_recv_buffer s) = 512" "\<not> us_stopped s"
    using assms length_get_bytes by (simp_all add: listening_def)
  have "accepts (get_bytes p)" using packet_accepted [OF assms(1)] .
  then show ?thesis
    using l by (simp add: receive_def handle_receive_def deliver_full handling_def Let_def
        split: prod.split sum.split)
qed

lemma listen_again_handling:
  "listening s \<Longrightarrow> length b = 512 \<Longrightarrow> listen_again (handling b s, w) = (idle s, w)"
  by (simp add: listen_again_idle listening_def)

text \<open>A datagram that fails the test of header and checksum is only a sign of life.\<close>

lemma receive_refused:
  assumes "listening s" "length d = 512" "\<not> accepts d"
  shows "receive ev d (s, w) = (Inr (), (idle s, packet_seen (us_uuid s) w))"
  using assms
  by (simp add: receive_def handle_receive_def deliver_full listening_def listen_again_def
      fill_buffer_def start_receive_def idle_def)

lemma dispatch_packet:
  assumes "packet_ok p"
  shows "dispatch ev (get_bytes p) c =
    (if pk_type p = byte_of CHR ''T'' then (Inr (), handle_text ev (pk_message p) c)
     else if pk_type p = byte_of CHR ''O'' then handle_control ev (get_bytes p) (pk_message p) c
     else if pk_type p = byte_of CHR ''F'' then handle_file ev (get_bytes p) (pk_message p) c
     else (Inr (), c))"
  using packet_fields [OF assms] by (simp add: dispatch_def)

lemma packet_checksum: "packet_ok p \<Longrightarrow> CRC32 (pk_message p) = received_checksum (get_bytes p)"
  using packet_fields [of p] by (metis accepts_def)

section \<open>Lemmas: texts\<close>

text \<open>What the process state becomes when a friend's text is stored.\<close>

definition text_arrives :: "string \<Rightarrow> string \<Rightarrow> world \<Rightarrow> world" where
  "text_arrives u msg w =
     (let w1 = save_message_now u msg ''friend'' w in
      if u \<noteq> g_selected_user w
      then w1\<lparr>g_notifications_count := AList.update u (notifications w u + 1) (g_notifications_count w)\<rparr>
      else w1)"

lemma handle_text_stored:
  assumes "length enc \<le> 493" "enc \<noteq> []" "m = content_array (put16 (word_of_nat (length enc)) @ enc)"
    and "load_key (w_fs w) (us_uuid s) = Inr key" "aes_decrypt ev enc key = Inr msg" "msg \<noteq> []"
  shows "handle_text ev m (s, w) = (s, text_arrives (us_uuid s) msg w)"
  using prefixed_read [OF assms(1,3)] word16_small [OF assms(1,2)] length_prefix [OF assms(1)] assms(4-6)
  by (simp add: handle_text_def Let_def text_arrives_def save_message_now_def notifications_def)

lemma send_text_encrypted:
  assumes "evp_laws ev" "entropy_ok (w_entropy w)" "load_key (w_fs w) (us_uuid s) = Inr key"
  obtains enc p s' w' where "send_text ev msg (s, w) = (s', w')"
    "us_outbox s' = us_outbox s @ [get_bytes p]" "packet_ok p" "pk_type p = byte_of CHR ''T''"
    "pk_message p = pad495 (put16 (word_of_nat (length enc)) @ enc)"
    "length enc = 16 + 16 * (min (length msg) 477 div 16 + 1)"
    "aes_decrypt ev enc key = Inr (take 477 msg)" "w_fs w' = w_fs w" "entropy_ok (w_entropy w')"
proof -
  obtain c e' where c: "aes_encrypt ev (take 477 msg) key (w_entropy w) = (Inr c, e')"
    "length c = 16 + 16 * (length (take 477 msg) div 16 + 1)"
    "aes_decrypt ev c key = Inr (take 477 msg)" "entropy_ok e'"
    using aes_encryptE [OF assms(1,2) load_key_length [OF assms(3)]] by blast
  have cut: "(if 477 < length msg then take 477 msg else msg) = take 477 msg" by simp
  show thesis
    using that [of _ _ "packet_of_string (byte_of CHR ''T'') 0 (get_messageID (shd (w_rands w))) 0
        (put16 (word_of_nat (length c)) @ c)" c] c assms(3)
    by (simp add: send_text_def cut Let_def next_rand_def send_arr_def del: if_split)
qed

section \<open>A concrete friend\<close>

text \<open>A friend \<open>f\<close> with a key, for instances of the properties.\<close>

definition sample_fs :: "byte list \<Rightarrow> filesys" where
  "sample_fs key = \<lparr>fs_files = [(friend_file ''f'' ''AES'', hex_string key)],
     fs_dirs = [[''friends''], [''friends'', ''f'']]\<rparr>"

definition sample_world :: "filesys \<Rightarrow> world" where
  "sample_world fs = \<lparr>w_fs = fs, w_now = 0, w_date = ''2025-01-02'', w_time = ''10:11:12'',
     w_entropy = plain_entropy, w_rands = sconst 41, g_uuid = ''u'', g_selected_user = [],
     g_last_packets_times = [], g_notifications_count = [], g_connection_to_server_active = False,
     g_my_local_ip = [], g_public_ip = [], g_c_server_uuid = [], g_found_peers = []\<rparr>"

definition sample_server :: "string \<Rightarrow> udp_server" where
  "sample_server u = \<lparr>us_uuid = u, us_username = [], us_stopped = False, us_open = True, us_port = 9000,
     us_target = (''10.0.0.2'', 9001), us_recv_buffer = replicate 512 0, us_receiving = True,
     us_punching = True, us_transfer = None, us_incoming = [], us_outbox = []\<rparr>"

lemma sample_sel [simp]:
  "w_fs (sample_world fs) = fs" "w_entropy (sample_world fs) = plain_entropy"
  "us_uuid (sample_server u) = u" "listening (sample_server u)" "us_outbox (sample_server u) = []"
  "us_incoming (sample_server u) = []" "us_transfer (sample_server u) = None"
  "us_username (sample_server u) = []" "\<not> us_stopped (sample_server u)"
  by (simp_all add: sample_world_def sample_server_def listening_def)

lemma sample_key: "length key = 32 \<Longrightarrow> load_key (sample_fs key) ''f'' = Inr key"
  by (rule load_key_of_hex)
    (simp_all add: sample_fs_def fs_read_def is_directory_def friend_file_plain plain_name_def is_sep_def)

section \<open>Properties of texts\<close>

lemma text_goes_through:
  assumes "evp_laws ev" "entropy_ok (w_entropy w)" "listening r"
    and "load_key (w_fs w) (us_uuid s) = Inr key" "load_key (w_fs v) (us_uuid r) = Inr key"
    and "msg \<noteq> []" "length msg \<le> 463"
  shows "\<exists>d. length d = 512
    \<and> us_outbox (fst (send_text ev msg (s, w))) = us_outbox s @ [d]
    \<and> receive ev d (r, v) =
        (Inr (), (idle r, text_arrives (us_uuid r) msg (packet_seen (us_uuid r) v)))"
proof -
  obtain enc p s' w' where snd: "send_text ev msg (s, w) = (s', w')"
    "us_outbox s' = us_outbox s @ [get_bytes p]" "packet_ok p" "pk_type p = byte_of CHR ''T''"
    "pk_message p = pad495 (put16 (word_of_nat (length enc)) @ enc)"
    "length enc = 16 + 16 * (min (length msg) 477 div 16 + 1)"
    "aes_decrypt ev enc key = Inr (take 477 msg)"
    using send_text_encrypted [OF assms(1,2,4)] by metis
  have "length msg div 16 \<le> 28" using div_le_mono [OF assms(7), of 16] by simp
  then have len: "length enc \<le> 493" "enc \<noteq> []" using snd(6) assms(7) by auto
  let ?h = "handling (get_bytes p) r" and ?v = "packet_seen (us_uuid r) v"
  have "pk_message p = content_array (put16 (word_of_nat (length enc)) @ enc)"
    using snd(5) len by (simp add: pad495_content)
  then have "handle_text ev (pk_message p) (?h, ?v) = (?h, text_arrives (us_uuid r) msg ?v)"
    using handle_text_stored [OF len, of _ ?v ?h key ev msg] assms(5,6,7) snd(7) by simp
  then have "receive ev (get_bytes p) (r, v) = (Inr (), (idle r, text_arrives (us_uuid r) msg ?v))"
    using assms(3) snd(3,4) length_get_bytes [OF snd(3)]
    by (simp add: receive_packet dispatch_packet listen_again_handling)
  then show ?thesis using snd(1,2) length_get_bytes [OF snd(3)] by auto
qed

text \<open>
  C9: end-to-end delivery. A text of 1 to 463 characters sent to a friend who shares the AES key
  becomes one 512-byte datagram; the friend's object stores exactly this text in the conversation,
  counts a notification unless the conversation is selected, sees the sender online and listens
  again with a cleared buffer. Nothing else of its state changes.
\<close>

theorem text_delivered:
  assumes "evp_laws ev" "entropy_ok (w_entropy w)" "listening r"
    and "load_key (w_fs w) (us_uuid s) = Inr key" "load_key (w_fs v) (us_uuid r) = Inr key"
    and "msg \<noteq> []" "length msg \<le> 463"
  shows "\<exists>d. length d = 512
    \<and> us_outbox (fst (send_text ev msg (s, w))) = us_outbox s @ [d]
    \<and> receive ev d (r, v) =
        (Inr (), (idle r, text_arrives (us_uuid r) msg (packet_seen (us_uuid r) v)))"
  by (rule text_goes_through [OF assms])

theorem text_delivered_witness:
  "\<exists>d. length d = 512
    \<and> us_outbox (fst (send_text plain_evp ''hi'' (sample_server ''f'', sample_world (sample_fs (replicate 32 7)))))
        = us_outbox (sample_server ''f'') @ [d]
    \<and> receive plain_evp d (sample_server ''f'', sample_world (sample_fs (replicate 32 7)))
        = (Inr (), (idle (sample_server ''f''), text_arrives (us_uuid (sample_server ''f'')) ''hi''
            (packet_seen (us_uuid (sample_server ''f'')) (sample_world (sample_fs (replicate 32 7))))))"
  by (rule text_delivered [OF plain_evp_laws, where key = "replicate 32 7"])
    (simp_all add: plain_entropy_ok sample_key)

text \<open>
  C36: a text of 464 characters or more is never delivered. The sender cuts it at 477, but the
  ciphertext is then 496 bytes and the receiver refuses lengths over 493: apart from the sign of
  life the datagram changes nothing on the friend's side.
\<close>

theorem long_text_lost:
  assumes "evp_laws ev" "entropy_ok (w_entropy w)" "listening r"
    and "load_key (w_fs w) (us_uuid s) = Inr key" "464 \<le> length msg"
  shows "\<exists>d. us_outbox (fst (send_text ev msg (s, w))) = us_outbox s @ [d]
    \<and> receive ev d (r, v) = (Inr (), (idle r, packet_seen (us_uuid r) v))"
proof -
  obtain enc p s' w' where snd: "send_text ev msg (s, w) = (s', w')"
    "us_outbox s' = us_outbox s @ [get_bytes p]" "packet_ok p" "pk_type p = byte_of CHR ''T''"
    "pk_message p = pad495 (put16 (word_of_nat (length enc)) @ enc)"
    "length enc = 16 + 16 * (min (length msg) 477 div 16 + 1)"
    using send_text_encrypted [OF assms(1,2,4)] by metis
  have "min (length msg) 477 div 16 = 29" using assms(5) by (simp add: min_def) linarith
  then have len: "length enc = 496" using snd(6) by simp
  have "pk_message p = put16 496 @ take 493 enc"
    using snd(5) len by (simp add: pad495_def)
  then have "get16 (pk_message p ! 0) (pk_message p ! 1) = 496"
    by (simp add: put16_def get16_def)
  then have "handle_text ev (pk_message p) c = c" for c
    by (simp add: handle_text_def Let_def split: prod.split)
  then have "receive ev (get_bytes p) (r, v) = (Inr (), (idle r, packet_seen (us_uuid r) v))"
    using assms(3) snd(3,4) length_get_bytes [OF snd(3)]
    by (simp add: receive_packet dispatch_packet listen_again_handling)
  then show ?thesis using snd(1,2) by auto
qed

theorem long_text_lost_witness:
  "\<exists>d. us_outbox (fst (send_text plain_evp (replicate 464 CHR ''a'')
          (sample_server ''f'', sample_world (sample_fs (replicate 32 7)))))
        = us_outbox (sample_server ''f'') @ [d]
    \<and> receive plain_evp d (sample_server ''f'', sample_world (sample_fs (replicate 32 7)))
        = (Inr (), (idle (sample_server ''f''),
            packet_seen (us_uuid (sample_server ''f'')) (sample_world (sample_fs (replicate 32 7)))))"
  by (rule long_text_lost [OF plain_evp_laws, where key = "replicate 32 7"])
    (simp_all add: plain_entropy_ok sample_key)

text \<open>
  Without a usable key the text still leaves the machine, readable: the content of the datagram
  is the text itself (its first 477 characters), padded with zeros.
\<close>

lemma no_key_sends_plaintext:
  assumes "load_key (w_fs w) (us_uuid s) = Inl err"
  shows "\<exists>d. us_outbox (fst (send_text ev msg (s, w))) = us_outbox s @ [d]
    \<and> accepts d \<and> actual_data d = pad495 (bytes_of (take 477 msg))"
proof -
  let ?p = "packet_of_string (byte_of CHR ''T'') 0 (get_messageID (shd (w_rands w))) 0
      (bytes_of (take 477 msg))"
  have "us_outbox (fst (send_text ev msg (s, w))) = us_outbox s @ [get_bytes ?p]"
    using assms by (simp add: send_text_def Let_def next_rand_def send_arr_def take_map)
  moreover have "accepts (get_bytes ?p)" "actual_data (get_bytes ?p) = pad495 (bytes_of (take 477 msg))"
    using packet_fields [of ?p] by simp_all
  ultimately show ?thesis by blast
qed

lemma no_key_sends_plaintext_witness:
  "\<exists>d. us_outbox (fst (send_text plain_evp ''hi''
          (sample_server ''g'', sample_world (sample_fs (replicate 32 7)))))
        = us_outbox (sample_server ''g'') @ [d]
    \<and> accepts d \<and> actual_data d = pad495 (bytes_of (take 477 ''hi''))"
  by (rule no_key_sends_plaintext [where err = "Throw (RuntimeError ''no key'')"])
    (simp add: load_key_def sample_fs_def fs_read_def is_directory_def friend_file_plain
      plain_name_def is_sep_def throw_def)

end
