(* ===== verification/UdpKeys.thy ===== *)
theory UdpKeys
  imports UdpTexts
begin

text \<open>
  The key exchange between two \<open>udp_server\<close> objects: \<open>send_ECC_public_key\<close>, its handler, which
  draws a fresh AES key and wraps it, and the handler that unwraps and stores it. Afterwards both
  machines hold the same key.
\<close>

section \<open>Lemmas: the announced public key\<close>

lemma announced_key:
  assumes "length k = 32" "m = content_array ([byte_of CHR ''P''] @ k @ k @ k)"
  shows "length m = 495" "m ! 0 = byte_of CHR ''P''" "take 32 (drop 1 m) = k"
    and "list_all (\<lambda>i. m ! (1 + i) = m ! (33 + i) \<and> m ! (33 + i) = m ! (65 + i)) [0..<32]"
proof -
  have m: "m = byte_of CHR ''P'' # k @ k @ k @ replicate 398 0"
    using assms by (simp add: content_array_def)
  show "length m = 495" "m ! 0 = byte_of CHR ''P''" "take 32 (drop 1 m) = k"
    using m assms(1) by simp_all
  show "list_all (\<lambda>i. m ! (1 + i) = m ! (33 + i) \<and> m ! (33 + i) = m ! (65 + i)) [0..<32]"
    using m assms(1) by (simp add: list_all_iff nth_append)
qed

lemma send_public_key:
  assumes "fs_read (w_fs w) ecc_pub_file = Some (string_of k)" "length k = 32"
  obtains p w' where
    "send_ECC_public_key (s, w) = (Inr (), (send_arr (get_bytes p) s, w'))"
    "packet_ok p" "pk_type p = byte_of CHR ''O''"
    "pk_message p = content_array ([byte_of CHR ''P''] @ k @ k @ k)" "w_fs w' = w_fs w"
    "w_date w' = w_date w" "w_time w' = w_time w" "w_entropy w' = w_entropy w"
proof -
  let ?arr = "content_array ([byte_of CHR ''P''] @ k @ k @ k)"
  let ?p = "packet_of_array (byte_of CHR ''O'') 0 (get_messageID (shd (w_rands w))) 0 ?arr"
  have "packet_ok ?p" using assms(2) by (simp add: length_content_array)
  moreover have "send_ECC_public_key (s, w)
      = (Inr (), (send_arr (get_bytes ?p) s, w\<lparr>w_rands := stl (w_rands w)\<rparr>))"
    using assms by (simp add: send_ECC_public_key_def read_file_def ecc_pub_file_def [symmetric]
        next_rand_def Let_def)
  ultimately show thesis using that [of ?p] by simp
qed

section \<open>Lemmas: the wrapped key\<close>

definition wrapped_content :: "string \<Rightarrow> byte list" where
  "wrapped_content m = content_array ([byte_of CHR ''A''] @ put16 (word_of_nat (length m)) @ bytes_of m)"

lemma wrapped_read:
  assumes "length m = 96"
  shows "length (wrapped_content m) = 495" "wrapped_content m ! 0 = byte_of CHR ''A''"
    and "get16 (wrapped_content m ! 1) (wrapped_content m ! 2) = 96"
    and "string_of (take 96 (drop 3 (wrapped_content m))) = m"
proof -
  have m: "wrapped_content m = byte_of CHR ''A'' # put16 (word_of_nat (length m)) @ bytes_of m @ replicate 396 0"
    using assms by (simp add: wrapped_content_def content_array_def)
  show "length (wrapped_content m) = 495" "wrapped_content m ! 0 = byte_of CHR ''A''"
    "string_of (take 96 (drop 3 (wrapped_content m))) = m"
    using assms m by (simp_all add: put16_def)
  show "get16 (wrapped_content m ! 1) (wrapped_content m ! 2) = 96"
    using assms m by (simp add: put16_def get16_def)
qed

lemma generate_AES_fresh:
  assumes "entropy_ok e" "generate_AES fs u e = (key, fs', e')"
  shows "length key = 32" "entropy_ok e'" "fs' = fs_write fs (friend_file u ''AES'') (hex_string key)"
  using entropy_okD [OF assms(1)] assms(2)
  by (fastforce simp: generate_AES_def Let_def split: prod.splits)+

lemma send_wrapped_key:
  assumes "evp_laws ev" "entropy_ok (w_entropy w)" "length priv = 32" "x25519_public ev priv = Some pub"
  obtains key m p w' where
    "send_encrypted_AES_key ev pub (s, w) = (Inr (), (send_arr (get_bytes p) s, w'))"
    "packet_ok p" "pk_type p = byte_of CHR ''O''" "pk_message p = wrapped_content m"
    "length m = 96" "length key = 32"
    "w_fs w' = fs_write (w_fs w) (friend_file (us_uuid s) ''AES'') (hex_string key)"
    "\<And>fs. fs_read fs ecc_file = Some (string_of priv) \<Longrightarrow> decrypt_ECC ev fs m = Inr key"
    "w_date w' = w_date w" "w_time w' = w_time w" "entropy_ok (w_entropy w')"
proof -
  obtain key fs1 e1 where g: "generate_AES (w_fs w) (us_uuid s) (w_entropy w) = (key, fs1, e1)"
    by (metis prod.exhaust)
  note gk = generate_AES_fresh [OF assms(2) g]
  let ?fs0 = "\<lparr>fs_files = [(ecc_file, string_of priv)], fs_dirs = []\<rparr>"
  have "fs_read ?fs0 ecc_file = Some (string_of priv)"
    by (simp add: fs_read_def is_directory_def ecc_file_def resolve_def resolve_step_def is_sep_def)
  then obtain m e2 where m: "encrypt_ECC ev key pub e1 = (Inr m, e2)" "length m = 96" "entropy_ok e2"
    using wrap_unwrap [OF assms(1) gk(2,1) assms(3,4)] by metis
  have dec: "decrypt_ECC ev fs m = Inr key" if "fs_read fs ecc_file = Some (string_of priv)" for fs
    using wrap_unwrap [OF assms(1) gk(2,1) assms(3,4) that] m(1) by (metis Inr_inject prod.inject)
  let ?p = "packet_of_array (byte_of CHR ''O'') 0 (get_messageID (shd (w_rands w))) 0 (wrapped_content m)"
  have "packet_ok ?p" using wrapped_read(1) [OF m(2)] by simp
  moreover have "send_encrypted_AES_key ev pub (s, w) = (Inr (), (send_arr (get_bytes ?p) s,
      w\<lparr>w_fs := fs1, w_entropy := e2, w_rands := stl (w_rands w)\<rparr>))"
    using g m by (simp add: send_encrypted_AES_key_def wrapped_content_def next_rand_def Let_def)
  ultimately show thesis using that [of ?p _ m key] dec m(2,3) gk by simp
qed

text \<open>The two handlers, on genuine packets.\<close>

lemma receive_announced:
  assumes "evp_laws ev" "entropy_ok (w_entropy v)" "listening b" "length priv = 32"
    and "x25519_public ev priv = Some pub" "length pub = 32"
    and "packet_ok p" "pk_type p = byte_of CHR ''O''"
    and "pk_message p = content_array ([byte_of CHR ''P''] @ pub @ pub @ pub)"
  obtains key m p2 v1 where
    "receive ev (get_bytes p) (b, v) = (Inr (), (idle (send_arr (get_bytes p2) b), v1))"
    "packet_ok p2" "pk_type p2 = byte_of CHR ''O''" "pk_message p2 = wrapped_content m"
    "length m = 96" "length key = 32"
    "w_fs v1 = fs_write (w_fs v) (friend_file (us_uuid b) ''AES'') (hex_string key)"
    "\<And>fs. fs_read fs ecc_file = Some (string_of priv) \<Longrightarrow> decrypt_ECC ev fs m = Inr key"
    "w_date v1 = w_date v" "w_time v1 = w_time v" "entropy_ok (w_entropy v1)"
proof (rule send_wrapped_key [OF assms(1) _ assms(4,5),
      where w = "packet_seen (us_uuid b) v" and s = "handling (get_bytes p) b"])
  show "entropy_ok (w_entropy (packet_seen (us_uuid b) v))" using assms(2) by simp
next
  fix key m p2 v1
  let ?b = "handling (get_bytes p) b" and ?v = "packet_seen (us_uuid b) v"
  assume snd: "send_encrypted_AES_key ev pub (?b, ?v) = (Inr (), (send_arr (get_bytes p2) ?b, v1))"
    and p2: "packet_ok p2" "pk_type p2 = byte_of CHR ''O''" "pk_message p2 = wrapped_content m"
    "length m = 96" "length key = 32"
    "w_fs v1 = fs_write (w_fs ?v) (friend_file (us_uuid ?b) ''AES'') (hex_string key)"
    "\<And>fs. fs_read fs ecc_file = Some (string_of priv) \<Longrightarrow> decrypt_ECC ev fs m = Inr key"
    "w_date v1 = w_date ?v" "w_time v1 = w_time ?v" "entropy_ok (w_entropy v1)"
  have "CRC32 (pk_message p) = received_checksum (get_bytes p)"
    using assms(7) by (rule packet_checksum)
  then have "handle_control ev (get_bytes p) (pk_message p) (?b, ?v)
      = (Inr (), (send_arr (get_bytes p2) ?b, v1))"
    using announced_key [OF assms(6,9)] snd
    by (simp add: handle_control_def handle_public_key_def)
  then have "receive ev (get_bytes p) (b, v) = (Inr (), (idle (send_arr (get_bytes p2) b), v1))"
    using assms(3,7,8) length_get_bytes [OF assms(7)]
    by (simp add: receive_packet dispatch_packet listening_def send_arr_def handling_def
        listen_again_def fill_buffer_def start_receive_def idle_def)
  then show thesis using that [of p2 v1 m key] p2 by (simp add: packet_seen_def)
qed

lemma receive_wrapped:
  assumes "listening a" "packet_ok p" "pk_type p = byte_of CHR ''O''"
    and "pk_message p = wrapped_content m" "length m = 96" "decrypt_ECC ev (w_fs w) m = Inr key"
  shows "receive ev (get_bytes p) (a, w) = (Inr (), (idle a, (packet_seen (us_uuid a) w)
     \<lparr>w_fs := fs_write (w_fs w) (friend_file (us_uuid a) ''AES'') (hex_string key)\<rparr>))"
proof -
  have "handle_control ev (get_bytes p) (pk_message p) (handling (get_bytes p) a, packet_seen (us_uuid a) w)
     = (Inr (), (handling (get_bytes p) a, (packet_seen (us_uuid a) w)
     \<lparr>w_fs := fs_write (w_fs w) (friend_file (us_uuid a) ''AES'') (hex_string key)\<rparr>))"
    using wrapped_read [OF assms(5)] assms(4,6)
    by (simp add: handle_control_def handle_key_def Let_def)
  then show ?thesis
    using assms(1-3) length_get_bytes [OF assms(2)]
    by (simp add: receive_packet dispatch_packet listen_again_handling)
qed

text \<open>The whole exchange.\<close>

lemma keys_exchanged:
  assumes "evp_laws ev" "entropy_ok (w_entropy v)" "listening a" "listening b"
    and "fs_read (w_fs w) ecc_file = Some (string_of priv)" "length priv = 32"
    and "x25519_public ev priv = Some pub" "length pub = 32"
    and "fs_read (w_fs w) ecc_pub_file = Some (string_of pub)"
  obtains d1 w1 d2 v1 w2 key where
    "send_ECC_public_key (a, w) = (Inr (), (send_arr d1 a, w1))"
    "receive ev d1 (b, v) = (Inr (), (idle (send_arr d2 b), v1))"
    "receive ev d2 (send_arr d1 a, w1) = (Inr (), (idle (send_arr d1 a), w2))"
    "w_fs w2 = fs_write (w_fs w) (friend_file (us_uuid a) ''AES'') (hex_string key)"
    "w_fs v1 = fs_write (w_fs v) (friend_file (us_uuid b) ''AES'') (hex_string key)"
    "length key = 32" "w_date w2 = w_date w" "w_time w2 = w_time w" "w_entropy w2 = w_entropy w"
    "w_date v1 = w_date v" "w_time v1 = w_time v" "entropy_ok (w_entropy v1)"
proof -
  obtain p1 w1 where p1: "send_ECC_public_key (a, w) = (Inr (), (send_arr (get_bytes p1) a, w1))"
    "packet_ok p1" "pk_type p1 = byte_of CHR ''O''"
    "pk_message p1 = content_array ([byte_of CHR ''P''] @ pub @ pub @ pub)" "w_fs w1 = w_fs w"
    "w_date w1 = w_date w" "w_time w1 = w_time w" "w_entropy w1 = w_entropy w"
    using send_public_key [OF assms(9,8)] by blast
  obtain key m p2 v1 where p2:
    "receive ev (get_bytes p1) (b, v) = (Inr (), (idle (send_arr (get_bytes p2) b), v1))"
    "packet_ok p2" "pk_type p2 = byte_of CHR ''O''" "pk_message p2 = wrapped_content m"
    "length m = 96" "length key = 32"
    "w_fs v1 = fs_write (w_fs v) (friend_file (us_uuid b) ''AES'') (hex_string key)"
    "w_date v1 = w_date v" "w_time v1 = w_time v" "decrypt_ECC ev (w_fs w) m = Inr key"
    "entropy_ok (w_entropy v1)"
    using receive_announced [OF assms(1,2,4,6,7,8) p1(2-4)] assms(5) by metis
  let ?a1 = "send_arr (get_bytes p1) a"
  have a1: "listening ?a1" "us_uuid ?a1 = us_uuid a"
    using assms(3) by (simp_all add: send_arr_def listening_def)
  have "decrypt_ECC ev (w_fs w1) m = Inr key" using p2(10) p1(5) by simp
  note ra = receive_wrapped [OF a1(1) p2(2-5) this]
  show thesis
    by (rule that [OF p1(1) p2(1) ra _ p2(7,6) _ _ _ p2(8,9,11)]) (use p1(5-8) a1(2) in \<open>simp_all add: packet_seen_def\<close>)
qed

section \<open>Properties of the exchange\<close>

text \<open>
  Key agreement. When A, whose key pair is in \<open>user_settings\<close>, announces its public key to B,
  B answers with one datagram, and after A has received it the key files of both hold the same
  32-byte key, drawn afresh by B; neither handler fails.
\<close>

lemma key_agreement:
  assumes "evp_laws ev" "entropy_ok (w_entropy v)" "listening a" "listening b"
    and "fs_read (w_fs w) ecc_file = Some (string_of priv)" "length priv = 32"
    and "x25519_public ev priv = Some pub" "length pub = 32"
    and "fs_read (w_fs w) ecc_pub_file = Some (string_of pub)"
    and "can_write (w_fs w) (friend_file (us_uuid a) ''AES'')"
    and "can_write (w_fs v) (friend_file (us_uuid b) ''AES'')"
  shows "\<exists>d1 a1 w1 d2 b1 v1 a2 w2 key.
    send_ECC_public_key (a, w) = (Inr (), (a1, w1)) \<and> us_outbox a1 = us_outbox a @ [d1]
    \<and> receive ev d1 (b, v) = (Inr (), (b1, v1)) \<and> us_outbox b1 = us_outbox b @ [d2]
    \<and> receive ev d2 (a1, w1) = (Inr (), (a2, w2))
    \<and> load_key (w_fs w2) (us_uuid a) = Inr key \<and> load_key (w_fs v1) (us_uuid b) = Inr key
    \<and> length key = 32"
proof -
  obtain d1 w1 d2 v1 w2 key where e:
    "send_ECC_public_key (a, w) = (Inr (), (send_arr d1 a, w1))"
    "receive ev d1 (b, v) = (Inr (), (idle (send_arr d2 b), v1))"
    "receive ev d2 (send_arr d1 a, w1) = (Inr (), (idle (send_arr d1 a), w2))"
    "w_fs w2 = fs_write (w_fs w) (friend_file (us_uuid a) ''AES'') (hex_string key)"
    "w_fs v1 = fs_write (w_fs v) (friend_file (us_uuid b) ''AES'') (hex_string key)" "length key = 32"
    using keys_exchanged [OF assms(1-9)] by metis
  then have "load_key (w_fs w2) (us_uuid a) = Inr key" "load_key (w_fs v1) (us_uuid b) = Inr key"
    using assms(10,11) by (simp_all add: load_key_of_hex fs_read_simps)
  then show ?thesis using e by (auto simp: send_arr_def)
qed

definition keyed_fs :: filesys where
  "keyed_fs = \<lparr>fs_files = [(ecc_file, string_of (replicate 32 9)), (ecc_pub_file, string_of (replicate 32 9))],
     fs_dirs = [[''user_settings''], [''friends''], [''friends'', ''f'']]\<rparr>"

lemma key_agreement_witness:
  "\<exists>d1 a1 w1 d2 b1 v1 a2 w2 key.
    send_ECC_public_key (sample_server ''f'', sample_world keyed_fs) = (Inr (), (a1, w1))
    \<and> us_outbox a1 = us_outbox (sample_server ''f'') @ [d1]
    \<and> receive plain_evp d1 (sample_server ''f'', sample_world keyed_fs) = (Inr (), (b1, v1))
    \<and> us_outbox b1 = us_outbox (sample_server ''f'') @ [d2]
    \<and> receive plain_evp d2 (a1, w1) = (Inr (), (a2, w2))
    \<and> load_key (w_fs w2) (us_uuid (sample_server ''f'')) = Inr key
    \<and> load_key (w_fs v1) (us_uuid (sample_server ''f'')) = Inr key \<and> length key = 32"
  by (rule key_agreement [OF plain_evp_laws, where priv = "replicate 32 9" and pub = "replicate 32 9"])
    (simp_all add: plain_entropy_ok plain_evp_def keyed_fs_def fs_read_def can_write_def
      is_directory_def ecc_file_def ecc_pub_file_def resolve_def resolve_step_def is_sep_def
      friend_file_plain plain_name_def)

end
