(* ===== verification/UdpFiles.thy ===== *)
theory UdpFiles
  imports UdpTexts
begin

text \<open>
  File transfer between two \<open>udp_server\<close> objects. First the names under which received files are
  stored (the suffix loop of \<open>handle_receive\<close> terminates, the chosen name is new and stays inside
  the friend's directory), then the sender, whose timer emits one encrypted piece per step, then
  the receiver, whose chunk table is the finite map from the numbers of the pieces received so far
  to their contents; a transfer is complete however the pieces are ordered or repeated.
\<close>

section \<open>Lemmas: paths below a directory\<close>

lemma split_path_sep: "is_sep c \<Longrightarrow> split_path cur (a @ c # b) = split_path cur a @ split_path [] b"
  by (induction a arbitrary: cur) simp_all

lemma resolve_in_dir:
  assumes "list_all (\<lambda>c. \<not> is_sep c) name"
  shows "resolve (received_dir u @ name) = resolve_step (resolve (received_dir u)) name"
proof -
  define d where "d = ''./received/'' @ u"
  have sep: "is_sep CHR ''/''" by (simp add: is_sep_def)
  have dir: "received_dir u = d @ CHR ''/'' # []" by (simp add: received_dir_def d_def)
  then have "received_dir u @ name = d @ CHR ''/'' # name" by simp
  then show ?thesis
    unfolding resolve_def dir split_path_sep [OF sep] foldl_append
    by (simp add: split_path_name [OF assms, of "[]", simplified] resolve_step_def split_path_sep [OF sep])
qed

lemma resolve_plain_in_dir:
  "plain_name name \<Longrightarrow> resolve (received_dir u @ name) = resolve (received_dir u) @ [name]"
  by (simp add: resolve_in_dir plain_name_def resolve_step_def)

lemma mkdirs_keeps:
  "mkdirs fs ps = Inr fs' \<Longrightarrow>
     (is_directory fs' q \<longleftrightarrow> is_directory fs q \<or> q \<in> set ps) \<and> fs_read fs' q = fs_read fs q"
proof (induction ps arbitrary: fs)
  case (Cons p ps)
  then have ok: "is_directory fs p \<or> map_of (fs_files fs) p = None"
    and m: "mkdirs (add_dir fs p) ps = Inr fs'" by (auto split: if_splits)
  have "fs_read (add_dir fs p) q = fs_read fs q"
    using ok by (auto simp: fs_read_def is_directory_add_dir)
  then show ?case using Cons.IH [OF m] by (auto simp: is_directory_add_dir)
qed simp

lemma mkdirs_again: "\<forall>p \<in> set ps. is_directory fs p \<Longrightarrow> mkdirs fs ps = Inr fs"
  by (induction ps) (simp_all add: add_dir_def)

lemma create_directories_made:
  assumes "create_directories fs p = Inr fs'"
  shows "is_directory fs' p" "is_directory fs' (butlast p)" "fs_read fs' q = fs_read fs q"
    and "create_directories fs' p = Inr fs'"
proof -
  have m: "mkdirs fs (path_prefixes p) = Inr fs'" using assms by (simp add: create_directories_def)
  have dirs: "\<forall>q \<in> set (path_prefixes p). is_directory fs' q"
    using mkdirs_keeps [OF m] by blast
  have pre: "take n p \<in> set (path_prefixes p)" if "0 < n" "n \<le> length p" for n
    using that by (auto simp: path_prefixes_def simp del: upt_Suc intro: image_eqI [of _ _ n])
  have taken: "is_directory fs' (take n p)" if "n \<le> length p" for n
    using dirs pre [OF _ that] by (cases "n = 0") (simp add: is_directory_def, blast)
  show "is_directory fs' p" using taken [of "length p"] by simp
  show "is_directory fs' (butlast p)" using taken [of "length p - 1"] by (simp add: butlast_conv_take)
  show "fs_read fs' q = fs_read fs q" using mkdirs_keeps [OF m] by blast
  show "create_directories fs' p = Inr fs'" using dirs by (simp add: create_directories_def mkdirs_again)
qed

lemma load_key_cong: "(\<And>q. fs_read fs' q = fs_read fs q) \<Longrightarrow> load_key fs' u = load_key fs u"
  by (simp add: load_key_def)

section \<open>Lemmas: the name of a received file\<close>

lemma free_suffix_total:
  assumes "finite {n. taken n}"
  shows "\<exists>m \<ge> k. free_suffix taken k = Some m \<and> \<not> taken m \<and> (\<forall>j. k \<le> j \<and> j < m \<longrightarrow> taken j)"
proof (induction "card {n. taken n \<and> k \<le> n}" arbitrary: k rule: less_induct)
  case less
  show ?case
  proof (cases "taken k")
    case True
    have fin: "finite {n. taken n \<and> k \<le> n}" using assms by (rule rev_finite_subset) blast
    have "{n. taken n \<and> Suc k \<le> n} = {n. taken n \<and> k \<le> n} - {k}"
      by (auto simp: Suc_le_eq le_less)
    then have "card {n. taken n \<and> Suc k \<le> n} < card {n. taken n \<and> k \<le> n}"
      using card_Diff1_less [OF fin, of k] True by simp
    then obtain m where m: "m \<ge> Suc k" "free_suffix taken (Suc k) = Some m" "\<not> taken m"
      "\<forall>j. Suc k \<le> j \<and> j < m \<longrightarrow> taken j"
      using less by blast
    have "free_suffix taken k = Some m" using m(2) True by (subst free_suffix.simps) simp
    then show ?thesis using m True by (metis Suc_leD Suc_leI le_neq_implies_less)
  next
    case False
    then show ?thesis by (subst free_suffix.simps) auto
  qed
qed

lemma numbered_name_inj: "numbered_name b e m = numbered_name b e n \<longleftrightarrow> m = n"
  by (simp add: numbered_name_def show_nat_inj)

definition no_seps :: "string \<Rightarrow> bool" where
  "no_seps s \<longleftrightarrow> list_all (\<lambda>c. \<not> is_sep c) s"

lemma show_nat_no_seps: "no_seps (show_nat n)"
proof -
  have "\<not> is_sep c" if "is_digit 10 c" for c
    using that by (auto simp: is_sep_def is_digit_def digit_val_def)
  then show ?thesis using show_nat_digits [of n] by (auto simp: no_seps_def list_all_iff)
qed

lemma split_ext_append: "split_ext name = (b, e) \<Longrightarrow> b @ e = name"
proof -
  assume s: "split_ext name = (b, e)"
  show "b @ e = name"
  proof (cases "CHR ''.'' \<in> set name")
    case True
    then obtain r where r: "dropWhile (\<lambda>c. c \<noteq> CHR ''.'') (rev name) = CHR ''.'' # r"
      by (cases "dropWhile (\<lambda>c. c \<noteq> CHR ''.'') (rev name)")
        (auto simp: dropWhile_eq_Cons_conv)
    have "rev name = takeWhile (\<lambda>c. c \<noteq> CHR ''.'') (rev name) @ CHR ''.'' # r"
      using takeWhile_dropWhile_id [of "\<lambda>c. c \<noteq> CHR ''.''" "rev name"] r by simp
    then have "name = rev r @ CHR ''.'' # rev (takeWhile (\<lambda>c. c \<noteq> CHR ''.'') (rev name))"
      by (metis append.assoc append_Cons append_Nil rev.simps(2) rev_append rev_rev_ident)
    then show ?thesis using s True r by (auto simp: split_ext_def)
  next
    case False
    then show ?thesis using s by (simp add: split_ext_def)
  qed
qed

lemma numbered_name_plain:
  assumes "no_seps name" "split_ext name = (b, e)"
  shows "plain_name (numbered_name b e n)"
proof -
  have "no_seps b" "no_seps e" using assms split_ext_append [of name b e] by (auto simp: no_seps_def)
  moreover have "CHR ''('' \<in> set (numbered_name b e n)" by (simp add: numbered_name_def)
  then have "numbered_name b e n \<notin> {[], ''.'', ''..''}" by auto
  ultimately show ?thesis
    using show_nat_no_seps [of n] by (simp add: plain_name_def numbered_name_def no_seps_def is_sep_def)
qed

lemma finite_exists: "finite {p. fs_exists fs p}"
proof -
  have "{p. fs_exists fs p} \<subseteq> {[]} \<union> set (fs_dirs fs) \<union> fst ` set (fs_files fs)"
    by (auto simp: fs_exists_def is_directory_def dest: map_of_SomeD intro: image_eqI [rotated])
  then show ?thesis by (rule finite_subset) simp
qed

lemma unique_name_new:
  assumes "no_seps name" "name \<noteq> []"
    and "is_directory fs (resolve (received_dir u))" "is_directory fs (butlast (resolve (received_dir u)))"
  obtains final where "unique_name fs u name = Inr final" "plain_name final"
    "\<not> fs_exists fs (resolve (received_dir u) @ [final])"
proof (cases "name_taken fs u name")
  case False
  have "plain_name name"
    using False assms by (auto simp: name_taken_def fs_exists_def plain_name_def no_seps_def
        resolve_in_dir is_sep_def resolve_step_def)
  then show thesis
    using that [of name] False by (simp add: unique_name_def name_taken_def resolve_plain_in_dir)
next
  case True
  obtain b e where be: "split_ext name = (b, e)" by (cases "split_ext name")
  note plain = numbered_name_plain [OF assms(1) be]
  let ?f = "\<lambda>n. resolve (received_dir u) @ [numbered_name b e n]"
  have taken: "name_taken fs u (numbered_name b e n) \<longleftrightarrow> fs_exists fs (?f n)" for n
    by (simp add: name_taken_def resolve_plain_in_dir plain)
  have "inj ?f" by (simp add: inj_def numbered_name_inj)
  then have "finite {n. name_taken fs u (numbered_name b e n)}"
    using finite_vimageI [OF finite_exists [of fs], of ?f] by (simp add: taken vimage_def)
  from free_suffix_total [OF this, of 1] obtain m
    where "free_suffix (\<lambda>n. name_taken fs u (numbered_name b e n)) 1 = Some m"
      "\<not> name_taken fs u (numbered_name b e m)" by blast
  then show thesis
    using that [of "numbered_name b e m"] True be plain by (simp add: unique_name_def taken)
qed

lemma header_name_ok: "no_seps (header_name MID actual)" "header_name MID actual \<noteq> []"
  using show_nat_no_seps
  by (auto simp: header_name_def Let_def no_seps_def list_all_iff bad_name_char_def is_sep_def)

lemma handle_file_header_result:
  assumes "create_directories (w_fs w) (resolve (received_dir (us_uuid s))) = Inr fs"
  obtains final where
    "handle_file_header MID actual (s, w) = (Inr (), (s\<lparr>us_incoming := AList.update MID
       \<lparr>if_total = get48 (actual ! 0) (actual ! 1) (actual ! 2) (actual ! 3) (actual ! 4) (actual ! 5),
        if_name = final, if_chunks = []\<rparr> (us_incoming s)\<rparr>, w\<lparr>w_fs := fs\<rparr>))"
    "unique_name fs (us_uuid s) (header_name MID actual) = Inr final" "plain_name final"
    "\<not> fs_exists fs (resolve (received_dir (us_uuid s)) @ [final])"
proof -
  note made = create_directories_made [OF assms]
  obtain final where f: "unique_name fs (us_uuid s) (header_name MID actual) = Inr final"
    "plain_name final" "\<not> fs_exists fs (resolve (received_dir (us_uuid s)) @ [final])"
    using unique_name_new [OF header_name_ok made(1,2)] by blast
  then show thesis using that [of final] assms by (simp add: handle_file_header_def Let_def)
qed

section \<open>Lemmas: undefined behaviour of the handlers\<close>

lemma handle_file_header_safe: "\<not> is_ub (fst (handle_file_header MID actual (s, w)))"
proof (cases "create_directories (w_fs w) (resolve (received_dir (us_uuid s)))")
  case (Inl e)
  then show ?thesis
    using create_directories_not_ub [of "w_fs w" "resolve (received_dir (us_uuid s))"]
    by (cases e) (simp_all add: handle_file_header_def Let_def)
next
  case (Inr fs)
  show ?thesis by (rule handle_file_header_result [OF Inr, of MID actual]) simp
qed

lemma handle_file_data_safe: "\<not> is_ub (fst (handle_file_data ev MID PID actual (s, w)))"
  using create_directories_not_ub [of "w_fs w" "resolve (received_dir (us_uuid s))"]
  by (auto simp: handle_file_data_def is_ub_Inl Let_def split: option.split sum.split)

lemma send_encrypted_AES_key_safe:
  assumes "evp_laws ev" "entropy_ok (w_entropy w)"
  shows "\<not> is_ub (fst (send_encrypted_AES_key ev pub (s, w)))"
proof -
  obtain key fs1 e1 where g: "generate_AES (w_fs w) (us_uuid s) (w_entropy w) = (key, fs1, e1)"
    by (metis prod.exhaust)
  have k: "length key = 32" "entropy_ok e1"
    using entropy_okD [OF assms(2)] g by (fastforce simp: generate_AES_def Let_def split: prod.splits)+
  obtain r e2 where r: "encrypt_ECC ev key pub e1 = (r, e2)" by (metis prod.exhaust)
  show ?thesis
  proof (cases r)
    case (Inl e)
    then show ?thesis using encrypt_ECC_not_ub [of ev key pub e1] g r
      by (cases e) (simp_all add: send_encrypted_AES_key_def Let_def)
  next
    case (Inr m)
    then have "length m = 96" using encrypt_ECC_length [OF assms(1) k(2,1)] r by simp
    then show ?thesis using g r Inr by (simp add: send_encrypted_AES_key_def Let_def next_rand_def)
  qed
qed

text \<open>The two control packets that make the receiver read outside an object.\<close>

definition overreads :: "byte list \<Rightarrow> bool" where
  "overreads buf \<longleftrightarrow> accepts buf \<and> buf ! 1 = byte_of CHR ''O'' \<and>
     (buf ! 13 = byte_of CHR ''N'' \<and> 0 \<notin> set (drop 14 buf)
      \<or> buf ! 13 = byte_of CHR ''A'' \<and> get16 (buf ! 14) (buf ! 15) > 492)"

lemma fs_remove_not_ub: "\<not> is_ub (fs_remove fs p)"
  by (simp add: fs_remove_def)

lemma handle_username_ub:
  "is_ub (fst (handle_username buf (s, w))) \<longleftrightarrow> 0 \<notin> set (drop 14 buf)"
  using fs_remove_not_ub [of "w_fs w" "friend_file (us_uuid s) ''username.txt''"]
  by (auto simp: handle_username_def c_string_def is_ub_Inl Let_def split: sum.split)

lemma word16_gt: "(492 :: u16) < x \<longleftrightarrow> 492 < unat x"
  by (simp add: word_less_nat_alt)

lemma actual_nth: "length buf = 512 \<Longrightarrow> i < 495 \<Longrightarrow> actual_data buf ! i = buf ! (13 + i)"
  by (simp add: actual_data_eq)

lemma handle_control_ub:
  assumes "evp_laws ev" "entropy_ok (w_entropy w)" "length buf = 512"
  shows "is_ub (fst (handle_control ev buf (actual_data buf) (s, w))) \<longleftrightarrow>
     (buf ! 13 = byte_of CHR ''N'' \<and> 0 \<notin> set (drop 14 buf)
      \<or> buf ! 13 = byte_of CHR ''A'' \<and> get16 (buf ! 14) (buf ! 15) > 492)"
proof -
  have n: "actual_data buf ! 0 = buf ! 13" "actual_data buf ! 1 = buf ! 14"
    "actual_data buf ! 2 = buf ! 15" "length (actual_data buf) = 495"
    using assms(3) by (simp_all add: actual_nth) (simp add: actual_data_eq)
  have p: "\<not> is_ub (fst (handle_public_key ev buf (actual_data buf) (s, w)))"
    using send_encrypted_AES_key_safe [OF assms(1,2)] by (simp add: handle_public_key_def Let_def)
  have a: "is_ub (fst (handle_key ev (actual_data buf) (s, w))) \<longleftrightarrow> get16 (buf ! 14) (buf ! 15) > 492"
    unfolding handle_key_def word16_gt n(2-4)
    by (simp add: Let_def split: sum.split)
  show ?thesis
    unfolding handle_control_def n(1) using p a handle_username_ub [of buf s w]
    by auto
qed

lemma receive_ub:
  assumes "listening s" "length d = 512"
  shows "is_ub (fst (receive ev d (s, w))) \<longleftrightarrow>
    accepts d \<and> is_ub (fst (dispatch ev d (handling d s, packet_seen (us_uuid s) w)))"
proof -
  let ?r = "dispatch ev d (handling d s, packet_seen (us_uuid s) w)"
  obtain r c where rc: "?r = (r, c)" by (cases ?r)
  have "receive ev d (s, w) = (if accepts d then
      (case ?r of (Inl e, c2) \<Rightarrow> (Inl e, c2) | (Inr _, c2) \<Rightarrow> (Inr (), listen_again c2))
      else (Inr (), listen_again (handling d s, packet_seen (us_uuid s) w)))"
    using assms by (simp add: receive_def handle_receive_def deliver_full handling_def listening_def Let_def)
  then show ?thesis using rc by (cases r) simp_all
qed

lemma receive_ub_exactly:
  assumes "evp_laws ev" "entropy_ok (w_entropy w)" "listening s" "length d = 512"
  shows "is_ub (fst (receive ev d (s, w))) \<longleftrightarrow> overreads d"
proof -
  let ?s = "handling d s" and ?w = "packet_seen (us_uuid s) w"
  have "\<not> is_ub (fst (handle_file ev d (actual_data d) (?s, ?w)))"
    using handle_file_header_safe handle_file_data_safe by (simp add: handle_file_def)
  then have "is_ub (fst (dispatch ev d (?s, ?w))) \<longleftrightarrow> d ! 1 = byte_of CHR ''O'' \<and>
      (d ! 13 = byte_of CHR ''N'' \<and> 0 \<notin> set (drop 14 d)
       \<or> d ! 13 = byte_of CHR ''A'' \<and> get16 (d ! 14) (d ! 15) > 492)"
    using handle_control_ub [OF assms(1) _ assms(4), of ?w ?s] assms(2)
    by (simp add: dispatch_def Let_def)
  then show ?thesis unfolding receive_ub [OF assms(3,4)] overreads_def by blast
qed

section \<open>Properties of reception\<close>

text \<open>
  C12: memory safety of \<open>handle_receive\<close>, on any 512 bytes whatsoever: its execution has undefined
  behaviour exactly for two kinds of accepted control packet, a username without a terminating
  zero byte and a wrapped key whose stated length exceeds the content. Every other datagram is
  handled inside the objects, and the suffix loop for the name of a received file ends.
\<close>

theorem receive_memory_safety:
  assumes "evp_laws ev" "entropy_ok (w_entropy w)" "listening s" "length d = 512"
  shows "is_ub (fst (receive ev d (s, w))) \<longleftrightarrow> overreads d"
  by (rule receive_ub_exactly [OF assms])

theorem receive_memory_safety_witness:
  "is_ub (fst (receive plain_evp (get_bytes (packet_of_string (byte_of CHR ''O'') 0 7 0
       (bytes_of ''A'' @ [1, 237]))) (sample_server ''f'', sample_world (sample_fs []))))
   \<longleftrightarrow> overreads (get_bytes (packet_of_string (byte_of CHR ''O'') 0 7 0 (bytes_of ''A'' @ [1, 237])))"
  by (rule receive_memory_safety [OF plain_evp_laws]) (simp_all add: plain_entropy_ok length_get_bytes)

text \<open>
  Anyone who can reach the port can trigger it. The datagram below needs no key and passes the
  checksum test; it carries the letter \<open>A\<close> and a length of more than 492.
\<close>

lemma forged_key_packet_overreads:
  assumes "evp_laws ev" "entropy_ok (w_entropy w)" "listening s" "492 < unat n"
  shows "is_ub (fst (receive ev (get_bytes (packet_of_string (byte_of CHR ''O'') 0 mid 0
    (byte_of CHR ''A'' # put16 n))) (s, w)))"
proof -
  let ?p = "packet_of_string (byte_of CHR ''O'') 0 mid 0 (byte_of CHR ''A'' # put16 n)"
  have m: "pk_message ?p = byte_of CHR ''A'' # put16 n @ replicate 492 0"
    by (simp add: pad495_def)
  have "get16 (pk_message ?p ! 1) (pk_message ?p ! 2) = n"
    unfolding m by (simp add: put16_def get16_put)
  moreover have "length (pk_message ?p) = 495" by simp
  ultimately have "is_ub (fst (handle_key ev (pk_message ?p) (s', w')))" for s' w'
    using assms(4) by (simp add: handle_key_def Let_def)
  moreover have "pk_message ?p ! 0 = byte_of CHR ''A''" unfolding m by simp
  ultimately have "is_ub (fst (dispatch ev (get_bytes ?p) (s', w')))" for s' w'
    by (simp add: dispatch_packet handle_control_def)
  then show ?thesis
    using receive_ub [OF assms(3) length_get_bytes] packet_accepted by simp
qed

lemma forged_key_packet_overreads_witness:
  "is_ub (fst (receive plain_evp (get_bytes (packet_of_string (byte_of CHR ''O'') 0 1 0
    (byte_of CHR ''A'' # put16 493))) (sample_server ''f'', sample_world (sample_fs []))))"
  by (rule forged_key_packet_overreads [OF plain_evp_laws]) (simp_all add: plain_entropy_ok)

text \<open>
  The name of a received file. Whatever name the sender proposes, the file will be stored
  directly in the friend's directory, under a single path component that is not yet taken; an
  existing file or directory is never chosen, not even for proposals such as \<open>..\<close>.
\<close>

lemma received_name_new:
  assumes "create_directories (w_fs w) (resolve (received_dir (us_uuid s))) = Inr fs"
  shows "\<exists>file s'. handle_file_header MID actual (s, w) = (Inr (), (s', w\<lparr>w_fs := fs\<rparr>))
    \<and> map_of (us_incoming s') MID = Some file \<and> if_chunks file = []
    \<and> plain_name (if_name file)
    \<and> resolve (received_dir (us_uuid s) @ if_name file) = resolve (received_dir (us_uuid s)) @ [if_name file]
    \<and> \<not> fs_exists fs (resolve (received_dir (us_uuid s)) @ [if_name file])"
  by (rule handle_file_header_result [OF assms, of MID actual])
    (simp add: update_conv' resolve_plain_in_dir)

lemma received_name_new_witness:
  "\<exists>file s'. handle_file_header 5 (file_header 1 ''..'')
      (sample_server ''f'', sample_world \<lparr>fs_files = [], fs_dirs = []\<rparr>)
      = (Inr (), (s', (sample_world \<lparr>fs_files = [], fs_dirs = []\<rparr>)
          \<lparr>w_fs := \<lparr>fs_files = [], fs_dirs = [[''received''], [''received'', ''f'']]\<rparr>\<rparr>))
    \<and> map_of (us_incoming s') 5 = Some file \<and> if_chunks file = [] \<and> plain_name (if_name file)
    \<and> resolve (received_dir (us_uuid (sample_server ''f'')) @ if_name file)
        = resolve (received_dir (us_uuid (sample_server ''f''))) @ [if_name file]
    \<and> \<not> fs_exists \<lparr>fs_files = [], fs_dirs = [[''received''], [''received'', ''f'']]\<rparr>
        (resolve (received_dir (us_uuid (sample_server ''f''))) @ [if_name file])"
  by (rule received_name_new)
    (simp add: received_dir_def resolve_def resolve_step_def is_sep_def create_directories_def
      path_prefixes_def add_dir_def is_directory_def upt_rec)

end
