(* ===== verification/UdpTransfer.thy ===== *)
theory UdpTransfer
  imports UdpFiles
begin

text \<open>
  A whole file transfer. The sender is a loop driven by its timer; \<open>run_transfer\<close> lets it fire a
  given number of times. The receiver's chunk table refines the set of piece numbers received so
  far; when the set is complete, the file is written and the table entry removed. The properties
  compose both sides for every order and repetition of the pieces on the network.
\<close>

section \<open>Pieces of a file\<close>

definition piece_count :: "byte list \<Rightarrow> nat" where
  "piece_count data = (length data + 460) div 461"

definition sendable :: "byte list \<Rightarrow> bool" where
  "sendable data \<longleftrightarrow> length data \<le> 461 * (2 ^ 48 - 1)"

lemma piece_count_bounds:
  assumes "sendable data"
  shows "piece_count data < 2 ^ 48" "length data \<le> 461 * piece_count data"
    and "i < piece_count data \<Longrightarrow> 461 * i < length data"
proof -
  have "length data + 460 < 461 * 2 ^ 48" using assms by (simp add: sendable_def)
  then show "piece_count data < 2 ^ 48" unfolding piece_count_def by (simp add: less_mult_imp_div_less)
  show "length data \<le> 461 * piece_count data" unfolding piece_count_def by linarith
  show "i < piece_count data \<Longrightarrow> 461 * i < length data" unfolding piece_count_def by linarith
qed

lemma total_packets_count:
  assumes "sendable data"
  shows "total_packets_of data = word_of_nat (piece_count data)"
    and "unat (total_packets_of data) = piece_count data"
proof -
  have l: "length data + 460 < 2 ^ 64" using assms by (simp add: sendable_def)
  then have "unat (word_of_nat (length data) + 460 :: u64) = length data + 460"
    by (simp add: unat_word_ariths unat_of_nat)
  then show u: "unat (total_packets_of data) = piece_count data"
    by (simp add: total_packets_of_def piece_count_def unat_div)
  show "total_packets_of data = word_of_nat (piece_count data)" using u by (metis of_nat_unat ucast_id)
qed

lemma index_offset:
  assumes "sendable data" "i < piece_count data"
  shows "unat (word_of_nat i * 461 :: u64) = i * 461" "unat (word_of_nat i :: u64) = i"
    and "unat (word_of_nat i + 1 :: u64) = Suc i"
proof -
  have "i < 2 ^ 48" using assms piece_count_bounds(1) [OF assms(1)] by simp
  then have i: "i * 461 < 2 ^ 64" "i < 2 ^ 64" "Suc i < 2 ^ 64" by simp_all
  then show u: "unat (word_of_nat i :: u64) = i" by (simp add: unat_of_nat)
  show "unat (word_of_nat i * 461 :: u64) = i * 461" using u i(1) by (simp add: unat_word_ariths)
  show "unat (word_of_nat i + 1 :: u64) = Suc i" using u i(3) by (simp add: unat_word_ariths)
qed

lemma concat_pieces:
  "461 * n \<ge> length data \<Longrightarrow> concat (map (\<lambda>i. file_piece data (i * 461)) [0..<n]) = data"
proof -
  have "concat (map (\<lambda>i. file_piece data (i * 461)) [0..<n]) = take (461 * n) data" for n
  proof (induction n)
    case (Suc n)
    have "take (461 * Suc n) data = take (461 * n) data @ take 461 (drop (461 * n) data)"
      by (simp only: mult_Suc_right add.commute [of 461] take_add)
    then show ?case using Suc by (simp add: file_piece_def mult.commute)
  qed simp
  then show "461 * n \<ge> length data \<Longrightarrow> ?thesis" by simp
qed

text \<open>A genuine packet with piece \<open>i\<close>.\<close>

definition piece_of :: "evp \<Rightarrow> byte list \<Rightarrow> u32 \<Rightarrow> byte list \<Rightarrow> nat \<Rightarrow> udp_packet \<Rightarrow> bool" where
  "piece_of ev key mid data i p \<longleftrightarrow>
     packet_ok p \<and> pk_type p = byte_of CHR ''F'' \<and> (pk_quantity p = 0 \<or> pk_quantity p = 2)
     \<and> pk_messageID p = mid \<and> pk_packetID p = word_of_nat i
     \<and> (\<exists>enc. enc \<noteq> [] \<and> length enc \<le> 493
          \<and> pk_message p = content_array (put16 (word_of_nat (length enc)) @ enc)
          \<and> aes_decrypt ev enc key = Inr (string_of (file_piece data (i * 461))))"

section \<open>The sender\<close>

fun run_transfer :: "evp \<Rightarrow> nat \<Rightarrow> conn \<Rightarrow> unit res \<times> conn" where
  "run_transfer ev 0 c = (Inr (), c)"
| "run_transfer ev (Suc n) c =
     (case transmit_fires ev c of (Inl e, c') \<Rightarrow> (Inl e, c') | (Inr _, c') \<Rightarrow> run_transfer ev n c')"

text \<open>The state between two firings.\<close>

definition sending :: "u32 \<Rightarrow> byte list \<Rightarrow> nat \<Rightarrow> udp_server \<Rightarrow> bool" where
  "sending mid data i s \<longleftrightarrow> \<not> us_stopped s \<and> us_transfer s =
     (if i < piece_count data then Some \<lparr>tr_messageID = mid, tr_data = data,
        tr_total = word_of_nat (piece_count data), tr_index = word_of_nat i\<rparr> else None)"

lemma file_piece_length: "length (file_piece data k) \<le> 461"
  by (simp add: file_piece_def)

lemma transmit_piece:
  assumes "evp_laws ev" "entropy_ok (w_entropy w)" "load_key (w_fs w) (us_uuid s) = Inr key"
    and "sendable data" "sending mid data i s" "i < piece_count data"
  obtains p s' w' where "transmit_fires ev (s, w) = (Inr (), (s', w'))"
    "us_outbox s' = us_outbox s @ [get_bytes p]" "piece_of ev key mid data i p"
    "sending mid data (Suc i) s'" "us_uuid s' = us_uuid s" "w_fs w' = w_fs w" "entropy_ok (w_entropy w')"
proof -
  note off = index_offset [OF assms(4,6)]
  obtain c e' where c: "aes_encrypt ev (string_of (file_piece data (i * 461))) key (w_entropy w) = (Inr c, e')"
    "length c = 16 + 16 * (length (string_of (file_piece data (i * 461))) div 16 + 1)"
    "aes_decrypt ev c key = Inr (string_of (file_piece data (i * 461)))" "entropy_ok e'"
    using aes_encryptE [OF assms(1,2) load_key_length [OF assms(3)]] by blast
  have len: "length c \<le> 493" "c \<noteq> []"
    using c(2) div_le_mono [OF file_piece_length [of data "i * 461"], of 16] by auto
  let ?total = "word_of_nat (piece_count data) :: u64" and ?i = "word_of_nat i :: u64"
  let ?p = "packet_of_array (byte_of CHR ''F'') (if ?i + 1 = ?total then 0 else 2) mid ?i
      (content_array (put16 (word_of_nat (length c)) @ c))"
  let ?s = "send_arr (get_bytes ?p) (s\<lparr>us_transfer := None\<rparr>)"
  have p: "piece_of ev key mid data i ?p"
    unfolding piece_of_def using c(3) len by (auto simp: length_content_array)
  have "unat ?total = piece_count data" using total_packets_count [OF assms(4)] by simp
  then have more: "?i + 1 < ?total \<longleftrightarrow> Suc i < piece_count data"
    using off(3) by (simp add: word_less_nat_alt)
  let ?s' = "if Suc i < piece_count data then ?s\<lparr>us_transfer := Some \<lparr>tr_messageID = mid, tr_data = data,
      tr_total = ?total, tr_index = ?i + 1\<rparr>\<rparr> else ?s"
  have "transmit_fires ev (s, w) = (Inr (), (?s', w\<lparr>w_entropy := e'\<rparr>))"
    using assms(3,5,6) c(1) len off(1) more
    by (simp add: transmit_fires_def sending_def send_file_packet_def encrypt_piece_def
        piece_packet_def Let_def del: of_nat_Suc)
  moreover have "sending mid data (Suc i) ?s'"
    using assms(5) by (simp add: sending_def send_arr_def add.commute)
  ultimately show thesis
    using that [of ?s' _ ?p] p c(4) by (simp add: send_arr_def)
qed

lemma run_transfer_pieces:
  assumes "evp_laws ev" "entropy_ok (w_entropy w)" "load_key (w_fs w) (us_uuid s) = Inr key"
    and "sendable data" "sending mid data i s" "i + n = piece_count data"
  obtains ps s' w' where "run_transfer ev n (s, w) = (Inr (), (s', w'))"
    "us_outbox s' = us_outbox s @ map get_bytes ps" "length ps = n"
    "\<forall>k < n. piece_of ev key mid data (i + k) (ps ! k)" "us_transfer s' = None" "w_fs w' = w_fs w"
proof -
  have "\<exists>ps s' w'. run_transfer ev n (s, w) = (Inr (), (s', w'))
    \<and> us_outbox s' = us_outbox s @ map get_bytes ps \<and> length ps = n
    \<and> (\<forall>k < n. piece_of ev key mid data (i + k) (ps ! k)) \<and> us_transfer s' = None \<and> w_fs w' = w_fs w"
    using assms(2-6)
  proof (induction n arbitrary: i s w)
    case 0
    then show ?case by (auto simp: sending_def intro: exI [of _ "[]"])
  next
    case (Suc n)
    then have i: "i < piece_count data" by simp
    obtain p s1 w1 where s1: "transmit_fires ev (s, w) = (Inr (), (s1, w1))"
      "us_outbox s1 = us_outbox s @ [get_bytes p]" "piece_of ev key mid data i p"
      "sending mid data (Suc i) s1" "us_uuid s1 = us_uuid s" "w_fs w1 = w_fs w" "entropy_ok (w_entropy w1)"
      using transmit_piece [OF assms(1) Suc.prems(1-4) i] by blast
    have "load_key (w_fs w1) (us_uuid s1) = Inr key" "Suc i + n = piece_count data"
      using s1 Suc.prems by simp_all
    then obtain ps s' w' where "run_transfer ev n (s1, w1) = (Inr (), (s', w'))"
      "us_outbox s' = us_outbox s1 @ map get_bytes ps" "length ps = n"
      "\<forall>k < n. piece_of ev key mid data (Suc i + k) (ps ! k)" "us_transfer s' = None" "w_fs w' = w_fs w1"
      using Suc.IH [OF s1(7) _ Suc.prems(3) s1(4)] by blast
    moreover from this have "\<forall>k < Suc n. piece_of ev key mid data (i + k) ((p # ps) ! k)"
      using s1(3) by (auto simp: less_Suc_eq_0_disj)
    ultimately show ?case using s1 by (intro exI [of _ "p # ps"]) auto
  qed
  then show thesis using that by blast
qed

section \<open>The receiver\<close>

fun feed :: "evp \<Rightarrow> byte list list \<Rightarrow> conn \<Rightarrow> unit res \<times> conn" where
  "feed ev [] c = (Inr (), c)"
| "feed ev (d # ds) c =
     (case receive ev d c of (Inl e, c') \<Rightarrow> (Inl e, c') | (Inr _, c') \<Rightarrow> feed ev ds c')"

text \<open>The chunk table of a transfer of which the pieces \<open>S\<close> have arrived.\<close>

definition chunks_for :: "byte list \<Rightarrow> nat set \<Rightarrow> (u64 \<times> byte list) list \<Rightarrow> bool" where
  "chunks_for data S chunks \<longleftrightarrow> distinct (map fst chunks)
     \<and> (\<forall>i < piece_count data. map_of chunks (word_of_nat i)
          = (if i \<in> S then Some (file_piece data (i * 461)) else None))
     \<and> fst ` set chunks = word_of_nat ` S"

lemma word_of_nat_inj:
  "sendable data \<Longrightarrow> i < piece_count data \<Longrightarrow> j < piece_count data \<Longrightarrow>
     (word_of_nat i :: u64) = word_of_nat j \<longleftrightarrow> i = j"
  by (metis index_offset(2))

lemma length_chunks:
  assumes "sendable data" "S \<subseteq> {..<piece_count data}" "chunks_for data S chunks"
  shows "length chunks = card S"
proof -
  have "length chunks = card (fst ` set chunks)"
    using assms(3) by (metis chunks_for_def distinct_card length_map set_map)
  also have "\<dots> = card S"
    using assms by (simp add: chunks_for_def)
      (metis (no_types, lifting) card_image inj_onI lessThan_iff subsetD word_of_nat_inj)
  finally show ?thesis .
qed

lemma chunks_for_update:
  assumes "sendable data" "S \<subseteq> {..<piece_count data}" "i < piece_count data" "chunks_for data S chunks"
  shows "chunks_for data (insert i S) (AList.update (word_of_nat i) (file_piece data (i * 461)) chunks)"
  using assms word_of_nat_inj [OF assms(1) _ assms(3)]
  by (auto simp: chunks_for_def distinct_update update_conv' update_in_set_fst)

lemma assemble_chunks:
  assumes "sendable data" "chunks_for data {..<piece_count data} chunks"
  shows "assemble chunks [0..<piece_count data] = data"
proof -
  have "assemble chunks is = concat (map (\<lambda>i. file_piece data (i * 461)) is)"
    if "set is \<subseteq> {..<piece_count data}" for "is"
    using that assms(2) by (induction "is") (simp_all add: chunks_for_def)
  then have "assemble chunks [0..<piece_count data]
      = concat (map (\<lambda>i. file_piece data (i * 461)) [0..<piece_count data])"
    by (simp add: subset_eq)
  also have "\<dots> = data" using piece_count_bounds(2) [OF assms(1)] by (rule concat_pieces)
  finally show ?thesis .
qed

lemma full_set: "S \<subseteq> {..<n} \<Longrightarrow> card S = n \<longleftrightarrow> S = {..<n}"
  by (metis card_lessThan card_subset_eq finite_lessThan)

text \<open>Where a transfer stands: the table entry while pieces are missing, the file at the end.\<close>

definition stored_at :: "string \<Rightarrow> string \<Rightarrow> path" where
  "stored_at u name = resolve (received_dir u @ name)"

definition transfer_state ::
  "byte list \<Rightarrow> byte list \<Rightarrow> u32 \<Rightarrow> string \<Rightarrow> nat set \<Rightarrow> conn \<Rightarrow> bool" where
  "transfer_state key data mid name S c = (case c of (s, w) \<Rightarrow>
     listening s
     \<and> (if S = {..<piece_count data}
        then map_of (us_incoming s) mid = None
          \<and> fs_read (w_fs w) (stored_at (us_uuid s) name) = Some (string_of data)
        else load_key (w_fs w) (us_uuid s) = Inr key
          \<and> can_write (w_fs w) (stored_at (us_uuid s) name)
          \<and> create_directories (w_fs w) (resolve (received_dir (us_uuid s))) = Inr (w_fs w)
          \<and> distinct (map fst (us_incoming s))
          \<and> (\<exists>chunks. map_of (us_incoming s) mid = Some \<lparr>if_total = word_of_nat (piece_count data),
               if_name = name, if_chunks = chunks\<rparr> \<and> chunks_for data S chunks)))"

lemma dispatch_piece:
  assumes "piece_of ev key mid data i p"
  shows "dispatch ev (get_bytes p) c =
    handle_file_data ev mid (take_bit 48 (word_of_nat i)) (pk_message p) c"
proof -
  have p: "packet_ok p" "pk_type p = byte_of CHR ''F''" "pk_quantity p = 0 \<or> pk_quantity p = 2"
    "pk_messageID p = mid" "pk_packetID p = word_of_nat i"
    using assms by (simp_all add: piece_of_def)
  show ?thesis
    using packet_fields [OF p(1)] packet_checksum [OF p(1)] p(2-5) packet_accepted [OF p(1)]
    by (auto simp: dispatch_packet [OF p(1)] handle_file_def)
qed

lemma take_bit_index:
  "sendable data \<Longrightarrow> i < piece_count data \<Longrightarrow> take_bit 48 (word_of_nat i :: u64) = word_of_nat i"
proof -
  assume a: "sendable data" "i < piece_count data"
  have "unat (word_of_nat i :: u64) < 2 ^ 48"
    using index_offset(2) [OF a] piece_count_bounds(1) [OF a(1)] a(2) by simp
  then have "unat (take_bit 48 (word_of_nat i :: u64)) = unat (word_of_nat i :: u64)"
    by (simp only: unsigned_take_bit_eq take_bit_nat_eq_self)
  then show ?thesis by (simp only: word_eq_iff_unsigned [where 'a = nat])
qed

lemma listen_again_incoming:
  "listening s \<Longrightarrow> length b = 512 \<Longrightarrow>
     listen_again ((handling b s)\<lparr>us_incoming := x\<rparr>, w) = ((idle s)\<lparr>us_incoming := x\<rparr>, w)"
  by (simp add: listen_again_def fill_buffer_def start_receive_def idle_def handling_def listening_def)

lemma listening_incoming [simp]: "listening (s\<lparr>us_incoming := x\<rparr>) = listening s"
  by (simp add: listening_def)

lemma handle_file_data_piece:
  assumes "sendable data" "i < piece_count data" "piece_of ev key mid data i p"
    and "map_of (us_incoming s) mid = Some file" "load_key (w_fs w) (us_uuid s) = Inr key"
    and "create_directories (w_fs w) (resolve (received_dir (us_uuid s))) = Inr (w_fs w)"
  shows "handle_file_data ev mid (word_of_nat i) (pk_message p) (s, w) =
    (let chunks = AList.update (word_of_nat i) (file_piece data (i * 461)) (if_chunks file) in
     if length chunks = unat (if_total file)
     then (Inr (), (s\<lparr>us_incoming := AList.delete mid (us_incoming s)\<rparr>,
       w\<lparr>w_fs := fs_write (w_fs w) (stored_at (us_uuid s) (if_name file))
         (string_of (assemble chunks [0..<unat (if_total file)]))\<rparr>))
     else (Inr (), (s\<lparr>us_incoming := AList.update mid (file\<lparr>if_chunks := chunks\<rparr>) (us_incoming s)\<rparr>, w)))"
proof -
  obtain enc where enc: "enc \<noteq> []" "length enc \<le> 493"
    "pk_message p = content_array (put16 (word_of_nat (length enc)) @ enc)"
    "aes_decrypt ev enc key = Inr (string_of (file_piece data (i * 461)))"
    using assms(3) by (auto simp: piece_of_def)
  show ?thesis
    using prefixed_read [OF enc(2,3)] word16_small [OF enc(2,1)] length_prefix [OF enc(2)] enc(4) assms(4-6)
    by (simp add: handle_file_data_def Let_def stored_at_def)
qed

lemma receive_piece:
  assumes "sendable data" "i < piece_count data" "piece_of ev key mid data i p"
    and "S \<subseteq> {..<piece_count data}" "transfer_state key data mid name S (s, w)"
  obtains s' w' where "receive ev (get_bytes p) (s, w) = (Inr (), (s', w'))"
    "transfer_state key data mid name (insert i S) (s', w')" "us_uuid s' = us_uuid s"
    "\<And>q. q \<noteq> stored_at (us_uuid s) name \<Longrightarrow> fs_read (w_fs w') q = fs_read (w_fs w) q"
proof -
  let ?b = "get_bytes p" let ?h = "handling ?b s" and ?v = "packet_seen (us_uuid s) w"
  have p: "packet_ok p" using assms(3) by (simp add: piece_of_def)
  note b512 = length_get_bytes [OF p]
  have lis: "listening s" using assms(5) by (simp add: transfer_state_def)
  note rp = receive_packet [OF p lis, of ev w, unfolded dispatch_piece [OF assms(3)] take_bit_index [OF assms(1,2)]]
  show thesis
  proof (cases "S = {..<piece_count data}")
    case True
    then have "handle_file_data ev mid (word_of_nat i) (pk_message p) (?h, ?v) = (Inr (), (?h, ?v))"
      using assms(5) by (simp add: transfer_state_def handle_file_data_def)
    then have "receive ev ?b (s, w) = (Inr (), (idle s, ?v))"
      using rp lis b512 by (simp add: listen_again_handling)
    moreover have "insert i S = S" using True assms(2) by auto
    ultimately show thesis
      using that assms(5) True by (simp add: transfer_state_def listening_idle)
  next
    case False
    then obtain chunks where st: "load_key (w_fs w) (us_uuid s) = Inr key"
      "can_write (w_fs w) (stored_at (us_uuid s) name)"
      "create_directories (w_fs w) (resolve (received_dir (us_uuid s))) = Inr (w_fs w)"
      "distinct (map fst (us_incoming s))"
      "map_of (us_incoming s) mid = Some \<lparr>if_total = word_of_nat (piece_count data), if_name = name, if_chunks = chunks\<rparr>"
      "chunks_for data S chunks"
      using assms(5) by (simp only: transfer_state_def prod.case False if_False) blast
    let ?chunks = "AList.update (word_of_nat i) (file_piece data (i * 461)) chunks" and ?S = "insert i S"
    have S: "?S \<subseteq> {..<piece_count data}" and ch: "chunks_for data ?S ?chunks"
      using assms(2,4) chunks_for_update [OF assms(1,4,2) st(6)] by simp_all
    have full: "length ?chunks = piece_count data \<longleftrightarrow> ?S = {..<piece_count data}"
      using length_chunks [OF assms(1) S ch] full_set [OF S] by simp
    have total: "unat (word_of_nat (piece_count data) :: u64) = piece_count data"
      using total_packets_count [OF assms(1)] by simp
    note hd = handle_file_data_piece [OF assms(1-3), of ?h _ ?v, simplified, OF st(5,1,3)]
    show thesis
    proof (cases "?S = {..<piece_count data}")
      case True
      then have "assemble ?chunks [0..<piece_count data] = data"
        using assemble_chunks [OF assms(1)] ch by simp
      then have "receive ev ?b (s, w) = (Inr (), ((idle s)\<lparr>us_incoming := AList.delete mid (us_incoming s)\<rparr>,
          ?v\<lparr>w_fs := fs_write (w_fs w) (stored_at (us_uuid s) name) (string_of data)\<rparr>))"
        using rp hd True full total lis b512 by (simp add: Let_def listen_again_incoming)
      then show thesis
        using that True st(2) lis
        by (simp add: transfer_state_def listening_idle fs_read_simps delete_conv')
    next
      case False
      let ?file = "\<lparr>if_total = word_of_nat (piece_count data), if_name = name, if_chunks = ?chunks\<rparr>"
      have "receive ev ?b (s, w) = (Inr (), ((idle s)\<lparr>us_incoming := AList.update mid ?file (us_incoming s)\<rparr>, ?v))"
        using rp hd False full total lis b512 by (simp add: Let_def listen_again_incoming)
      then show thesis
        using that False st ch lis
        by (simp add: transfer_state_def listening_idle update_conv' distinct_update)
    qed
  qed
qed

lemma feed_pieces:
  assumes "sendable data" "S \<subseteq> {..<piece_count data}" "transfer_state key data mid name S (s, w)"
    and "\<forall>j \<in> set js. j < piece_count data \<and> piece_of ev key mid data j (ps j)"
  obtains s' w' where "feed ev (map (\<lambda>j. get_bytes (ps j)) js) (s, w) = (Inr (), (s', w'))"
    "transfer_state key data mid name (S \<union> set js) (s', w')" "us_uuid s' = us_uuid s"
    "\<And>q. q \<noteq> stored_at (us_uuid s) name \<Longrightarrow> fs_read (w_fs w') q = fs_read (w_fs w) q"
proof -
  have "\<exists>s' w'. feed ev (map (\<lambda>j. get_bytes (ps j)) js) (s, w) = (Inr (), (s', w'))
    \<and> transfer_state key data mid name (S \<union> set js) (s', w') \<and> us_uuid s' = us_uuid s
    \<and> (\<forall>q. q \<noteq> stored_at (us_uuid s) name \<longrightarrow> fs_read (w_fs w') q = fs_read (w_fs w) q)"
    using assms(2-4)
  proof (induction js arbitrary: S s w)
    case (Cons j js)
    then have j: "j < piece_count data" "piece_of ev key mid data j (ps j)" by simp_all
    obtain s1 w1 where s1: "receive ev (get_bytes (ps j)) (s, w) = (Inr (), (s1, w1))"
      "transfer_state key data mid name (insert j S) (s1, w1)" "us_uuid s1 = us_uuid s"
      "\<And>q. q \<noteq> stored_at (us_uuid s) name \<Longrightarrow> fs_read (w_fs w1) q = fs_read (w_fs w) q"
      using receive_piece [OF assms(1) j Cons.prems(1,2)] by blast
    then show ?case using Cons.IH [OF _ s1(2)] Cons.prems j by fastforce
  qed auto
  then show thesis using that by blast
qed

text \<open>The first packet opens the transfer.\<close>

definition sent_name_ok :: "string \<Rightarrow> bool" where
  "sent_name_ok name \<longleftrightarrow> name \<noteq> [] \<and> length name \<le> 487
     \<and> list_all (\<lambda>c. \<not> bad_name_char c \<and> c \<noteq> CHR 0x00) name"

lemma byte_of_zero: "byte_of c = 0 \<longleftrightarrow> c = CHR 0x00"
proof -
  have "byte_of (CHR 0x00) = 0" by (simp add: byte_of_def)
  then show ?thesis by (metis byte_of_eq_iff)
qed

lemma file_header_read:
  assumes "sent_name_ok name" "h = file_header n name" "take_bit 48 n = n"
  shows "length h = 495" "header_name MID h = name"
    and "get48 (h ! 0) (h ! 1) (h ! 2) (h ! 3) (h ! 4) (h ! 5) = n"
proof -
  have len: "length name \<le> 487" using assms(1) by (simp add: sent_name_ok_def)
  have h: "h = put48 n @ 0 # bytes_of name @ 0 # replicate (487 - length name) 0"
    using assms(2) len by (simp add: file_header_def content_array_def Suc_diff_le flip: replicate_Suc)
  show "length h = 495" using h len by simp
  show "get48 (h ! 0) (h ! 1) (h ! 2) (h ! 3) (h ! 4) (h ! 5) = n"
    using h assms(3) by (simp add: put48_def get48_put)
  have "drop 7 h = bytes_of name @ 0 # replicate (487 - length name) 0" using h by (simp add: put48_def)
  moreover have "\<forall>b \<in> set (bytes_of name). b \<noteq> 0"
    using assms(1) by (auto simp: sent_name_ok_def list_all_iff byte_of_zero)
  ultimately have "takeWhile (\<lambda>b. b \<noteq> 0) (drop 7 h) = bytes_of name"
    by (simp only:) (subst takeWhile_append2; auto)
  then show "header_name MID h = name"
    using assms(1) by (auto simp: header_name_def sent_name_ok_def list_all_iff)
qed

definition header_packet :: "u32 \<Rightarrow> byte list \<Rightarrow> string \<Rightarrow> udp_packet" where
  "header_packet mid data name = packet_of_array (byte_of CHR ''F'') 1 mid (total_packets_of data)
     (file_header (total_packets_of data) name)"

lemma total_take_bit:
  assumes "sendable data" shows "take_bit 48 (total_packets_of data) = total_packets_of data"
proof -
  have "unat (total_packets_of data) < 2 ^ 48"
    using total_packets_count(2) [OF assms] piece_count_bounds(1) [OF assms] by simp
  then have "unat (take_bit 48 (total_packets_of data)) = unat (total_packets_of data)"
    by (simp only: unsigned_take_bit_eq take_bit_nat_eq_self)
  then show ?thesis by (simp only: word_eq_iff_unsigned [where 'a = nat])
qed

lemma receive_header:
  assumes "sendable data" "sent_name_ok fname" "listening r"
    and "create_directories (w_fs v) (resolve (received_dir (us_uuid r))) = Inr fs"
  obtains name where "unique_name fs (us_uuid r) fname = Inr name" "plain_name name"
    "\<not> fs_exists fs (stored_at (us_uuid r) name)"
    "receive ev (get_bytes (header_packet mid data fname)) (r, v) = (Inr (),
       ((idle r)\<lparr>us_incoming := AList.update mid \<lparr>if_total = total_packets_of data, if_name = name,
          if_chunks = []\<rparr> (us_incoming r)\<rparr>, (packet_seen (us_uuid r) v)\<lparr>w_fs := fs\<rparr>))"
proof -
  let ?p = "header_packet mid data fname"
  note hr = file_header_read [OF assms(2) refl total_take_bit [OF assms(1)]]
  have p: "packet_ok ?p" using hr(1) by (simp add: header_packet_def)
  let ?h = "handling (get_bytes ?p) r" and ?v = "packet_seen (us_uuid r) v"
  have cd: "create_directories (w_fs ?v) (resolve (received_dir (us_uuid ?h))) = Inr fs"
    using assms(4) by simp
  let ?m = "pk_message ?p"
  have "?m = file_header (total_packets_of data) fname" by (simp add: header_packet_def)
  then have t: "get48 (?m ! 0) (?m ! 1) (?m ! 2) (?m ! 3) (?m ! 4) (?m ! 5) = total_packets_of data"
    using hr(3) by (simp only:)
  obtain name where n: "handle_file_header mid (pk_message ?p) (?h, ?v) = (Inr (), (?h\<lparr>us_incoming :=
      AList.update mid \<lparr>if_total = total_packets_of data, if_name = name, if_chunks = []\<rparr>
        (us_incoming ?h)\<rparr>, ?v\<lparr>w_fs := fs\<rparr>))"
    "unique_name fs (us_uuid ?h) (header_name mid (pk_message ?p)) = Inr name" "plain_name name"
    "\<not> fs_exists fs (resolve (received_dir (us_uuid ?h)) @ [name])"
    using handle_file_header_result [OF cd, of mid ?m, unfolded t] by blast
  have "dispatch ev (get_bytes ?p) (?h, ?v) = handle_file_header mid (pk_message ?p) (?h, ?v)"
    using packet_fields [OF p] packet_checksum [OF p] packet_accepted [OF p]
    by (simp add: dispatch_packet [OF p] handle_file_def) (simp add: header_packet_def)
  then have "receive ev (get_bytes ?p) (r, v) = (Inr (), ((idle r)\<lparr>us_incoming :=
      AList.update mid \<lparr>if_total = total_packets_of data, if_name = name, if_chunks = []\<rparr>
        (us_incoming r)\<rparr>, ?v\<lparr>w_fs := fs\<rparr>))"
    using receive_packet [OF p assms(3), of ev v] n(1) length_get_bytes [OF p] assms(3)
    by (simp add: listen_again_incoming)
  then show thesis
    using that n(2-4) hr(2) by (simp add: header_packet_def stored_at_def resolve_plain_in_dir)
qed

section \<open>Properties of transfers\<close>

text \<open>The datagrams a transfer puts on the network.\<close>

lemma send_file_run:
  assumes "evp_laws ev" "entropy_ok (w_entropy w)" "\<not> us_stopped s"
    and "load_key (w_fs w) (us_uuid s) = Inr key" "sendable data"
  obtains ps s' w' where
    "run_transfer ev (piece_count data) (send_file mid data fname s, w) = (Inr (), (s', w'))"
    "us_outbox s' = us_outbox s @ get_bytes (header_packet mid data fname) # map get_bytes ps"
    "length ps = piece_count data" "\<forall>k < piece_count data. piece_of ev key mid data k (ps ! k)"
    "us_transfer s' = None \<or> data = []"
proof (cases "data = []")
  case True
  then show thesis
    using that [of "send_file mid data fname s" w "[]"] assms(3)
    by (simp add: piece_count_def send_file_def header_packet_def send_arr_def Let_def)
next
  case False
  let ?s = "send_file mid data fname s"
  have "0 < piece_count data" using False by (cases data) (simp_all add: piece_count_def)
  then have snd: "sending mid data 0 ?s"
    using assms(3) total_packets_count(1) [OF assms(5)]
    by (simp add: sending_def send_file_def send_arr_def Let_def)
  have k: "load_key (w_fs w) (us_uuid ?s) = Inr key"
    using assms(4) by (simp add: send_file_def send_arr_def Let_def)
  have out: "us_outbox ?s = us_outbox s @ [get_bytes (header_packet mid data fname)]"
    using assms(3) by (simp add: send_file_def send_arr_def header_packet_def Let_def)
  obtain ps s' w' where "run_transfer ev (piece_count data) (?s, w) = (Inr (), (s', w'))"
    "us_outbox s' = us_outbox ?s @ map get_bytes ps" "length ps = piece_count data"
    "\<forall>k < piece_count data. piece_of ev key mid data (0 + k) (ps ! k)" "us_transfer s' = None"
    using run_transfer_pieces [OF assms(1,2) k assms(5) snd] by (metis add_0)
  then show thesis using that out by simp
qed

text \<open>
  The datagrams \<open>ds\<close> leave the receiver with the transfer closed, the data in the file \<open>name\<close> of the
  friend's directory and every other file as it was.
\<close>

definition delivers ::
  "evp \<Rightarrow> byte list list \<Rightarrow> u32 \<Rightarrow> byte list \<Rightarrow> string \<Rightarrow> conn \<Rightarrow> bool" where
  "delivers ev ds mid data name c \<longleftrightarrow> (\<exists>r' v'. feed ev ds c = (Inr (), (r', v'))
     \<and> map_of (us_incoming r') mid = None
     \<and> fs_read (w_fs v') (stored_at (us_uuid (fst c)) name) = Some (string_of data)
     \<and> (\<forall>q. q \<noteq> stored_at (us_uuid (fst c)) name \<longrightarrow> fs_read (w_fs v') q = fs_read (w_fs (snd c)) q))"

lemma receive_file:
  assumes "listening r" "load_key (w_fs v) (us_uuid r) = Inr key"
    and "data \<noteq> []" "sendable data" "sent_name_ok fname" "distinct (map fst (us_incoming r))"
    and "create_directories (w_fs v) (resolve (received_dir (us_uuid r))) = Inr fs"
    and "\<forall>k < piece_count data. piece_of ev key mid data k (ps k)"
  obtains name where "unique_name fs (us_uuid r) fname = Inr name"
    "\<forall>js. set js = {..<piece_count data} \<longrightarrow> delivers ev (get_bytes (header_packet mid data fname)
       # map (\<lambda>j. get_bytes (ps j)) js) mid data name (r, v)"
proof -
  obtain name where hd: "unique_name fs (us_uuid r) fname = Inr name" "plain_name name"
    "\<not> fs_exists fs (stored_at (us_uuid r) name)"
    "receive ev (get_bytes (header_packet mid data fname)) (r, v) = (Inr (),
       ((idle r)\<lparr>us_incoming := AList.update mid \<lparr>if_total = total_packets_of data, if_name = name,
          if_chunks = []\<rparr> (us_incoming r)\<rparr>, (packet_seen (us_uuid r) v)\<lparr>w_fs := fs\<rparr>))"
    (is "_ = (_, (?r1, ?v1))")
    using receive_header [OF assms(4,5,1,7)] by blast
  note made = create_directories_made [OF assms(7)]
  have "0 < piece_count data" using assms(3) by (cases data) (simp_all add: piece_count_def)
  then have ne: "{} \<noteq> {..<piece_count data}" by auto
  have cw: "can_write fs (stored_at (us_uuid r) name)"
    using hd(2,3) made(1) by (simp add: stored_at_def resolve_plain_in_dir can_write_def fs_exists_def)
  have "load_key fs (us_uuid r) = Inr key" using load_key_cong [OF made(3)] assms(2) by simp
  moreover have "chunks_for data {} []" by (simp add: chunks_for_def)
  ultimately have ts: "transfer_state key data mid name {} (?r1, ?v1)"
    using ne assms(1,6) made(4) cw total_packets_count(1) [OF assms(4)]
    by (simp add: transfer_state_def listening_idle update_conv' distinct_update)
  show thesis
  proof (rule that [OF hd(1)], intro allI impI)
    fix js assume js: "set js = {..<piece_count data}"
    then have "\<forall>j \<in> set js. j < piece_count data \<and> piece_of ev key mid data j (ps j)"
      using assms(8) by simp
    from feed_pieces [OF assms(4) _ ts this] obtain r' v' where
      "feed ev (map (\<lambda>j. get_bytes (ps j)) js) (?r1, ?v1) = (Inr (), (r', v'))"
      "transfer_state key data mid name ({} \<union> set js) (r', v')" "us_uuid r' = us_uuid ?r1"
      "\<And>q. q \<noteq> stored_at (us_uuid ?r1) name \<Longrightarrow> fs_read (w_fs v') q = fs_read (w_fs ?v1) q"
      by blast
    then show "delivers ev (get_bytes (header_packet mid data fname)
       # map (\<lambda>j. get_bytes (ps j)) js) mid data name (r, v)"
      using hd(4) js made(3) by (simp add: transfer_state_def delivers_def)
  qed
qed

lemma file_goes_through:
  assumes "evp_laws ev" "entropy_ok (w_entropy w)" "\<not> us_stopped s" "listening r"
    and "load_key (w_fs w) (us_uuid s) = Inr key" "load_key (w_fs v) (us_uuid r) = Inr key"
    and "data \<noteq> []" "sendable data" "sent_name_ok fname" "distinct (map fst (us_incoming r))"
    and "create_directories (w_fs v) (resolve (received_dir (us_uuid r))) = Inr fs"
  shows "\<exists>name ds s' w'. unique_name fs (us_uuid r) fname = Inr name
    \<and> run_transfer ev (piece_count data) (send_file mid data fname s, w) = (Inr (), (s', w'))
    \<and> us_outbox s' = us_outbox s @ ds \<and> length ds = Suc (piece_count data) \<and> us_transfer s' = None
    \<and> (\<forall>js. set js = {..<piece_count data} \<longrightarrow>
         delivers ev (hd ds # map (\<lambda>j. tl ds ! j) js) mid data name (r, v))"
proof -
  obtain ps s' w' where snd:
    "run_transfer ev (piece_count data) (send_file mid data fname s, w) = (Inr (), (s', w'))"
    "us_outbox s' = us_outbox s @ get_bytes (header_packet mid data fname) # map get_bytes ps"
    "length ps = piece_count data" "\<forall>k < piece_count data. piece_of ev key mid data k (ps ! k)"
    "us_transfer s' = None"
    using send_file_run [OF assms(1-3,5,8)] assms(7) by metis
  define ds where "ds = get_bytes (header_packet mid data fname) # map get_bytes ps"
  have ds: "hd ds # map (\<lambda>j. tl ds ! j) js
      = get_bytes (header_packet mid data fname) # map (\<lambda>j. get_bytes (ps ! j)) js"
    if "set js = {..<piece_count data}" for js
    using that snd(3) by (simp add: ds_def)
  obtain name where name: "unique_name fs (us_uuid r) fname = Inr name"
    "\<forall>js. set js = {..<piece_count data} \<longrightarrow> delivers ev (get_bytes (header_packet mid data fname)
       # map (\<lambda>j. get_bytes (ps ! j)) js) mid data name (r, v)"
    using receive_file [OF assms(4,6-11) snd(4)] by blast
  have "us_outbox s' = us_outbox s @ ds" "length ds = Suc (piece_count data)"
    using snd(2,3) by (simp_all add: ds_def)
  then show ?thesis using name snd(1,5) ds by metis
qed

text \<open>
  C5: reassembly in any order. For a non-empty file the sender's timer emits one header and
  \<open>\<lceil>size / 461\<rceil>\<close> pieces and then stops. A receiver that gets the header and afterwards the pieces
  in any order, with any repetitions, but each at least once, ends with the transfer closed and
  exactly the sent bytes in a file of its own under a new name; every other file is unchanged.
\<close>

theorem file_delivered:
  assumes "evp_laws ev" "entropy_ok (w_entropy w)" "\<not> us_stopped s" "listening r"
    and "load_key (w_fs w) (us_uuid s) = Inr key" "load_key (w_fs v) (us_uuid r) = Inr key"
    and "data \<noteq> []" "sendable data" "sent_name_ok fname" "distinct (map fst (us_incoming r))"
    and "create_directories (w_fs v) (resolve (received_dir (us_uuid r))) = Inr fs"
  shows "\<exists>name ds s' w'. unique_name fs (us_uuid r) fname = Inr name
    \<and> run_transfer ev (piece_count data) (send_file mid data fname s, w) = (Inr (), (s', w'))
    \<and> us_outbox s' = us_outbox s @ ds \<and> length ds = Suc (piece_count data) \<and> us_transfer s' = None
    \<and> (\<forall>js. set js = {..<piece_count data} \<longrightarrow>
         delivers ev (hd ds # map (\<lambda>j. tl ds ! j) js) mid data name (r, v))"
  by (rule file_goes_through [OF assms])

theorem file_delivered_witness:
  "\<exists>name ds s' w'. unique_name \<lparr>fs_files = fs_files (sample_fs (replicate 32 7)),
        fs_dirs = [[''friends''], [''friends'', ''f''], [''received''], [''received'', ''f'']]\<rparr>
        (us_uuid (sample_server ''f'')) ''a.txt'' = Inr name
    \<and> run_transfer plain_evp (piece_count [1, 2, 3]) (send_file 7 [1, 2, 3] ''a.txt'' (sample_server ''f''),
        sample_world (sample_fs (replicate 32 7))) = (Inr (), (s', w'))
    \<and> us_outbox s' = us_outbox (sample_server ''f'') @ ds \<and> length ds = Suc (piece_count [1, 2, 3])
    \<and> us_transfer s' = None
    \<and> (\<forall>js. set js = {..<piece_count [1, 2, 3]} \<longrightarrow>
         delivers plain_evp (hd ds # map (\<lambda>j. tl ds ! j) js) 7 [1, 2, 3] name
           (sample_server ''f'', sample_world (sample_fs (replicate 32 7))))"
proof (rule file_delivered [OF plain_evp_laws, where key = "replicate 32 7"])
  show "create_directories (w_fs (sample_world (sample_fs (replicate 32 7))))
      (resolve (received_dir (us_uuid (sample_server ''f''))))
    = Inr \<lparr>fs_files = fs_files (sample_fs (replicate 32 7)),
        fs_dirs = [[''friends''], [''friends'', ''f''], [''received''], [''received'', ''f'']]\<rparr>"
    by (simp add: received_dir_def resolve_def resolve_step_def is_sep_def create_directories_def
        path_prefixes_def add_dir_def is_directory_def upt_rec sample_fs_def friend_file_plain plain_name_def)
qed (simp_all add: plain_entropy_ok sample_key sendable_def sent_name_ok_def bad_name_char_def)

lemma run_transfer_none: "us_transfer s = None \<Longrightarrow> run_transfer ev n (s, w) = (Inr (), (s, w))"
  by (induction n) (simp_all add: transmit_fires_def)

lemma run_transfer_add:
  "run_transfer ev m c = (Inr (), c') \<Longrightarrow> run_transfer ev (m + n) c = run_transfer ev n c'"
  by (induction m arbitrary: c) (auto split: sum.splits prod.splits)

text \<open>
  One transmit timer serves all files of a friend. Whatever transfer is under way when
  \<open>send_file\<close> is called, the pending wait is cancelled: however often the timer fires afterwards,
  only the new header and the pieces of the new file are sent, and then nothing is pending. The
  rest of the earlier file is never sent.
\<close>

lemma second_transfer_cancels:
  assumes "evp_laws ev" "entropy_ok (w_entropy w)" "\<not> us_stopped s"
    and "load_key (w_fs w) (us_uuid s) = Inr key" "sendable data" "data \<noteq> []"
  shows "\<exists>ps s' w'. run_transfer ev (piece_count data + n) (send_file mid data fname s, w) = (Inr (), (s', w'))
    \<and> us_outbox s' = us_outbox s @ get_bytes (header_packet mid data fname) # map get_bytes ps
    \<and> length ps = piece_count data \<and> (\<forall>k < piece_count data. piece_of ev key mid data k (ps ! k))
    \<and> us_transfer s' = None"
proof -
  obtain ps s' w' where snd:
    "run_transfer ev (piece_count data) (send_file mid data fname s, w) = (Inr (), (s', w'))"
    "us_outbox s' = us_outbox s @ get_bytes (header_packet mid data fname) # map get_bytes ps"
    "length ps = piece_count data" "\<forall>k < piece_count data. piece_of ev key mid data k (ps ! k)"
    "us_transfer s' = None"
    using send_file_run [OF assms(1-5)] assms(6) by metis
  then show ?thesis
    using run_transfer_add [OF snd(1), of n] run_transfer_none [OF snd(5), of ev n w'] by auto
qed

lemma second_transfer_cancels_witness:
  "\<exists>ps s' w'. run_transfer plain_evp (piece_count [9] + 5) (send_file 8 [9] ''b''
      (send_file 7 (replicate 1000 1) ''a'' (sample_server ''f'')), sample_world (sample_fs (replicate 32 7)))
      = (Inr (), (s', w'))
    \<and> us_outbox s' = us_outbox (send_file 7 (replicate 1000 1) ''a'' (sample_server ''f''))
        @ get_bytes (header_packet 8 [9] ''b'') # map get_bytes ps
    \<and> length ps = piece_count [9]
    \<and> (\<forall>k < piece_count [9]. piece_of plain_evp (replicate 32 7) 8 [9] k (ps ! k))
    \<and> us_transfer s' = None"
  by (rule second_transfer_cancels [OF plain_evp_laws])
    (simp_all add: plain_entropy_ok sample_key sendable_def send_file_def send_arr_def Let_def)

lemma update_nonempty: "AList.update k v al \<noteq> []"
  by (cases al) auto

text \<open>
  An empty file is announced with a packet count of zero, and a transfer with that count is
  never completed: whatever piece arrives for it, no file is written, and it stays in the table.
\<close>

lemma empty_file_never_stored:
  assumes "map_of (us_incoming s) MID = Some f0" "if_total f0 = total_packets_of []"
  shows "\<exists>s' file'. handle_file_data ev MID PID actual (s, w) = (Inr (), (s', w))
    \<and> map_of (us_incoming s') MID = Some file' \<and> if_total file' = total_packets_of []"
proof -
  have zero: "total_packets_of [] = 0"
    using total_packets_count(1) [of "[]"] by (simp add: piece_count_def sendable_def)
  show ?thesis
    using assms update_nonempty
    by (auto simp: handle_file_data_def zero Let_def update_conv' split: sum.split)
qed

lemma empty_file_never_stored_witness:
  "\<exists>s' file'. handle_file_data plain_evp 7 0 (replicate 495 0)
      ((sample_server ''f'')\<lparr>us_incoming := [(7, \<lparr>if_total = total_packets_of [], if_name = ''a'', if_chunks = []\<rparr>)]\<rparr>,
       sample_world (sample_fs [])) = (Inr (), (s', sample_world (sample_fs [])))
    \<and> map_of (us_incoming s') 7 = Some file' \<and> if_total file' = total_packets_of []"
  by (rule empty_file_never_stored
      [where ?f0.0 = "\<lparr>if_total = total_packets_of [], if_name = ''a'', if_chunks = []\<rparr>"]) simp_all

end
