(* ===== verification/IntroServer.thy ===== *)
theory IntroServer
  imports Crypto Codec
begin

text \<open>
  The coordinating server, \<open>app_final/server/main.cpp\<close>: the table of active sessions, the choice of
  ports, the request and response formats, the TCP session as a state machine over its pending
  operation, and the watchdog. The process state is the record \<open>intro\<close>; a \<open>Session\<close> object is the
  record \<open>session\<close>, whose \<open>ss_pending\<close> is the asynchronous operation it waits for (\<open>Gone\<close>: none,
  so the object is destroyed and its socket closed).

  \<open>std::unordered_set<uint16_t>\<close> is a set; \<open>s[i]\<close> of a \<open>std::string\<close> may read the terminating zero
  at \<open>s.size()\<close> and has no meaning beyond.
\<close>

section \<open>State\<close>

record session_info =      \<comment> \<open>\<open>ClientSessionInfo\<close>\<close>
  si_uuid :: string
  si_public_ip :: string
  si_local_ip :: string
  si_unavailable_ports :: "u16 set"
  si_desired_uuids :: "string list"
  si_last_seen :: int
  si_aes_key :: "byte list"

record intro =
  active_sessions :: "(string \<times> session_info) list"
  sv_fs :: filesys
  sv_now :: int
  sv_entropy :: entropy

section \<open>Ports\<close>

fun port_loop :: "(u16 \<Rightarrow> bool) \<Rightarrow> nat list \<Rightarrow> u16 \<Rightarrow> u16 \<times> u16" where
  "port_loop free [] p1 = (p1, 0)"
| "port_loop free (port # ports) p1 =
     (if free (word_of_nat port)
      then if p1 = 0 then port_loop free ports (word_of_nat port) else (p1, word_of_nat port)
      else port_loop free ports p1)"

definition port_range :: "nat list" where
  "port_range = [8888..<30001]"

definition find_available_ports :: "u16 set \<Rightarrow> u16 set \<Rightarrow> u16 \<times> u16" where
  "find_available_ports unavailA unavailB =
     port_loop (\<lambda>port. port \<notin> unavailA \<and> port \<notin> unavailB) port_range 0"

section \<open>The response\<close>

record match_data =
  md_uuid :: string
  md_ip :: string
  md_port1 :: u16
  md_port2 :: u16

definition match_target ::
  "(string \<times> session_info) list \<Rightarrow> string \<Rightarrow> string \<Rightarrow> u16 set \<Rightarrow> string \<Rightarrow> match_data option" where
  "match_target sessions client_uuid client_pub_ip client_unavail target_uuid =
     (case map_of sessions target_uuid of
        None \<Rightarrow> None
      | Some peer \<Rightarrow>
          if client_uuid \<in> set (si_desired_uuids peer) then
            let (p1, p2) = find_available_ports client_unavail (si_unavailable_ports peer);
                swap = string_less client_uuid (si_uuid peer)
            in Some \<lparr>md_uuid = si_uuid peer,
                 md_ip = (if client_pub_ip = si_public_ip peer then si_local_ip peer else si_public_ip peer),
                 md_port1 = (if swap then p2 else p1), md_port2 = (if swap then p1 else p2)\<rparr>
          else None)"

definition put_match :: "match_data \<Rightarrow> byte list" where
  "put_match d =
     (let ip_len = min (length (md_ip d)) 255 in
      bytes_of (md_uuid d) @ [word_of_nat ip_len] @ bytes_of (take ip_len (md_ip d))
      @ put16 (md_port1 d) @ put16 (md_port2 d))"

definition matches ::
  "(string \<times> session_info) list \<Rightarrow> string \<Rightarrow> string \<Rightarrow> u16 set \<Rightarrow> string list \<Rightarrow> match_data list" where
  "matches sessions client_uuid client_pub_ip client_unavail client_targets =
     List.map_filter (match_target sessions client_uuid client_pub_ip client_unavail) client_targets"

definition response_payload :: "match_data list \<Rightarrow> byte list" where
  "response_payload ms = put16 (word_of_nat (length ms)) @ concat (map put_match ms)"

definition build_routine_response ::
  "evp \<Rightarrow> intro \<Rightarrow> string \<Rightarrow> string \<Rightarrow> u16 set \<Rightarrow> string list \<Rightarrow> byte list \<Rightarrow> byte list res \<times> entropy" where
  "build_routine_response ev sv client_uuid client_pub_ip client_unavail client_targets aes_key =
     server_aes_encrypt ev (string_of (response_payload
       (matches (active_sessions sv) client_uuid client_pub_ip client_unavail client_targets)))
       aes_key (sv_entropy sv)"

section \<open>The request\<close>

definition char_at :: "string \<Rightarrow> nat \<Rightarrow> byte res" where
  "char_at s i =
     (if i < length s then Inr (byte_of (s ! i))
      else if i = length s then Inr 0 else Inl (UB ''string index past the end''))"

definition u16_at :: "string \<Rightarrow> nat \<Rightarrow> u16 res" where
  "u16_at s offset =
     bind_res (char_at s offset) (\<lambda>hi. bind_res (char_at s (offset + 1)) (\<lambda>lo. Inr (get16 hi lo)))"

fun read_ports :: "string \<Rightarrow> nat \<Rightarrow> nat \<Rightarrow> u16 list res" where
  "read_ports s offset 0 = Inr []"
| "read_ports s offset (Suc n) =
     bind_res (u16_at s offset) (\<lambda>port.
     bind_res (read_ports s (offset + 2) n) (\<lambda>ports. Inr (port # ports)))"

fun read_targets :: "string \<Rightarrow> nat \<Rightarrow> nat \<Rightarrow> string list res" where
  "read_targets s offset 0 = Inr []"
| "read_targets s offset (Suc n) =
     bind_res (substr s offset 36) (\<lambda>t_uuid.
     bind_res (read_targets s (offset + 36) n) (\<lambda>ts. Inr (t_uuid # ts)))"

definition parse_request :: "string \<Rightarrow> (string \<times> u16 list \<times> string list) res" where
  "parse_request decrypted =
     (if length decrypted < 1 then throw ''Zla dlugosc pakietu (IP len)'' else
      bind_res (char_at decrypted 0) (\<lambda>b.
      let ip_len = unat b; offset = 1 in
      if length decrypted < offset + ip_len + 2 then throw ''Zla dlugosc pakietu (IP/Ports count)'' else
      bind_res (substr decrypted offset ip_len) (\<lambda>local_ip.
      let offset = offset + ip_len in
      bind_res (u16_at decrypted offset) (\<lambda>np.
      let n_ports = unat np; offset = offset + 2 in
      if n_ports > 100 then throw ''Odmowa uslugi: Zbyt duza tablica portow'' else
      if length decrypted < offset + 2 * n_ports + 2 then throw ''Zla dlugosc pakietu (Ports array)'' else
      bind_res (read_ports decrypted offset n_ports) (\<lambda>ports.
      let offset = offset + 2 * n_ports in
      bind_res (u16_at decrypted offset) (\<lambda>nt.
      let n_targets = unat nt; offset = offset + 2 in
      if n_targets > 32 then throw ''Odmowa uslugi: Zbyt duza lista celow'' else
      if length decrypted < offset + 36 * n_targets then throw ''Zla dlugosc pakietu (Targets list)'' else
      bind_res (read_targets decrypted offset n_targets) (\<lambda>targets.
      Inr (local_ip, ports, targets))))))))"

definition process_routine_request ::
  "evp \<Rightarrow> string \<Rightarrow> byte list \<Rightarrow> string \<Rightarrow> intro \<Rightarrow> byte list res \<times> intro" where
  "process_routine_request ev client_uuid encrypted_part remote_public_ip sv =
     (let aes_key = (case map_of (active_sessions sv) client_uuid of
            Some info \<Rightarrow> Inr (si_aes_key info)
          | None \<Rightarrow> load_aes_key (sv_fs sv) client_uuid);
          parsed = bind_res aes_key (\<lambda>key. bind_res (server_aes_decrypt ev encrypted_part key) (\<lambda>decrypted.
            bind_res (parse_request decrypted) (\<lambda>r. Inr (key, r))))
      in case parsed of
           Inl e \<Rightarrow> (Inl e, sv)
         | Inr (key, local_ip, ports, targets) \<Rightarrow>
             let info = \<lparr>si_uuid = client_uuid, si_public_ip = remote_public_ip, si_local_ip = local_ip,
                   si_unavailable_ports = set ports, si_desired_uuids = targets,
                   si_last_seen = sv_now sv, si_aes_key = key\<rparr>;
                 sv1 = sv\<lparr>active_sessions := AList.update client_uuid info (active_sessions sv)\<rparr>;
                 (out_response, e') = build_routine_response ev sv1 client_uuid remote_public_ip
                   (set ports) targets key
             in (out_response, sv1\<lparr>sv_entropy := e'\<rparr>))"

section \<open>Sessions\<close>

datatype pending =
    ReadHeader
  | ReadPayload byte nat        \<comment> \<open>type and length of the frame\<close>
  | WriteFrame "byte list"
  | Gone

record session =
  ss_remote_ip :: string
  ss_associated_uuid :: string
  ss_pending :: pending

text \<open>\<open>remote_endpoint()\<close> may fail: then the address is \<open>0.0.0.0\<close>.\<close>

definition session_start :: "string option \<Rightarrow> session" where
  "session_start remote_ip =
     \<lparr>ss_remote_ip = (case remote_ip of None \<Rightarrow> ''0.0.0.0'' | Some ip \<Rightarrow> ip),
      ss_associated_uuid = [], ss_pending = ReadHeader\<rparr>"

definition close_session :: "session \<Rightarrow> session" where
  "close_session ss = ss\<lparr>ss_pending := Gone\<rparr>"

definition frame :: "byte \<Rightarrow> byte list \<Rightarrow> byte list" where
  "frame type data = type # put32 (word_of_nat (length data)) @ data"

definition send_frame :: "byte \<Rightarrow> byte list \<Rightarrow> session \<Rightarrow> session" where
  "send_frame type data ss = ss\<lparr>ss_pending := WriteFrame (frame type data)\<rparr>"

definition header_arrives :: "byte list \<Rightarrow> session \<Rightarrow> session" where
  "header_arrives header ss =
     (let type = header ! 0; len = get32 (header ! 1) (header ! 2) (header ! 3) (header ! 4) in
      if len > 512 * 1024 then ss\<lparr>ss_pending := Gone\<rparr>
      else ss\<lparr>ss_pending := ReadPayload type (unat len)\<rparr>)"

definition register :: "evp \<Rightarrow> byte list \<Rightarrow> session \<Rightarrow> intro \<Rightarrow> unit res \<times> session \<times> intro" where
  "register ev payload ss sv =
     (let client_ecc_pub = take 32 payload;
          (new_uuid, e1) = generate_uuid (sv_entropy sv)
      in case new_uuid of
           Inl e \<Rightarrow> (Inl e, ss, sv\<lparr>sv_entropy := e1\<rparr>)
         | Inr u \<Rightarrow>
             let ss1 = ss\<lparr>ss_associated_uuid := u\<rparr>;
                 ((ok, new_aes_key), e2) = rand_bytes 32 e1;
                 sv1 = sv\<lparr>sv_entropy := e2\<rparr>
             in if \<not> ok then (throw ''RAND_bytes failed'', ss1, sv1)
                else case save_aes_key (sv_fs sv) u new_aes_key of
                  (Inl e, fs) \<Rightarrow> (Inl e, ss1, sv1\<lparr>sv_fs := fs\<rparr>)
                | (Inr _, fs) \<Rightarrow>
                    let (ecc_encrypted, e3) = server_encrypt_ECC ev new_aes_key client_ecc_pub e2;
                        sv2 = sv1\<lparr>sv_fs := fs, sv_entropy := e3\<rparr>
                    in (case ecc_encrypted of
                          Inl e \<Rightarrow> (Inl e, ss1, sv2)
                        | Inr enc \<Rightarrow> (Inr (), send_frame 0x02 (bytes_of (u @ enc)) ss1, sv2)))"

definition process_payload ::
  "evp \<Rightarrow> byte \<Rightarrow> byte list \<Rightarrow> session \<Rightarrow> intro \<Rightarrow> unit res \<times> session \<times> intro" where
  "process_payload ev type payload ss sv =
     (if type = 0x01 then
        if length payload < 32 then (Inr (), ss\<lparr>ss_pending := Gone\<rparr>, sv)
        else register ev payload ss sv
      else if type = 0x03 then
        if length payload < 36 then (Inr (), ss\<lparr>ss_pending := Gone\<rparr>, sv)
        else
          let client_uuid = string_of (take 36 payload);
              ss1 = ss\<lparr>ss_associated_uuid := client_uuid\<rparr>;
              (response, sv1) = process_routine_request ev client_uuid (drop 36 payload)
                (ss_remote_ip ss) sv
          in (case response of
                Inl e \<Rightarrow> (Inl e, ss1, sv1)
              | Inr r \<Rightarrow> (Inr (), send_frame 0x04 r ss1, sv1))
      else (Inr (), close_session ss, sv))"

text \<open>The completion handler: exceptions close the session; undefined behaviour stays what it is.\<close>

definition payload_arrives ::
  "evp \<Rightarrow> byte list \<Rightarrow> session \<Rightarrow> intro \<Rightarrow> unit res \<times> session \<times> intro" where
  "payload_arrives ev payload ss sv =
     (case ss_pending ss of
        ReadPayload type len \<Rightarrow>
          (case process_payload ev type payload ss sv of
             (Inl (Throw e), ss1, sv1) \<Rightarrow> (Inr (), close_session ss1, sv1)
           | (Inl (UB what), ss1, sv1) \<Rightarrow> (Inl (UB what), ss1, sv1)
           | (Inr _, ss1, sv1) \<Rightarrow> (Inr (), ss1, sv1))
      | _ \<Rightarrow> (Inr (), ss, sv))"

definition write_done :: "session \<Rightarrow> session" where
  "write_done ss = ss\<lparr>ss_pending := ReadHeader\<rparr>"

text \<open>One run of the watchdog.\<close>

definition cleanup :: "intro \<Rightarrow> intro" where
  "cleanup sv = sv\<lparr>active_sessions :=
     filter (\<lambda>(_, info). \<not> (sv_now sv - si_last_seen info > 30 * 1000000000)) (active_sessions sv)\<rparr>"

text \<open>\<open>main\<close>: nothing runs if the port cannot be bound.\<close>

definition server_main :: "(u16 \<Rightarrow> bool) \<Rightarrow> filesys \<Rightarrow> int \<Rightarrow> entropy \<Rightarrow> (intro \<times> session list) option" where
  "server_main bind fs now e =
     (if bind 81 then Some (\<lparr>active_sessions = [], sv_fs = fs, sv_now = now, sv_entropy = e\<rparr>, []) else None)"

section \<open>Lemmas: ports\<close>

lemma port_range_facts:
  "set port_range = {8888..30000}" "length port_range = 21113" "distinct port_range"
  "sorted_wrt (<) port_range"
  unfolding port_range_def by (auto simp del: upt_rec_numeral)

text \<open>The two lowest ports that pass the test, zero for none.\<close>

definition first_two :: "nat list \<Rightarrow> u16 \<times> u16" where
  "first_two ps = (case ps of [] \<Rightarrow> (0, 0) | [x] \<Rightarrow> (word_of_nat x, 0)
     | x # y # _ \<Rightarrow> (word_of_nat x, word_of_nat y))"

lemma port_loop_second:
  "p1 \<noteq> 0 \<Longrightarrow> port_loop free ports p1 =
     (p1, case filter (\<lambda>p. free (word_of_nat p)) ports of [] \<Rightarrow> 0 | y # _ \<Rightarrow> word_of_nat y)"
  by (induction ports) simp_all

lemma port_loop_first_two:
  "\<forall>p \<in> set ports. (word_of_nat p :: u16) \<noteq> 0 \<Longrightarrow>
     port_loop free ports 0 = first_two (filter (\<lambda>p. free (word_of_nat p)) ports)"
  by (induction ports) (auto simp: first_two_def port_loop_second split: list.split)

definition free_ports :: "u16 set \<Rightarrow> u16 set \<Rightarrow> nat list" where
  "free_ports A B = filter (\<lambda>p. (word_of_nat p :: u16) \<notin> A \<and> (word_of_nat p :: u16) \<notin> B) port_range"

lemma port_word: "p < 65536 \<Longrightarrow> unat (word_of_nat p :: u16) = p"
  by (simp add: unat_of_nat)

lemma ports_differ: "p < q \<Longrightarrow> q \<le> 30000 \<Longrightarrow> (word_of_nat p :: u16) \<noteq> word_of_nat q"
proof
  assume pq: "p < q" "q \<le> 30000" and eq: "(word_of_nat p :: u16) = word_of_nat q"
  have "p < 65536" "q < 65536" using pq by simp_all
  then show False using port_word [of p] port_word [of q] pq(1) unfolding eq by linarith
qed

lemma find_available_ports_spec: "find_available_ports A B = first_two (free_ports A B)"
proof -
  have "(word_of_nat p :: u16) \<noteq> 0" if "p \<in> set port_range" for p
  proof
    assume z: "(word_of_nat p :: u16) = 0"
    have p: "8888 \<le> p" "p < 65536" using that by (simp_all add: port_range_facts)
    have "p = 0" using port_word [OF p(2)] unfolding z by simp
    then show False using p(1) by simp
  qed
  then show ?thesis
    unfolding find_available_ports_def free_ports_def by (intro port_loop_first_two) blast
qed

lemma free_ports_length: "21113 \<le> length (free_ports A B) + card (A \<union> B)"
proof -
  let ?bad = "filter (\<lambda>p. \<not> ((word_of_nat p :: u16) \<notin> A \<and> (word_of_nat p :: u16) \<notin> B)) port_range"
  have inj: "inj_on (word_of_nat :: nat \<Rightarrow> u16) (set port_range)"
  proof (rule inj_onI)
    fix x y assume xy: "x \<in> set port_range" "y \<in> set port_range"
      and eq: "(word_of_nat x :: u16) = word_of_nat y"
    have "x < 65536" "y < 65536" using xy by (simp_all add: port_range_facts)
    then show "x = y" using port_word [of x] port_word [of y] unfolding eq by linarith
  qed
  have "card (set ?bad) \<le> card (A \<union> B)"
    by (rule card_inj_on_le [of "word_of_nat :: nat \<Rightarrow> u16"])
      (auto intro: inj_on_subset [OF inj])
  moreover have "length ?bad = card (set ?bad)"
    by (rule distinct_card [symmetric]) (simp add: port_range_facts)
  moreover have "length (free_ports A B) + length ?bad = length port_range"
    unfolding free_ports_def by (rule sum_length_filter_compl)
  ultimately show ?thesis using port_range_facts(2) by linarith
qed

lemma free_ports_sorted: "sorted_wrt (<) (free_ports A B)"
  by (simp add: free_ports_def sorted_wrt_filter port_range_facts)

lemma free_ports_mem:
  "p \<in> set (free_ports A B) \<Longrightarrow> 8888 \<le> p \<and> p \<le> 30000 \<and> (word_of_nat p :: u16) \<notin> A \<and> (word_of_nat p :: u16) \<notin> B"
  by (auto simp: free_ports_def port_range_facts)

lemma free_ports_two:
  assumes "card A \<le> 100" "card B \<le> 100"
  obtains p q ps where "free_ports A B = p # q # ps"
proof -
  have "card (A \<union> B) \<le> 200" using card_Un_le [of A B] assms by linarith
  then have "2 \<le> length (free_ports A B)" using free_ports_length [of A B] by linarith
  then show thesis using that by (cases "free_ports A B"; cases "tl (free_ports A B)") auto
qed

lemma ports_found:
  assumes "card A \<le> 100" "card B \<le> 100"
  obtains p q where "find_available_ports A B = (word_of_nat p, word_of_nat q)" "p < q"
    "8888 \<le> p" "q \<le> 30000" "word_of_nat p \<notin> A \<union> B" "word_of_nat q \<notin> A \<union> B"
proof -
  obtain p q ps where fp: "free_ports A B = p # q # ps" using free_ports_two [OF assms] by blast
  have "p < q" using free_ports_sorted [of A B] by (simp add: fp)
  then show thesis
    using that [of p q] free_ports_mem [of _ A B] by (simp add: find_available_ports_spec fp first_two_def)
qed

lemma find_available_ports_commute: "find_available_ports A B = find_available_ports B A"
  by (simp add: find_available_ports_spec free_ports_def conj_commute)

section \<open>Lemmas: parsing a request\<close>

lemma u16_at_inside: "Suc offset < length s \<Longrightarrow> u16_at s offset = Inr (get16 (byte_of (s ! offset)) (byte_of (s ! Suc offset)))"
  by (simp add: u16_at_def char_at_def)

lemma read_ports_inside:
  "offset + 2 * n \<le> length s \<Longrightarrow> \<exists>ps. read_ports s offset n = Inr ps \<and> length ps = n"
proof (induction n arbitrary: offset)
  case (Suc n)
  from Suc.IH [of "offset + 2"] Suc.prems obtain ps where "read_ports s (offset + 2) n = Inr ps" "length ps = n"
    by auto
  then show ?case using Suc.prems by (simp add: u16_at_inside)
qed simp

lemma read_targets_inside:
  "offset + 36 * n \<le> length s \<Longrightarrow>
     \<exists>ts. read_targets s offset n = Inr ts \<and> length ts = n \<and> (\<forall>t \<in> set ts. length t = 36)"
proof (induction n arbitrary: offset)
  case (Suc n)
  from Suc.IH [of "offset + 36"] Suc.prems obtain ts where
    "read_targets s (offset + 36) n = Inr ts" "length ts = n" "\<forall>t \<in> set ts. length t = 36" by auto
  then show ?case using Suc.prems by (simp add: substr_def)
qed simp

text \<open>What a request that passes the tests looks like, whatever the bytes were.\<close>

definition request_ok :: "string \<times> u16 list \<times> string list \<Rightarrow> bool" where
  "request_ok r = (case r of (local_ip, ports, targets) \<Rightarrow>
     length local_ip \<le> 255 \<and> length ports \<le> 100 \<and> length targets \<le> 32
     \<and> (\<forall>t \<in> set targets. length t = 36))"

lemma unat_byte_255: "unat (b :: byte) \<le> 255"
  using unat_byte_less [of b] by simp

lemma parse_request_result:
  "(\<exists>msg. parse_request s = throw msg) \<or> (\<exists>r. parse_request s = Inr r \<and> request_ok r)"
proof (cases "length s < 1")
  case True
  then show ?thesis by (auto simp: parse_request_def)
next
  case False
  then have c0: "char_at s 0 = Inr (byte_of (s ! 0))" by (simp add: char_at_def)
  define n where "n = unat (byte_of (s ! 0))"
  show ?thesis
  proof (cases "length s < 1 + n + 2")
    case True
    then show ?thesis using False c0 by (auto simp: parse_request_def n_def Let_def)
  next
    case len1: False
    have ip: "substr s 1 n = Inr (take n (drop 1 s))" using len1 False by (simp add: substr_def)
    have np: "u16_at s (1 + n) = Inr (get16 (byte_of (s ! (1 + n))) (byte_of (s ! (2 + n))))"
      using len1 by (simp add: u16_at_inside)
    define k where "k = unat (get16 (byte_of (s ! (1 + n))) (byte_of (s ! (2 + n))))"
    show ?thesis
    proof (cases "k > 100 \<or> length s < 1 + n + 2 + 2 * k + 2")
      case True
      then show ?thesis
        using False len1 c0 ip np by (auto simp: parse_request_def n_def k_def Let_def)
    next
      case len2: False
      obtain ps where ps: "read_ports s (1 + n + 2) k = Inr ps" "length ps = k"
        using read_ports_inside [of "1 + n + 2" k s] len2 by auto
      have nt: "u16_at s (1 + n + 2 + 2 * k) = Inr (get16 (byte_of (s ! (1 + n + 2 + 2 * k)))
          (byte_of (s ! (Suc (1 + n + 2 + 2 * k)))))"
        using len2 by (simp add: u16_at_inside)
      define t where "t = unat (get16 (byte_of (s ! (1 + n + 2 + 2 * k))) (byte_of (s ! (Suc (1 + n + 2 + 2 * k)))))"
      note here = False len1 len2 c0 ip np ps(1) nt n_def [symmetric] k_def [symmetric] t_def [symmetric]
      show ?thesis
      proof (cases "t > 32 \<or> length s < 1 + n + 2 + 2 * k + 2 + 36 * t")
        case True
        then show ?thesis using here by (auto simp: parse_request_def Let_def)
      next
        case len3: False
        obtain ts where ts: "read_targets s (1 + n + 2 + 2 * k + 2) t = Inr ts" "length ts = t"
          "\<forall>x \<in> set ts. length x = 36"
          using read_targets_inside [of "1 + n + 2 + 2 * k + 2" t s] len3 by auto
        have "parse_request s = Inr (take n (drop 1 s), ps, ts)"
          using here len3 ts(1) by (simp add: parse_request_def Let_def)
        moreover have "n \<le> 255" unfolding n_def by (rule unat_byte_255)
        ultimately show ?thesis
          using len2 len3 ps(2) ts(2,3) by (auto simp: request_ok_def)
      qed
    qed
  qed
qed

lemma parse_request_bounds: "parse_request s = Inr r \<Longrightarrow> request_ok r"
  using parse_request_result [of s] by (auto simp: throw_def)

lemma parse_request_not_ub: "\<not> is_ub (parse_request s)"
  using parse_request_result [of s] by auto

section \<open>Lemmas: one request\<close>

text \<open>What every entry of the table satisfies.\<close>

definition info_ok :: "int \<Rightarrow> string \<Rightarrow> session_info \<Rightarrow> bool" where
  "info_ok now u info \<longleftrightarrow> si_uuid info = u \<and> length u = 36
     \<and> card (si_unavailable_ports info) \<le> 100 \<and> length (si_local_ip info) \<le> 255
     \<and> length (si_desired_uuids info) \<le> 32 \<and> (\<forall>t \<in> set (si_desired_uuids info). length t = 36)
     \<and> length (si_aes_key info) = 32 \<and> si_last_seen info \<le> now"

definition table_ok :: "intro \<Rightarrow> bool" where
  "table_ok sv \<longleftrightarrow> distinct (map fst (active_sessions sv))
     \<and> (\<forall>(u, info) \<in> set (active_sessions sv). info_ok (sv_now sv) u info)"

lemma table_okD: "table_ok sv \<Longrightarrow> map_of (active_sessions sv) u = Some info \<Longrightarrow> info_ok (sv_now sv) u info"
  by (auto simp: table_ok_def dest: map_of_SomeD)

lemma load_aes_key_length: "load_aes_key fs u = Inr key \<Longrightarrow> length key = 32"
  by (simp add: load_aes_key_def load_hex_key_length)

text \<open>The session the request of \<open>u\<close> leaves behind.\<close>

definition session_of :: "intro \<Rightarrow> string \<Rightarrow> string \<Rightarrow> byte list \<Rightarrow> string \<times> u16 list \<times> string list \<Rightarrow> session_info" where
  "session_of sv u remote_ip key r = (case r of (local_ip, ports, targets) \<Rightarrow>
     \<lparr>si_uuid = u, si_public_ip = remote_ip, si_local_ip = local_ip, si_unavailable_ports = set ports,
      si_desired_uuids = targets, si_last_seen = sv_now sv, si_aes_key = key\<rparr>)"

definition client_key :: "intro \<Rightarrow> string \<Rightarrow> byte list res" where
  "client_key sv u = (case map_of (active_sessions sv) u of
     Some info \<Rightarrow> Inr (si_aes_key info) | None \<Rightarrow> load_aes_key (sv_fs sv) u)"

lemma client_key_length: "table_ok sv \<Longrightarrow> client_key sv u = Inr key \<Longrightarrow> length key = 32"
  by (auto simp: client_key_def info_ok_def dest: table_okD load_aes_key_length split: option.splits)

lemma client_key_not_ub: "\<not> is_ub (client_key sv u)"
  by (simp add: client_key_def load_aes_key_def load_hex_key_not_ub split: option.split)

lemma process_routine_cases:
  obtains (rejected) e where
    "process_routine_request ev u enc ip sv = (Inl e, sv)" "\<And>what. e \<noteq> UB what"
  | (accepted) key r out e' where
    "process_routine_request ev u enc ip sv = (out, sv\<lparr>active_sessions :=
        AList.update u (session_of sv u ip key r) (active_sessions sv), sv_entropy := e'\<rparr>)"
    "client_key sv u = Inr key" "bind_res (server_aes_decrypt ev enc key) parse_request = Inr r" "request_ok r"
    "server_aes_encrypt ev (string_of (response_payload (matches
        (AList.update u (session_of sv u ip key r) (active_sessions sv))
        u ip (set (fst (snd r))) (snd (snd r))))) key (sv_entropy sv) = (out, e')"
proof -
  let ?parsed = "bind_res (client_key sv u) (\<lambda>key. bind_res (server_aes_decrypt ev enc key)
      (\<lambda>decrypted. bind_res (parse_request decrypted) (\<lambda>r. Inr (key, r))))"
  have unf: "process_routine_request ev u enc ip sv = (case ?parsed of Inl e \<Rightarrow> (Inl e, sv)
      | Inr (key, r) \<Rightarrow>
        let sv1 = sv\<lparr>active_sessions := AList.update u (session_of sv u ip key r) (active_sessions sv)\<rparr>;
            (out, e') = build_routine_response ev sv1 u ip (set (fst (snd r))) (snd (snd r)) key
        in (out, sv1\<lparr>sv_entropy := e'\<rparr>))"
    unfolding process_routine_request_def client_key_def
    by (simp add: session_of_def Let_def split: sum.split prod.split)
  have noub: "\<not> is_ub ?parsed"
    by (auto simp: is_ub_bind client_key_not_ub server_aes_decrypt_not_ub parse_request_not_ub)
  show thesis
  proof (cases ?parsed)
    case (Inl e)
    then have "\<And>what. e \<noteq> UB what" using noub by auto
    then show thesis using rejected [of e] unf Inl by simp
  next
    case (Inr kr)
    obtain key r where kr: "kr = (key, r)" by (cases kr)
    have k: "client_key sv u = Inr key" "bind_res (server_aes_decrypt ev enc key) parse_request = Inr r"
      using Inr kr by (auto simp: bind_res_Inr_iff)
    then have "request_ok r" by (auto simp: bind_res_Inr_iff dest: parse_request_bounds)
    then show thesis
      using accepted [OF _ k] unf Inr kr
      by (cases "server_aes_encrypt ev (string_of (response_payload (matches
        (AList.update u (session_of sv u ip key r) (active_sessions sv))
        u ip (set (fst (snd r))) (snd (snd r))))) key (sv_entropy sv)")
        (simp add: build_routine_response_def Let_def)
  qed
qed

lemma session_of_ok:
  "request_ok r \<Longrightarrow> length u = 36 \<Longrightarrow> length key = 32 \<Longrightarrow> info_ok (sv_now sv) u (session_of sv u ip key r)"
  by (auto simp: request_ok_def session_of_def info_ok_def intro: order_trans [OF card_length])

lemma table_ok_update:
  "table_ok sv \<Longrightarrow> info_ok (sv_now sv) u info \<Longrightarrow>
     table_ok (sv\<lparr>active_sessions := AList.update u info (active_sessions sv)\<rparr>)"
  by (auto simp: table_ok_def distinct_update dest!: in_set_update)

lemma table_ok_other [simp]:
  "table_ok (sv\<lparr>sv_fs := x\<rparr>) = table_ok sv" "table_ok (sv\<lparr>sv_entropy := y\<rparr>) = table_ok sv"
  by (simp_all add: table_ok_def)

lemma server_aes_encrypt_not_ub: "\<not> is_ub (fst (server_aes_encrypt ev p k e))"
  by (simp add: server_aes_encrypt_def split: option.split prod.split)

lemma process_routine_ok:
  assumes "table_ok sv" "length u = 36" "process_routine_request ev u enc ip sv = (out, sv')"
  shows "table_ok sv' \<and> \<not> is_ub out \<and> sv_now sv' = sv_now sv \<and> sv_fs sv' = sv_fs sv"
proof (cases rule: process_routine_cases [of ev u enc ip sv])
  case (rejected e)
  then show ?thesis using assms by (cases e) auto
next
  case (accepted key r out' e')
  have "\<not> is_ub out'" using server_aes_encrypt_not_ub [of ev _ key "sv_entropy sv"] accepted(5) by (metis fst_conv)
  moreover have "info_ok (sv_now sv) u (session_of sv u ip key r)"
    using session_of_ok [OF accepted(4) assms(2)] client_key_length [OF assms(1) accepted(2)] by simp
  ultimately show ?thesis using accepted(1) assms table_ok_update by auto
qed

end
