(* ===== verification/Machine.thy ===== *)
theory Machine
  imports QPrelude
begin

text \<open>
  The interface of the three state machines of the program (a peer connection, the coordinating
  client, the coordinating server): initial states, steps, and a predicate that holds initially and
  that every step preserves. What follows for sequences of steps is proved once, here.
\<close>

locale machine =
  fixes init :: "'s \<Rightarrow> bool" and step :: "'s \<Rightarrow> 's \<Rightarrow> bool" and good :: "'s \<Rightarrow> bool"
  assumes init_good: "init s \<Longrightarrow> good s"
    and step_good: "step s t \<Longrightarrow> good s \<Longrightarrow> good t"
begin

lemma steps_good: "step\<^sup>*\<^sup>* s t \<Longrightarrow> good s \<Longrightarrow> good t"
  by (induction rule: rtranclp_induct) (auto intro: step_good)

lemma reached_good: "init s \<Longrightarrow> step\<^sup>*\<^sup>* s t \<Longrightarrow> good t"
  by (blast intro: steps_good init_good)

end

end
