(* ===== verification/IntroSteps.thy ===== *)
theory IntroSteps
  imports IntroServer Machine
begin

text \<open>
  The coordinating server at work: its process state together with the open sessions, the step
  relation of the asynchronous runtime (accept, header, payload, write, failure, watchdog, passing
  time), the invariant of all reachable states, and the properties of registration and of the
  introduction of two clients.
\<close>

section \<open>Steps\<close>

type_synonym running = "intro \<times> session list"

inductive intro_step :: "evp \<Rightarrow> running \<Rightarrow> running \<Rightarrow> bool" for ev where
  accept: "intro_step ev (sv, ss) (sv, ss @ [session_start ip])"
| header: "i < length ss \<Longrightarrow> ss_pending (ss ! i) = ReadHeader \<Longrightarrow> length hdr = 5 \<Longrightarrow>
     intro_step ev (sv, ss) (sv, ss[i := header_arrives hdr (ss ! i)])"
| payload: "i < length ss \<Longrightarrow> ss_pending (ss ! i) = ReadPayload type n \<Longrightarrow> length data = n \<Longrightarrow>
     payload_arrives ev data (ss ! i) sv = (Inr (), s', sv') \<Longrightarrow>
     intro_step ev (sv, ss) (sv', ss[i := s'])"
| written: "i < length ss \<Longrightarrow> ss_pending (ss ! i) = WriteFrame f \<Longrightarrow>
     intro_step ev (sv, ss) (sv, ss[i := write_done (ss ! i)])"
| failed: "i < length ss \<Longrightarrow> ss_pending (ss ! i) \<noteq> Gone \<Longrightarrow>
     intro_step ev (sv, ss) (sv, ss[i := close_session (ss ! i)])"
| watchdog: "intro_step ev (sv, ss) (cleanup sv, ss)"
| time: "0 \<le> d \<Longrightarrow> intro_step ev (sv, ss) (sv\<lparr>sv_now := sv_now sv + d\<rparr>, ss)"

inductive_cases intro_stepE: "intro_step ev r r'"

inductive intro_reachable :: "evp \<Rightarrow> filesys \<Rightarrow> entropy \<Rightarrow> running \<Rightarrow> bool" for ev fs e where
  start: "server_main bind fs now e = Some r \<Longrightarrow> intro_reachable ev fs e r"
| step: "intro_reachable ev fs e r \<Longrightarrow> intro_step ev r r' \<Longrightarrow> intro_reachable ev fs e r'"

section \<open>Lemmas: a frame\<close>

text \<open>What a session may be waiting for.\<close>

fun pending_ok :: "pending \<Rightarrow> bool" where
  "pending_ok (ReadPayload type n) \<longleftrightarrow> n \<le> 512 * 1024"
| "pending_ok (WriteFrame f) \<longleftrightarrow> 5 \<le> length f \<and> (f ! 0 = 0x02 \<or> f ! 0 = 0x04)"
| "pending_ok _ \<longleftrightarrow> True"

lemma header_arrives_ok: "pending_ok (ss_pending (header_arrives hdr s))"
  by (simp add: header_arrives_def Let_def word_less_nat_alt)

lemma frame_simps [simp]: "length (frame t d) = 5 + length d" "frame t d ! 0 = t"
  by (simp_all add: frame_def)

lemma save_aes_key_not_ub: "\<not> is_ub (fst (save_aes_key fs u key))"
  using create_directories_not_ub [of fs "resolve (''./users/'' @ u)"]
  by (auto simp: save_aes_key_def is_ub_Inl split: sum.split)

lemma server_encrypt_ECC_not_ub: "\<not> is_ub (fst (server_encrypt_ECC ev k pk e))"
  using server_aes_encrypt_not_ub [of ev]
  by (simp add: server_encrypt_ECC_def Let_def is_ub_bind split: option.split prod.split)
    (metis fst_conv)

lemma generate_uuid_not_ub: "\<not> is_ub (fst (generate_uuid e))"
  by (simp add: generate_uuid_def split: prod.split)

lemma register_ok:
  assumes "register ev payload ss sv = (r, ss', sv')"
  shows "\<not> is_ub r \<and> active_sessions sv' = active_sessions sv \<and> sv_now sv' = sv_now sv
    \<and> (pending_ok (ss_pending ss) \<longrightarrow> pending_ok (ss_pending ss'))"
  using assms generate_uuid_not_ub [of "sv_entropy sv"] save_aes_key_not_ub server_encrypt_ECC_not_ub
  by (auto simp: register_def Let_def is_ub_Inl send_frame_def split: prod.splits sum.splits if_splits)
    (metis fst_conv is_ub_Inl)+

lemma process_payload_ok:
  assumes "table_ok sv" "process_payload ev type payload ss sv = (r, ss', sv')" "pending_ok (ss_pending ss)"
  shows "\<not> is_ub r \<and> table_ok sv' \<and> sv_now sv' = sv_now sv \<and> pending_ok (ss_pending ss')"
proof -
  consider (reg) "type = 1" "\<not> length payload < 32" | (routine) "type = 3" "\<not> length payload < 36"
    | (drop) "r = Inr ()" "ss_pending ss' = Gone" "sv' = sv"
    using assms(2) by (auto simp: process_payload_def close_session_def split: if_splits)
  then show ?thesis
  proof cases
    case reg
    then have "register ev payload ss sv = (r, ss', sv')" using assms(2) by (simp add: process_payload_def)
    from register_ok [OF this] show ?thesis using assms(1,3) by (simp add: table_ok_def)
  next
    case routine
    let ?u = "string_of (take 36 payload)"
    obtain out sv1 where p: "process_routine_request ev ?u (drop 36 payload) (ss_remote_ip ss) sv = (out, sv1)"
      by (metis prod.exhaust)
    have "length ?u = 36" using routine(2) by simp
    from process_routine_ok [OF assms(1) this p] show ?thesis
      using assms(2,3) routine p
      by (cases out) (auto simp: process_payload_def Let_def send_frame_def is_ub_Inl)
  next
    case drop
    then show ?thesis using assms(1) by simp
  qed
qed

lemma payload_arrives_ok:
  assumes "table_ok sv" "pending_ok (ss_pending ss)"
  obtains ss' sv' where "payload_arrives ev payload ss sv = (Inr (), ss', sv')"
    "table_ok sv'" "sv_now sv' = sv_now sv" "pending_ok (ss_pending ss')"
proof (cases "ss_pending ss")
  case (ReadPayload type n)
  obtain r ss1 sv1 where p: "process_payload ev type payload ss sv = (r, ss1, sv1)"
    by (metis prod.exhaust)
  note ok = process_payload_ok [OF assms(1) p assms(2)]
  show thesis
  proof (cases r)
    case (Inl e)
    then show thesis
      using that [of "close_session ss1" sv1] p ok ReadPayload
      by (cases e) (simp_all add: payload_arrives_def close_session_def)
  next
    case (Inr x)
    then show thesis using that [of ss1 sv1] p ok ReadPayload by (simp add: payload_arrives_def)
  qed
qed (use that assms in \<open>simp_all add: payload_arrives_def\<close>)

section \<open>The invariant\<close>

definition sessions_ok :: "session list \<Rightarrow> bool" where
  "sessions_ok ss \<longleftrightarrow> (\<forall>s \<in> set ss. pending_ok (ss_pending s))"

definition running_ok :: "running \<Rightarrow> bool" where
  "running_ok r = (case r of (sv, ss) \<Rightarrow> table_ok sv \<and> sessions_ok ss)"

lemma cleanup_ok: "table_ok sv \<Longrightarrow> table_ok (cleanup sv)"
  by (auto simp: table_ok_def cleanup_def intro: distinct_map_filter)

lemma time_ok: "table_ok sv \<Longrightarrow> 0 \<le> d \<Longrightarrow> table_ok (sv\<lparr>sv_now := sv_now sv + d\<rparr>)"
  by (fastforce simp: table_ok_def info_ok_def)

lemma sessions_ok_update: "sessions_ok ss \<Longrightarrow> pending_ok (ss_pending x) \<Longrightarrow> sessions_ok (ss[i := x])"
  unfolding sessions_ok_def using set_update_subset_insert [of ss i x] by auto

lemma sessions_ok_nth: "sessions_ok ss \<Longrightarrow> i < length ss \<Longrightarrow> pending_ok (ss_pending (ss ! i))"
  by (simp add: sessions_ok_def)

lemma step_ok: "intro_step ev r r' \<Longrightarrow> running_ok r \<Longrightarrow> running_ok r'"
proof (induction rule: intro_step.induct)
  case (payload i ss type n data sv s' sv')
  then have "table_ok sv" "pending_ok (ss_pending (ss ! i))"
    using sessions_ok_nth [of ss i] unfolding running_ok_def by blast+
  from payload_arrives_ok [OF this, of ev data] payload(4)
  have "table_ok sv'" "pending_ok (ss_pending s')" by auto
  then show ?case using payload.prems by (simp add: running_ok_def sessions_ok_update)
next
  case (accept sv ss ip)
  then show ?case by (simp add: running_ok_def sessions_ok_def session_start_def)
qed (simp_all add: running_ok_def sessions_ok_update header_arrives_ok write_done_def close_session_def
    cleanup_ok time_ok)

definition intro_start :: "filesys \<Rightarrow> entropy \<Rightarrow> running \<Rightarrow> bool" where
  "intro_start fs e r \<longleftrightarrow> (\<exists>bind now. server_main bind fs now e = Some r)"

interpretation server: machine "intro_start fs e" "intro_step ev" running_ok for fs e ev
  by unfold_locales (fastforce simp: intro_start_def server_main_def running_ok_def table_ok_def sessions_ok_def split: if_splits, rule step_ok)

lemma intro_reaches: "intro_reachable ev fs e r \<Longrightarrow> \<exists>s. intro_start fs e s \<and> (intro_step ev)\<^sup>*\<^sup>* s r"
proof (induction rule: intro_reachable.induct)
  case (start bind now r)
  then show ?case unfolding intro_start_def by blast
next
  case (step r r')
  then show ?case by (meson rtranclp.rtrancl_into_rtrancl)
qed

lemma reachable_ok: "intro_reachable ev fs e r \<Longrightarrow> running_ok r"
  using intro_reaches server.reached_good by metis

section \<open>Lemmas: introductions\<close>

lemma match_target_entry:
  assumes "map_of sessions b = Some ib" "a \<in> set (si_desired_uuids ib)" "si_uuid ib = b"
    and "find_available_ports unavail (si_unavailable_ports ib) = (p, q)"
  shows "match_target sessions a ip unavail b = Some \<lparr>md_uuid = b,
    md_ip = (if ip = si_public_ip ib then si_local_ip ib else si_public_ip ib),
    md_port1 = (if string_less a b then q else p), md_port2 = (if string_less a b then p else q)\<rparr>"
  using assms by (simp add: match_target_def Let_def)

section \<open>Lemmas: registration\<close>

text \<open>The directory of the users' keys can be extended.\<close>

definition users_ready :: "filesys \<Rightarrow> bool" where
  "users_ready fs \<longleftrightarrow> map_of (fs_files fs) [''users''] = None
     \<and> (\<forall>u. map_of (fs_files fs) [''users'', u] = None \<and> \<not> is_directory fs [''users'', u, ''AES''])"

lemma save_aes_key_written:
  assumes "users_ready fs" "plain_name u" "user_key_file u = [''users'', u, ''AES'']" "length key = 32"
  obtains fs' where "save_aes_key fs u key = (Inr (), fs')" "load_aes_key fs' u = Inr key"
proof -
  have r: "resolve (''./users/'' @ u) = [''users'', u]"
    using assms(2) by (simp add: resolve_def plain_name_def split_path_name resolve_step_def is_sep_def)
  have pre: "path_prefixes [''users'', u] = [[''users''], [''users'', u]]"
    by (simp add: path_prefixes_def upt_rec)
  let ?fs = "add_dir (add_dir fs [''users'']) [''users'', u]"
  have m: "create_directories fs [''users'', u] = Inr ?fs"
    using assms(1) by (simp add: create_directories_def pre users_ready_def)
  have w: "can_write ?fs (user_key_file u)"
    using assms(1,3) by (simp add: can_write_def is_directory_add_dir users_ready_def)
  have "fs_read (fs_write ?fs (user_key_file u) (hex_string key)) (user_key_file u) = Some (hex_string key)"
    using w by (simp add: fs_read_simps)
  then show thesis
    using that r m w load_hex_key_of_hex [OF assms(4)]
    by (simp add: save_aes_key_def load_aes_key_def)
qed

lemma register_works:
  assumes "evp_laws ev" "entropy_ok (sv_entropy sv)" "users_ready (sv_fs sv)"
    and "length priv = 32" "x25519_public ev priv = Some (take 32 payload)"
  obtains u m key sv' where
    "register ev payload s sv = (Inr (), send_frame 0x02 (bytes_of (u @ m)) (s\<lparr>ss_associated_uuid := u\<rparr>), sv')"
    "length u = 36" "plain_name u" "length m = 96" "length key = 32" "load_aes_key (sv_fs sv') u = Inr key"
    "\<And>fs. fs_read fs ecc_file = Some (string_of priv) \<Longrightarrow> decrypt_ECC ev fs m = Inr key"
proof -
  obtain r e1 where g: "generate_uuid (sv_entropy sv) = (r, e1)" by (metis prod.exhaust)
  obtain u where u: "r = Inr u" "length u = 36" "plain_name u" "user_key_file u = [''users'', u, ''AES'']"
    using generate_uuid_facts [OF assms(2) g] by blast
  have e1: "entropy_ok e1"
    using g entropy_okD [OF assms(2)] by (auto simp: generate_uuid_def split: prod.splits if_splits)
  obtain ok key e2 where rb: "rand_bytes 32 e1 = ((ok, key), e2)" by (metis prod.exhaust)
  have k: "ok" "length key = 32" "entropy_ok e2" using entropy_okD [OF e1 rb] by simp_all
  obtain fs where fs: "save_aes_key (sv_fs sv) u key = (Inr (), fs)" "load_aes_key fs u = Inr key"
    using save_aes_key_written [OF assms(3) u(3,4) k(2)] by blast
  let ?fs0 = "\<lparr>fs_files = [(ecc_file, string_of priv)], fs_dirs = []\<rparr>"
  have fs0: "fs_read ?fs0 ecc_file = Some (string_of priv)"
    by (simp add: fs_read_def is_directory_def ecc_file_def resolve_def resolve_step_def is_sep_def)
  obtain m e3 where m: "server_encrypt_ECC ev key (take 32 payload) e2 = (Inr m, e3)" "length m = 96"
    using wrap_unwrap [OF assms(1) k(3,2) assms(4,5) fs0] by metis
  have "decrypt_ECC ev fs m = Inr key" if "fs_read fs ecc_file = Some (string_of priv)" for fs
    using wrap_unwrap [OF assms(1) k(3,2) assms(4,5) that] m(1) by (metis Inr_inject prod.inject)
  moreover have "register ev payload s sv = (Inr (), send_frame 0x02 (bytes_of (u @ m))
      (s\<lparr>ss_associated_uuid := u\<rparr>), sv\<lparr>sv_fs := fs, sv_entropy := e3\<rparr>)"
    using g u(1) rb k(1) fs(1) m(1) by (simp add: register_def Let_def)
  ultimately show thesis using that [of u m] u k(2) m(2) fs(2) by simp
qed

definition sample_fs0 :: filesys where
  "sample_fs0 = \<lparr>fs_files = [], fs_dirs = []\<rparr>"

lemma map_of_filter_value:
  "distinct (map fst al) \<Longrightarrow> map_of (filter (\<lambda>(k, v). P v) al) u
     = (case map_of al u of None \<Rightarrow> None | Some v \<Rightarrow> if P v then Some v else None)"
  by (induction al) (auto simp: map_of_eq_None_iff split: option.split)

section \<open>Properties of the server\<close>

text \<open>
  Ports. If neither side reports more than 100 occupied ports, the search returns two different
  ports between 8888 and 30000, free on both sides, and they are the two lowest such ports.
\<close>

lemma ports_available:
  assumes "card A \<le> 100" "card B \<le> 100"
  shows "\<exists>p q. find_available_ports A B = (word_of_nat p, word_of_nat q) \<and> 8888 \<le> p \<and> p < q \<and> q \<le> 30000
    \<and> (\<forall>x. 8888 \<le> x \<and> x \<le> q \<and> x \<noteq> p \<and> x \<noteq> q \<longrightarrow> (word_of_nat x :: u16) \<in> A \<union> B)
    \<and> (word_of_nat p :: u16) \<notin> A \<union> B \<and> (word_of_nat q :: u16) \<notin> A \<union> B"
proof -
  obtain p q ps where fp: "free_ports A B = p # q # ps"
    using free_ports_two [OF assms] by blast
  have mem: "x \<in> {p, q} \<union> set ps" if "8888 \<le> x" "x \<le> 30000" "(word_of_nat x :: u16) \<notin> A \<union> B" for x
    using that arg_cong [OF fp, of set] by (auto simp: free_ports_def port_range_facts)
  have sorted: "p < q" "\<forall>x \<in> set ps. q < x" using free_ports_sorted [of A B] by (simp_all add: fp)
  have "8888 \<le> p \<and> q \<le> 30000 \<and> (word_of_nat p :: u16) \<notin> A \<union> B \<and> (word_of_nat q :: u16) \<notin> A \<union> B"
    using free_ports_mem [of p A B] free_ports_mem [of q A B] by (simp add: fp)
  moreover have "find_available_ports A B = (word_of_nat p, word_of_nat q)"
    by (simp add: find_available_ports_spec fp first_two_def)
  ultimately show ?thesis using mem sorted by (intro exI [of _ p] exI [of _ q]) fastforce
qed

lemma ports_available_witness:
  "\<exists>p q. find_available_ports {8888} {8890} = (word_of_nat p, word_of_nat q) \<and> 8888 \<le> p \<and> p < q \<and> q \<le> 30000
    \<and> (\<forall>x. 8888 \<le> x \<and> x \<le> q \<and> x \<noteq> p \<and> x \<noteq> q \<longrightarrow> (word_of_nat x :: u16) \<in> {8888} \<union> {8890})
    \<and> (word_of_nat p :: u16) \<notin> {8888} \<union> {8890} \<and> (word_of_nat q :: u16) \<notin> {8888} \<union> {8890}"
  by (rule ports_available) simp_all

text \<open>
  Introduction. When two clients with active sessions want each other, the server's answer to
  either names the other, with crossed ports: the port on which one is told to listen is the port
  to which the other is told to send. The ports are free on both sides, and the address is the
  local one exactly when both share a public address.
\<close>

lemma introduction:
  assumes "map_of sessions a = Some ia" "map_of sessions b = Some ib" "a \<noteq> b"
    and "si_uuid ia = a" "si_uuid ib = b"
    and "a \<in> set (si_desired_uuids ib)" "b \<in> set (si_desired_uuids ia)"
    and "card (si_unavailable_ports ia) \<le> 100" "card (si_unavailable_ports ib) \<le> 100"
  shows "\<exists>ma mb. match_target sessions a (si_public_ip ia) (si_unavailable_ports ia) b = Some ma
    \<and> match_target sessions b (si_public_ip ib) (si_unavailable_ports ib) a = Some mb
    \<and> md_uuid ma = b \<and> md_uuid mb = a
    \<and> md_port1 ma = md_port2 mb \<and> md_port2 ma = md_port1 mb \<and> md_port1 ma \<noteq> md_port2 ma
    \<and> {md_port1 ma, md_port2 ma} \<inter> (si_unavailable_ports ia \<union> si_unavailable_ports ib) = {}
    \<and> md_ip ma = (if si_public_ip ia = si_public_ip ib then si_local_ip ib else si_public_ip ib)
    \<and> md_ip mb = (if si_public_ip ia = si_public_ip ib then si_local_ip ia else si_public_ip ia)"
proof -
  obtain p q where pq: "find_available_ports (si_unavailable_ports ia) (si_unavailable_ports ib)
      = (word_of_nat p, word_of_nat q)" "p < q" "8888 \<le> p" "q \<le> 30000"
    "word_of_nat p \<notin> si_unavailable_ports ia \<union> si_unavailable_ports ib"
    "word_of_nat q \<notin> si_unavailable_ports ia \<union> si_unavailable_ports ib"
    using ports_found [OF assms(8,9)] by blast
  have "(word_of_nat p :: u16) \<noteq> word_of_nat q"
    using ports_differ [OF pq(2,4)] .
  moreover have "find_available_ports (si_unavailable_ports ib) (si_unavailable_ports ia)
      = (word_of_nat p, word_of_nat q)"
    using pq(1) by (simp only: find_available_ports_commute)
  ultimately show ?thesis
    using match_target_entry [OF assms(2,6,5) pq(1), of "si_public_ip ia"]
      match_target_entry [OF assms(1,7,4), of _ _ _ "si_public_ip ib"]
      string_less_total [OF assms(3)] pq(5,6)
    by auto
qed

lemma introduction_witness:
  "\<exists>ma mb. match_target
      [(''a'', \<lparr>si_uuid = ''a'', si_public_ip = ''1'', si_local_ip = ''x'', si_unavailable_ports = {8888},
         si_desired_uuids = [''b''], si_last_seen = 0, si_aes_key = []\<rparr>),
       (''b'', \<lparr>si_uuid = ''b'', si_public_ip = ''2'', si_local_ip = ''y'', si_unavailable_ports = {},
         si_desired_uuids = [''a''], si_last_seen = 0, si_aes_key = []\<rparr>)] ''a'' ''1'' {8888} ''b'' = Some ma
    \<and> match_target
      [(''a'', \<lparr>si_uuid = ''a'', si_public_ip = ''1'', si_local_ip = ''x'', si_unavailable_ports = {8888},
         si_desired_uuids = [''b''], si_last_seen = 0, si_aes_key = []\<rparr>),
       (''b'', \<lparr>si_uuid = ''b'', si_public_ip = ''2'', si_local_ip = ''y'', si_unavailable_ports = {},
         si_desired_uuids = [''a''], si_last_seen = 0, si_aes_key = []\<rparr>)] ''b'' ''2'' {} ''a'' = Some mb
    \<and> md_uuid ma = ''b'' \<and> md_uuid mb = ''a'' \<and> md_port1 ma = md_port2 mb"
  using introduction [of "[(''a'', \<lparr>si_uuid = ''a'', si_public_ip = ''1'', si_local_ip = ''x'',
         si_unavailable_ports = {8888}, si_desired_uuids = [''b''], si_last_seen = 0, si_aes_key = []\<rparr>),
       (''b'', \<lparr>si_uuid = ''b'', si_public_ip = ''2'', si_local_ip = ''y'', si_unavailable_ports = {},
         si_desired_uuids = [''a''], si_last_seen = 0, si_aes_key = []\<rparr>)]" "''a''"
     "\<lparr>si_uuid = ''a'', si_public_ip = ''1'', si_local_ip = ''x'',
         si_unavailable_ports = {8888}, si_desired_uuids = [''b''], si_last_seen = 0, si_aes_key = []\<rparr>" "''b''"]
  by auto

text \<open>
  C14: the invariant of the server. In every reachable state each active session is stored under its
  own 36-character identifier, with at most 100 occupied ports and 32 targets of 36 characters, a
  32-byte key and a time that is not in the future, and every session object that waits for a
  payload waits for at most 512 KiB.
\<close>

theorem server_invariant:
  assumes "intro_reachable ev fs e (sv, ss)"
  shows "distinct (map fst (active_sessions sv))
    \<and> (\<forall>u info. map_of (active_sessions sv) u = Some info \<longrightarrow>
         si_uuid info = u \<and> length u = 36 \<and> card (si_unavailable_ports info) \<le> 100
         \<and> length (si_desired_uuids info) \<le> 32 \<and> (\<forall>t \<in> set (si_desired_uuids info). length t = 36)
         \<and> length (si_aes_key info) = 32 \<and> si_last_seen info \<le> sv_now sv)
    \<and> (\<forall>s \<in> set ss. \<forall>type n. ss_pending s = ReadPayload type n \<longrightarrow> n \<le> 524288)"
proof -
  have ok: "table_ok sv" "sessions_ok ss" using reachable_ok [OF assms] by (simp_all add: running_ok_def)
  have "n \<le> 524288" if "s \<in> set ss" "ss_pending s = ReadPayload type n" for s type n
    using ok(2) that pending_ok.simps(1) [of type n] by (auto simp: sessions_ok_def dest!: bspec)
  then show ?thesis
    using ok(1) table_okD [OF ok(1)] by (simp add: table_ok_def info_ok_def)
qed

lemma sample_running:
  "intro_reachable ev fs e
     (\<lparr>active_sessions = [], sv_fs = fs, sv_now = 0, sv_entropy = e\<rparr>,
      [header_arrives [3, 0, 0, 0, 40] (session_start None)])"
proof -
  let ?sv = "\<lparr>active_sessions = [], sv_fs = fs, sv_now = 0, sv_entropy = e\<rparr>"
  have "intro_reachable ev fs e (?sv, [] @ [session_start None])"
    by (rule intro_reachable.step [OF intro_reachable.start intro_step.accept, of "\<lambda>_. True" fs 0])
      (simp add: server_main_def)
  then have "intro_reachable ev fs e (?sv, ([] @ [session_start None])[0 := header_arrives [3, 0, 0, 0, 40]
      (([] @ [session_start None]) ! 0)])"
    by (rule intro_reachable.step) (rule intro_step.header; simp add: session_start_def)
  then show ?thesis by simp
qed

theorem server_invariant_witness:
  "ss_pending (header_arrives [3, 0, 0, 0, 40] (session_start None)) = ReadPayload 3 40 \<and> (40 :: nat) \<le> 524288"
  using server_invariant [OF sample_running [of plain_evp "sample_fs0" plain_entropy]]
  by (simp add: header_arrives_def get32_def session_start_def Let_def)

text \<open>
  C20: no payload hurts the server. In every reachable state, whatever bytes arrive as the payload of
  any session, the handler ends without undefined behaviour: exceptions close that session and the
  server goes on.
\<close>

theorem server_survives:
  assumes "intro_reachable ev fs e (sv, ss)" "i < length ss"
  shows "\<exists>s' sv'. payload_arrives ev data (ss ! i) sv = (Inr (), s', sv') \<and> sv_now sv' = sv_now sv"
proof -
  have "table_ok sv" "pending_ok (ss_pending (ss ! i))"
    using reachable_ok [OF assms(1)] assms(2) sessions_ok_nth by (auto simp: running_ok_def simp del: pending_ok.simps)
  from payload_arrives_ok [OF this, of ev data] show ?thesis by metis
qed

theorem server_survives_witness:
  "\<exists>s' sv'. payload_arrives plain_evp (replicate 40 255)
      ([header_arrives [3, 0, 0, 0, 40] (session_start None)] ! 0)
      \<lparr>active_sessions = [], sv_fs = sample_fs0, sv_now = 0, sv_entropy = plain_entropy\<rparr> = (Inr (), s', sv')
    \<and> sv_now sv' = sv_now \<lparr>active_sessions = [], sv_fs = sample_fs0, sv_now = 0, sv_entropy = plain_entropy\<rparr>"
  by (rule server_survives [OF sample_running]) simp

text \<open>
  Registration. A registration frame with a client's public key is answered with a frame of
  type 2 that carries a fresh 36-character identifier and the wrapped key; the server's file for
  that identifier holds the key, and the client's private key opens the answer to the same key.
\<close>

lemma registration:
  assumes "evp_laws ev" "entropy_ok (sv_entropy sv)" "users_ready (sv_fs sv)"
    and "length priv = 32" "x25519_public ev priv = Some (take 32 payload)" "32 \<le> length payload"
    and "ss_pending s = ReadPayload 0x01 n" "fs_read fs ecc_file = Some (string_of priv)"
  shows "\<exists>u m key s' sv'. payload_arrives ev payload s sv = (Inr (), s', sv')
    \<and> ss_pending s' = WriteFrame (frame 0x02 (bytes_of (u @ m))) \<and> length u = 36 \<and> length m = 96
    \<and> load_aes_key (sv_fs sv') u = Inr key \<and> decrypt_ECC ev fs m = Inr key"
proof -
  obtain u m key sv' where r:
    "register ev payload s sv = (Inr (), send_frame 0x02 (bytes_of (u @ m)) (s\<lparr>ss_associated_uuid := u\<rparr>), sv')"
    "length u = 36" "length m = 96" "load_aes_key (sv_fs sv') u = Inr key" "decrypt_ECC ev fs m = Inr key"
    using register_works [OF assms(1-5), of s] assms(8) by metis
  then show ?thesis
    using assms(6,7) by (auto simp: payload_arrives_def process_payload_def send_frame_def)
qed

lemma registration_witness:
  "\<exists>u m key s' sv'. payload_arrives plain_evp (replicate 32 9)
      (header_arrives [1, 0, 0, 0, 32] (session_start None))
      \<lparr>active_sessions = [], sv_fs = sample_fs0, sv_now = 0, sv_entropy = plain_entropy\<rparr> = (Inr (), s', sv')
    \<and> ss_pending s' = WriteFrame (frame 0x02 (bytes_of (u @ m))) \<and> length u = 36 \<and> length m = 96
    \<and> load_aes_key (sv_fs sv') u = Inr key
    \<and> decrypt_ECC plain_evp \<lparr>fs_files = [(ecc_file, string_of (replicate 32 9))], fs_dirs = []\<rparr> m = Inr key"
  by (rule registration [OF plain_evp_laws, where priv = "replicate 32 9" and n = 32])
    (simp_all add: plain_entropy_ok users_ready_def sample_fs0_def is_directory_def plain_evp_def
      header_arrives_def session_start_def get32_def Let_def fs_read_def ecc_file_def resolve_def
      resolve_step_def is_sep_def)

text \<open>
  The watchdog removes exactly the sessions that have been silent for more than thirty seconds.
\<close>

lemma watchdog_exact:
  assumes "intro_reachable ev fs e (sv, ss)"
  shows "map_of (active_sessions (cleanup sv)) u = (case map_of (active_sessions sv) u of
      None \<Rightarrow> None
    | Some info \<Rightarrow> if sv_now sv - si_last_seen info > 30000000000 then None else Some info)"
proof -
  have "distinct (map fst (active_sessions sv))"
    using reachable_ok [OF assms] by (simp add: running_ok_def table_ok_def)
  then show ?thesis unfolding cleanup_def by (simp add: map_of_filter_value split: option.split)
qed

lemma watchdog_exact_witness:
  "map_of (active_sessions (cleanup \<lparr>active_sessions = [], sv_fs = sample_fs0, sv_now = 0,
     sv_entropy = plain_entropy\<rparr>)) ''u'' = None"
  using watchdog_exact [OF sample_running [of plain_evp sample_fs0 plain_entropy], of "''u''"] by simp

end
