(* ===== verification/Friends.thy ===== *)
theory Friends
  imports UdpTexts
begin

text \<open>
  The friends of the user: one directory below \<open>friends\<close> each, holding \<open>username.txt\<close>,
  \<open>messages.txt\<close>, \<open>AES\<close> and the connection data \<open>ip_io\<close>. Here are the routines of
  \<open>app_final/client/main.cpp\<close> that list them for the browser, read their connection data, choose
  the selected one and open their connections at start-up, and those that assemble a page.

  A local \<open>int\<close> that an extraction leaves untouched holds no value: using it is undefined
  behaviour. \<open>notifications_count[uuid]\<close> also inserts a zero for a new key, which no reader can tell
  from an absent one.
\<close>

section \<open>State\<close>

text \<open>The process state and \<open>user_connections\<close>; \<open>None\<close> is the null pointer.\<close>

record app =
  ap_world :: world
  ap_conns :: "(string \<times> udp_server option) list"

definition friends_dir :: path where "friends_dir = [''friends'']"

definition friend_dirs :: "filesys \<Rightarrow> path list" where
  "friend_dirs fs = subdirectories fs friends_dir"

section \<open>The friend list\<close>

text \<open>The last line that starts with the key wins.\<close>

definition last_field :: "string \<Rightarrow> string list \<Rightarrow> string" where
  "last_field key lines = foldl (\<lambda>acc line. case field_of key line of Some x \<Rightarrow> x | None \<Rightarrow> acc) [] lines"

definition json_pair :: "string \<Rightarrow> string \<Rightarrow> string" where
  "json_pair name value = [quote] @ name @ [quote] @ '':'' @ [quote] @ value @ [quote]"

definition json_friend :: "world \<Rightarrow> path \<Rightarrow> string \<Rightarrow> string" where
  "json_friend w dir username =
     (let uuid = last dir;
          msgs = (case fs_read (w_fs w) (dir @ [''messages.txt'']) of None \<Rightarrow> [] | Some c \<Rightarrow> lines_of c)
      in ''{'' @ json_pair ''uuid'' uuid @ '','' @ json_pair ''username'' username @ '',''
         @ json_pair ''last_message'' (json_escape (last_field ''message:'' msgs)) @ '',''
         @ json_pair ''last_message_date'' (last_field ''date:'' msgs) @ '',''
         @ json_pair ''last_message_time'' (last_field ''time:'' msgs) @ '',''
         @ json_pair ''selected'' (if g_selected_user w = uuid then ''true'' else ''false'') @ '',''
         @ json_pair ''status'' (if check_activity w uuid then ''online'' else ''offline'') @ '',''
         @ json_pair ''unread'' ''false'' @ '',''
         @ json_pair ''notifications'' (show_int (notifications w uuid)) @ ''}'')"

definition friend_entry :: "world \<Rightarrow> path \<Rightarrow> string option" where
  "friend_entry w dir = (case fs_read (w_fs w) (dir @ [''username.txt'']) of
     None \<Rightarrow> None | Some contents \<Rightarrow> Some (json_friend w dir (first_line contents)))"

definition make_json_friends :: "world \<Rightarrow> string" where
  "make_json_friends w =
     (if \<not> is_directory (w_fs w) friends_dir then ''[]''
      else ''['' @ comma_separated (List.map_filter (friend_entry w) (friend_dirs (w_fs w))) @ '']'')"

section \<open>Connection data\<close>

definition extract_ip_io :: "string \<Rightarrow> string \<times> int option \<times> int option" where
  "extract_ip_io contents =
     (let (ip, s1) = extract_word (contents, True);
          (iport, s2) = extract_int s1;
          (oport, s3) = extract_int s2
      in ((case ip of None \<Rightarrow> [] | Some x \<Rightarrow> x), iport, oport))"

definition int_value :: "int option \<Rightarrow> int res" where
  "int_value v = (case v of None \<Rightarrow> Inl (UB ''indeterminate value'') | Some i \<Rightarrow> Inr i)"

definition ip_io_file :: "string \<Rightarrow> path" where
  "ip_io_file u = friend_file u ''ip_io''"

definition friend_ip :: "filesys \<Rightarrow> string \<Rightarrow> string" where
  "friend_ip fs u = (case fs_read fs (ip_io_file u) of
     None \<Rightarrow> [] | Some c \<Rightarrow> fst (extract_ip_io c))"

definition friend_iport :: "filesys \<Rightarrow> string \<Rightarrow> int res" where
  "friend_iport fs u = (case fs_read fs (ip_io_file u) of
     None \<Rightarrow> Inr (-1) | Some c \<Rightarrow> int_value (fst (snd (extract_ip_io c))))"

definition friend_oport :: "filesys \<Rightarrow> string \<Rightarrow> int res" where
  "friend_oport fs u = (case fs_read fs (ip_io_file u) of
     None \<Rightarrow> Inr (-1) | Some c \<Rightarrow> int_value (snd (snd (extract_ip_io c))))"

definition make_json_ip_ports :: "filesys \<Rightarrow> string \<Rightarrow> string res" where
  "make_json_ip_ports fs u = (case fs_read fs (ip_io_file u) of
     None \<Rightarrow> Inr ''{}''
   | Some c \<Rightarrow>
       (case extract_ip_io c of (ip, iport, oport) \<Rightarrow>
          bind_res (int_value iport) (\<lambda>i. bind_res (int_value oport) (\<lambda>j.
          Inr (''{'' @ json_pair ''ip'' ip @ '','' @ [quote] @ ''iport'' @ [quote] @ '':'' @ show_int i @ '',''
            @ [quote] @ ''oport'' @ [quote] @ '':'' @ show_int j @ ''}'')))))"

text \<open>What \<open>update_ip_data\<close> and the coordinating client write.\<close>

definition ip_io_text :: "string \<Rightarrow> int \<Rightarrow> int \<Rightarrow> string" where
  "ip_io_text ip iport oport = ip @ [newline] @ show_int iport @ [newline] @ show_int oport @ [newline]"

section \<open>Selecting a friend\<close>

fun select_loop :: "filesys \<Rightarrow> path list \<Rightarrow> string \<Rightarrow> string \<Rightarrow> string \<Rightarrow> string \<times> string" where
  "select_loop fs [] latest_uuid latest_combined first_uuid = (latest_uuid, first_uuid)"
| "select_loop fs (dir # dirs) latest_uuid latest_combined first_uuid0 =
     (let uuid = last dir;
          first_uuid = (if first_uuid0 = [] then uuid else first_uuid0)
      in case fs_read fs (dir @ [''messages.txt'']) of
           None \<Rightarrow> select_loop fs dirs latest_uuid latest_combined first_uuid
         | Some c \<Rightarrow>
             let last_date = last_field ''date:'' (lines_of c);
                 last_time = last_field ''time:'' (lines_of c);
                 combined = last_date @ '' '' @ last_time
             in if last_date \<noteq> [] \<and> string_less latest_combined combined
                then select_loop fs dirs uuid combined first_uuid
                else select_loop fs dirs latest_uuid latest_combined first_uuid)"

definition user_selection :: "world \<Rightarrow> world" where
  "user_selection w =
     (if \<not> is_directory (w_fs w) friends_dir then w
      else case select_loop (w_fs w) (friend_dirs (w_fs w)) [] [] [] of (latest_uuid, first_uuid) \<Rightarrow>
        if latest_uuid \<noteq> [] then w\<lparr>g_selected_user := latest_uuid\<rparr>
        else if first_uuid \<noteq> [] then w\<lparr>g_selected_user := first_uuid\<rparr>
        else w)"

section \<open>Opening the connections\<close>

definition default_minus1 :: "int option \<Rightarrow> int" where
  "default_minus1 v = (case v of None \<Rightarrow> -1 | Some i \<Rightarrow> i)"

definition open_connection :: "net \<Rightarrow> byte list \<Rightarrow> path \<Rightarrow> app \<Rightarrow> app" where
  "open_connection nt garbage dir a =
     (let uuid = last dir; w = ap_world a; no_conn = AList.update uuid None (ap_conns a) in
      case fs_read (w_fs w) (dir @ [''ip_io'']) of
        None \<Rightarrow> a\<lparr>ap_conns := no_conn\<rparr>
      | Some c \<Rightarrow>
          (case extract_ip_io c of (ip_addr, ip, op) \<Rightarrow>
             let iport = default_minus1 ip; oport = default_minus1 op in
             if ip_addr = [] \<or> iport < 0 \<or> oport < 0 then a\<lparr>ap_conns := no_conn\<rparr>
             else (case new_udp_server nt iport oport ip_addr uuid garbage w of
                 (Inl _, w1) \<Rightarrow> \<lparr>ap_world = w1, ap_conns = no_conn\<rparr>
               | (Inr s, w1) \<Rightarrow> \<lparr>ap_world = w1, ap_conns = AList.update uuid (Some s) (ap_conns a)\<rparr>)))"

definition load_connections :: "net \<Rightarrow> byte list \<Rightarrow> world \<Rightarrow> app" where
  "load_connections nt garbage w =
     (let a = \<lparr>ap_world = w, ap_conns = []\<rparr> in
      if \<not> is_directory (w_fs w) friends_dir then a
      else fold (open_connection nt garbage) (friend_dirs (w_fs w)) a)"

section \<open>Pages\<close>

definition replace_file :: "filesys \<Rightarrow> string \<Rightarrow> string \<Rightarrow> string res \<Rightarrow> string res" where
  "replace_file fs pattern1 file html =
     bind_res html (\<lambda>h. bind_res (read_file fs file) (\<lambda>c. Inr (replace_string_pattern_with h pattern1 c)))"

definition replace_text :: "string \<Rightarrow> string \<Rightarrow> string res \<Rightarrow> string res" where
  "replace_text pattern1 value html = bind_res html (\<lambda>h. Inr (replace_string_pattern_with h pattern1 value))"

definition selected_username :: "world \<Rightarrow> string" where
  "selected_username w =
     (if g_selected_user w = [] then []
      else case read_file (w_fs w) (''./friends/'' @ g_selected_user w @ ''/username.txt'') of
        Inl _ \<Rightarrow> [] | Inr c \<Rightarrow> c)"

definition port_text :: "int \<Rightarrow> string" where
  "port_text p = (if p < 0 then [] else show_int p)"

definition prepare_html :: "world \<Rightarrow> string \<Rightarrow> string res" where
  "prepare_html w html =
     (let fs = w_fs w; sel = g_selected_user w;
          modules = fold (\<lambda>(p, f). replace_file fs p f)
            [(''$$javascript$$'', ''./frontend/modules/javascript.js''),
             (''$$messages$$'', ''./frontend/modules/messages.html''),
             (''$$options$$'', ''./frontend/modules/options.html''),
             (''$$input bar$$'', ''./frontend/modules/input_bar.html''),
             (''$$chat header$$'', ''./frontend/modules/chat_header.html''),
             (''$$friend list$$'', ''./frontend/modules/friend_list.html''),
             (''$$top bar$$'', ''./frontend/modules/top_bar.html''),
             (''$$settings hidden$$'', ''./frontend/modules/settings_hidden.html'')] (Inr html);
          named = bind_res modules (\<lambda>h. bind_res (read_file fs ''./user_settings/name.txt'') (\<lambda>c.
            Inr (replace_string_pattern_with h ''$$username$$'' (html_escape c))));
          own = replace_text ''$$selected uuid$$'' sel (replace_text ''$$uuid$$'' (g_uuid w) named);
          state = replace_file fs ''$$server connection$$'' ''./user_settings/server.txt'' own;
          friend = replace_text ''$$friend ip$$'' (if sel = [] then [] else friend_ip fs sel)
            (replace_text ''$$selected user username$$'' (selected_username w) state)
      in bind_res friend (\<lambda>h.
         bind_res (if sel = [] then Inr (-1) else friend_iport fs sel) (\<lambda>i.
         bind_res (if sel = [] then Inr (-1) else friend_oport fs sel) (\<lambda>j.
         replace_text ''$$oport$$'' (port_text j) (replace_text ''$$iport$$'' (port_text i) (Inr h))))))"

definition make_http_response :: "string \<Rightarrow> string \<Rightarrow> string" where
  "make_http_response body content_type =
     ''HTTP/1.1 200 OK'' @ crlf @ ''Content-Type: '' @ content_type @ crlf
     @ ''Content-Length: '' @ show_nat (length body) @ crlf
     @ ''Access-Control-Allow-Origin: *'' @ crlf @ ''Connection: close'' @ crlf @ crlf @ body"

section \<open>Lemmas: connection data\<close>

definition ip_word :: "string \<Rightarrow> bool" where
  "ip_word ip \<longleftrightarrow> ip \<noteq> [] \<and> list_all (\<lambda>c. \<not> is_space c) ip"

lemma extract_word_ip:
  assumes "ip_word ip"
  shows "extract_word (ip @ newline # rest, True) = (Some ip, (newline # rest, True))"
proof -
  have "is_space newline" by (simp add: is_space_def)
  moreover have "\<forall>c \<in> set ip. \<not> is_space c" using assms by (simp add: ip_word_def list_all_iff)
  moreover have "dropWhile is_space (ip @ newline # rest) = ip @ newline # rest"
    using assms by (cases ip) (auto simp: ip_word_def)
  ultimately show ?thesis
    by (simp add: extract_word_def Let_def takeWhile_append2 dropWhile_append2 del: dropWhile_eq_Nil_conv)
qed

lemma extract_int_line:
  assumes "0 \<le> i" "i \<le> int_max"
  shows "extract_int (newline # show_int i @ newline # rest, True) = (Some i, (newline # rest, True))"
proof -
  have "extract_int ([newline] @ show_nat (nat i) @ newline # rest, True) = (Some (int (nat i)), (newline # rest, True))"
    by (rule extract_int_show_nat)
      (use assms in \<open>simp_all add: ends_number_def is_space_def is_digit_def digit_val_def\<close>)
  then show ?thesis using assms by (simp add: show_int_def)
qed

lemma extract_ip_io_text:
  "ip_word ip \<Longrightarrow> 0 \<le> i \<Longrightarrow> i \<le> int_max \<Longrightarrow> 0 \<le> j \<Longrightarrow> j \<le> int_max \<Longrightarrow>
     extract_ip_io (ip_io_text ip i j) = (ip, Some i, Some j)"
  using extract_word_ip [of ip "show_int i @ newline # show_int j @ [newline]"]
    extract_int_line [of i "show_int j @ [newline]"] extract_int_line [of j "[]"]
  by (simp add: extract_ip_io_def ip_io_text_def)

section \<open>Lemmas: selection\<close>

text \<open>When a conversation was last active: date and time of its last record, if it has a date.\<close>

definition stamp :: "filesys \<Rightarrow> path \<Rightarrow> string option" where
  "stamp fs dir = (case fs_read fs (dir @ [''messages.txt'']) of None \<Rightarrow> None
     | Some c \<Rightarrow> if last_field ''date:'' (lines_of c) = [] then None
         else Some (last_field ''date:'' (lines_of c) @ '' '' @ last_field ''time:'' (lines_of c)))"

lemma select_loop_step:
  "select_loop fs (dir # dirs) lu lc fu =
     (let fu' = (if fu = [] then last dir else fu) in
      case stamp fs dir of None \<Rightarrow> select_loop fs dirs lu lc fu'
      | Some c \<Rightarrow> if string_less lc c then select_loop fs dirs (last dir) c fu'
          else select_loop fs dirs lu lc fu')"
  by (simp add: stamp_def Let_def split: option.split)

definition newest :: "filesys \<Rightarrow> path list \<Rightarrow> string \<Rightarrow> bool" where
  "newest fs dirs u \<longleftrightarrow> (\<exists>d \<in> set dirs. \<exists>c. u = last d \<and> stamp fs d = Some c
     \<and> (\<forall>d' \<in> set dirs. \<forall>c'. stamp fs d' = Some c' \<longrightarrow> \<not> string_less c c'))"

text \<open>What the accumulators stand for after the directories \<open>done\<close>.\<close>

definition select_inv :: "filesys \<Rightarrow> path list \<Rightarrow> string \<Rightarrow> string \<Rightarrow> bool" where
  "select_inv fs done lu lc \<longleftrightarrow>
     (if \<forall>d \<in> set done. stamp fs d = None then lu = [] \<and> lc = []
      else \<exists>d \<in> set done. lu = last d \<and> stamp fs d = Some lc
        \<and> (\<forall>d' \<in> set done. \<forall>c'. stamp fs d' = Some c' \<longrightarrow> \<not> string_less lc c'))"

lemma stamp_nonempty: "stamp fs d = Some c \<Longrightarrow> string_less [] c"
  by (cases c) (auto simp: stamp_def split: option.splits if_splits)

lemma select_inv_step:
  assumes "select_inv fs done lu lc" "stamp fs d = Some c"
  shows "if string_less lc c then select_inv fs (done @ [d]) (last d) c else select_inv fs (done @ [d]) lu lc"
proof (cases "string_less lc c")
  case True
  have "\<not> string_less c c'" if "d' \<in> set (done @ [d])" "stamp fs d' = Some c'" for d' c'
  proof (cases "d' = d")
    case False
    then have "d' \<in> set done" using that(1) by simp
    then have "\<not> string_less lc c'" using assms(1) that(2) by (auto simp: select_inv_def split: if_splits)
    then show ?thesis using True string_less_trans by blast
  qed (use that assms(2) in simp)
  then show ?thesis using True assms(2) by (auto simp: select_inv_def)
next
  case False
  then have "\<exists>d \<in> set done. stamp fs d \<noteq> None"
    using assms stamp_nonempty [OF assms(2)] by (auto simp: select_inv_def split: if_splits)
  then show ?thesis using False assms by (auto simp: select_inv_def split: if_splits)
qed

lemma select_inv_none: "select_inv fs done lu lc \<Longrightarrow> stamp fs d = None \<Longrightarrow> select_inv fs (done @ [d]) lu lc"
  by (auto simp: select_inv_def split: if_splits)

lemma select_loop_inv:
  assumes "select_inv fs done lu lc" "\<forall>d \<in> set dirs. last d \<noteq> []"
    and "select_loop fs dirs lu lc fu = (lu', fu')"
  shows "(\<exists>lc'. select_inv fs (done @ dirs) lu' lc')
    \<and> fu' = (if fu = [] then (case dirs of [] \<Rightarrow> [] | d # _ \<Rightarrow> last d) else fu)"
  using assms
proof (induction dirs arbitrary: "done" lu lc fu)
  case Nil
  then show ?case by auto
next
  case (Cons d dirs)
  let ?fu = "if fu = [] then last d else fu"
  have fu: "?fu \<noteq> []" using Cons.prems(2) by simp
  have rest: "\<forall>d \<in> set dirs. last d \<noteq> []" using Cons.prems(2) by simp
  obtain lu1 lc1 where s1: "select_inv fs (done @ [d]) lu1 lc1" "select_loop fs dirs lu1 lc1 ?fu = (lu', fu')"
    using Cons.prems(1,3) select_inv_step [OF Cons.prems(1), of d] select_inv_none [OF Cons.prems(1), of d]
    unfolding select_loop_step by (cases "stamp fs d") (auto simp: Let_def split: if_splits)
  show ?case using Cons.IH [OF s1(1) rest s1(2)] fu by auto
qed

section \<open>Lemmas: opening connections\<close>

text \<open>What the constructor promises of the object it returns.\<close>

definition fresh_connection :: "string \<Rightarrow> udp_server \<Rightarrow> bool" where
  "fresh_connection u s \<longleftrightarrow> us_uuid s = u \<and> \<not> us_stopped s \<and> us_open s \<and> us_receiving s \<and> us_punching s
     \<and> us_transfer s = None \<and> us_incoming s = [] \<and> take 64 (us_recv_buffer s) = replicate 64 0
     \<and> (\<exists>d. us_outbox s = [d] \<and> length d = 512)"

lemma udp_punch_result:
  assumes "udp_punch (s, w) = (Inr x, (s', w'))" "\<not> us_stopped s"
  obtains p where "s' = (send_arr (get_bytes p) s)\<lparr>us_punching := True\<rparr>" "packet_ok p" "w_fs w' = w_fs w"
  using assms by (auto simp: udp_punch_def next_rand_def Let_def split: sum.splits)

lemma new_udp_server_fresh:
  assumes "new_udp_server nt iport oport ip u garbage w = (Inr s, w')"
  shows "fresh_connection u s"
proof -
  obtain port target s1 w1 x name where s0:
    "udp_punch (start_receive (blank_server u port target garbage), w) = (Inr x, (s1, w1))"
    "s = (fill_buffer 64 s1)\<lparr>us_username := name\<rparr>"
    using assms by (auto simp: new_udp_server_def Let_def split: if_splits option.splits sum.splits prod.splits)
  have "\<not> us_stopped (start_receive (blank_server u port target garbage))"
    by (simp add: start_receive_def blank_server_def)
  from udp_punch_result [OF s0(1) this] obtain p where "packet_ok p"
    "s1 = (send_arr (get_bytes p) (start_receive (blank_server u port target garbage)))\<lparr>us_punching := True\<rparr>"
    by metis
  then show ?thesis
    using s0(2) length_get_bytes [of p]
    by (simp add: fresh_connection_def fill_buffer_def send_arr_def start_receive_def blank_server_def)
qed

text \<open>A table of connections whose keys are distinct and whose objects satisfy \<open>fine\<close> with their key.\<close>

definition each_connection :: "(string \<Rightarrow> udp_server \<Rightarrow> bool) \<Rightarrow> (string \<times> udp_server option) list \<Rightarrow> bool" where
  "each_connection fine cs \<longleftrightarrow> distinct (map fst cs) \<and> (\<forall>(u, c) \<in> set cs. \<forall>s. c = Some s \<longrightarrow> fine u s)"

lemma each_connection_update:
  "each_connection fine cs \<Longrightarrow> (\<And>s. c = Some s \<Longrightarrow> fine u s) \<Longrightarrow> each_connection fine (AList.update u c cs)"
  by (auto simp: each_connection_def distinct_update dest!: in_set_update)

lemma each_connectionD: "each_connection fine cs \<Longrightarrow> map_of cs u = Some (Some s) \<Longrightarrow> fine u s"
  by (auto simp: each_connection_def dest!: map_of_SomeD)

lemma each_connection_Nil [simp]: "each_connection fine []"
  by (simp add: each_connection_def)

text \<open>
  The interface of the constructor of connections: what it promises of an object under the
  identifier it is made for holds of every object of the table built at start-up.
\<close>

locale opened_connections =
  fixes nt :: net and garbage :: "byte list" and fine :: "string \<Rightarrow> udp_server \<Rightarrow> bool"
  assumes new_fine: "new_udp_server nt iport oport ip u garbage w = (Inr s, w') \<Longrightarrow> fine u s"
begin

lemma open_fine:
  "each_connection fine (ap_conns a) \<Longrightarrow> each_connection fine (ap_conns (open_connection nt garbage dir a))
     \<and> fst ` set (ap_conns (open_connection nt garbage dir a)) = insert (last dir) (fst ` set (ap_conns a))"
  by (auto simp: open_connection_def Let_def update_in_set_fst intro!: each_connection_update
      dest: new_fine split: option.split prod.split sum.split)

lemma open_all_fine:
  "each_connection fine (ap_conns a) \<Longrightarrow> each_connection fine (ap_conns (fold (open_connection nt garbage) dirs a))
     \<and> fst ` set (ap_conns (fold (open_connection nt garbage) dirs a))
       = fst ` set (ap_conns a) \<union> last ` set dirs"
proof (induction dirs arbitrary: a)
  case (Cons d dirs)
  note o = open_fine [OF Cons.prems, of d]
  show ?case using Cons.IH [OF o [THEN conjunct1]] o by auto
qed simp

lemma loaded_fine: "each_connection fine (ap_conns (load_connections nt garbage w))"
  using open_all_fine [of "\<lparr>ap_world = w, ap_conns = []\<rparr>"] by (simp add: load_connections_def Let_def)

end

interpretation fresh: opened_connections nt garbage fresh_connection for nt garbage
  by unfold_locales (rule new_udp_server_fresh)

text \<open>Two friends, one of them with a history.\<close>

definition two_friends :: filesys where
  "two_friends = \<lparr>fs_files = [([''friends'', ''f'', ''ip_io''], []),
     ([''friends'', ''g'', ''messages.txt''], ''date:2025'' @ [newline])],
     fs_dirs = [[''friends''], [''friends'', ''f''], [''friends'', ''g'']]\<rparr>"

section \<open>Properties\<close>

text \<open>
  The connection data written for a friend (address, listening port, sending port) is read back
  unchanged by every reader, when the address has no white space and the ports are not negative.
\<close>

lemma ip_io_roundtrip:
  assumes "ip_word ip" "0 \<le> i" "i \<le> int_max" "0 \<le> j" "j \<le> int_max" "can_write fs (ip_io_file u)"
  shows "friend_ip (fs_write fs (ip_io_file u) (ip_io_text ip i j)) u = ip
    \<and> friend_iport (fs_write fs (ip_io_file u) (ip_io_text ip i j)) u = Inr i
    \<and> friend_oport (fs_write fs (ip_io_file u) (ip_io_text ip i j)) u = Inr j"
  using extract_ip_io_text [OF assms(1-5)] assms(6)
  by (simp add: friend_ip_def friend_iport_def friend_oport_def fs_read_simps int_value_def)

lemma ip_io_roundtrip_witness:
  "friend_iport (fs_write \<lparr>fs_files = [], fs_dirs = [[''friends''], [''friends'', ''f'']]\<rparr> (ip_io_file ''f'')
     (ip_io_text ''10.0.0.2'' 8888 8889)) ''f'' = Inr 8888"
  by (rule ip_io_roundtrip [THEN conjunct2, THEN conjunct1])
    (simp_all add: ip_word_def is_space_def int_max_def can_write_def is_directory_def ip_io_file_def
      friend_file_plain plain_name_def is_sep_def)

text \<open>
  An empty \<open>ip_io\<close> file, which is what adding a friend creates, gives the ports no value: both
  port readers and the JSON document of the connection data then use an indeterminate integer,
  which is undefined behaviour.
\<close>

lemma empty_ip_io_undefined:
  assumes "fs_read (w_fs w) (ip_io_file u) = Some []"
  shows "friend_ip (w_fs w) u = [] \<and> is_ub (friend_iport (w_fs w) u) \<and> is_ub (friend_oport (w_fs w) u)
    \<and> is_ub (make_json_ip_ports (w_fs w) u)"
proof -
  have "extract_ip_io [] = ([], None, None)"
    by (simp add: extract_ip_io_def extract_word_def extract_int_def)
  then show ?thesis
    using assms by (simp add: friend_ip_def friend_iport_def friend_oport_def make_json_ip_ports_def int_value_def)
qed

lemma empty_ip_io_undefined_witness:
  "friend_ip (w_fs (sample_world two_friends)) ''f'' = [] \<and> is_ub (friend_iport (w_fs (sample_world two_friends)) ''f'')
    \<and> is_ub (friend_oport (w_fs (sample_world two_friends)) ''f'')
    \<and> is_ub (make_json_ip_ports (w_fs (sample_world two_friends)) ''f'')"
  by (rule empty_ip_io_undefined)
    (simp add: two_friends_def fs_read_def is_directory_def ip_io_file_def friend_file_plain plain_name_def is_sep_def)

text \<open>
  Automatic selection. Among the friends whose history has a date the one with the latest
  last record is selected (no other stamp is later); if no history has a date, the first friend
  directory is; without friends the selection stays.
\<close>

lemma selection_newest:
  assumes "is_directory (w_fs w) friends_dir" "\<forall>d \<in> set (friend_dirs (w_fs w)). last d \<noteq> []"
  shows "if \<exists>d \<in> set (friend_dirs (w_fs w)). stamp (w_fs w) d \<noteq> None
    then newest (w_fs w) (friend_dirs (w_fs w)) (g_selected_user (user_selection w))
    else g_selected_user (user_selection w) =
      (case friend_dirs (w_fs w) of [] \<Rightarrow> g_selected_user w | d # _ \<Rightarrow> last d)"
proof -
  let ?ds = "friend_dirs (w_fs w)"
  obtain lu fu where sl: "select_loop (w_fs w) ?ds [] [] [] = (lu, fu)" by (metis prod.exhaust)
  have "select_inv (w_fs w) [] [] []" by (simp add: select_inv_def)
  from select_loop_inv [OF this assms(2) sl] obtain lc where
    inv: "select_inv (w_fs w) ?ds lu lc" and fu: "fu = (case ?ds of [] \<Rightarrow> [] | d # _ \<Rightarrow> last d)" by auto
  show ?thesis
  proof (cases "\<exists>d \<in> set ?ds. stamp (w_fs w) d \<noteq> None")
    case True
    then have "newest (w_fs w) ?ds lu" "lu \<noteq> []"
      using inv assms(2) by (auto simp: select_inv_def newest_def split: if_splits)
    then show ?thesis using True assms(1) sl by (simp add: user_selection_def)
  next
    case False
    then have "lu = []" using inv by (simp add: select_inv_def)
    then show ?thesis using False assms sl fu by (auto simp: user_selection_def split: list.splits)
  qed
qed

lemma selection_newest_witness:
  "newest (w_fs (sample_world two_friends)) (friend_dirs (w_fs (sample_world two_friends)))
     (g_selected_user (user_selection (sample_world two_friends)))"
proof -
  have dirs: "friend_dirs two_friends = [[''friends'', ''f''], [''friends'', ''g'']]"
    by (simp add: friend_dirs_def subdirectories_def two_friends_def friends_dir_def)
  have "stamp two_friends [''friends'', ''g''] \<noteq> None"
    by (simp add: stamp_def two_friends_def fs_read_def is_directory_def lines_of.simps Let_def
        last_field_def field_of_def starts_with_def)
  then show ?thesis
    using selection_newest [of "sample_world two_friends"]
    by (simp add: dirs) (simp add: two_friends_def is_directory_def friends_dir_def)
qed

text \<open>
  Start-up. Every friend directory, and nothing else, gets exactly one entry in the table of
  connections; an entry that is not null belongs to that friend, is bound, receives and punches,
  has sent exactly its first punch datagram and has no transfer in either direction.
\<close>

lemma connections_loaded:
  assumes "is_directory (w_fs w) friends_dir"
  shows "distinct (map fst (ap_conns (load_connections nt garbage w)))
    \<and> fst ` set (ap_conns (load_connections nt garbage w)) = last ` set (friend_dirs (w_fs w))
    \<and> (\<forall>u s. map_of (ap_conns (load_connections nt garbage w)) u = Some (Some s) \<longrightarrow> fresh_connection u s)"
proof -
  have "fst ` set (ap_conns (load_connections nt garbage w)) = last ` set (friend_dirs (w_fs w))"
    using assms fresh.open_all_fine [of "\<lparr>ap_world = w, ap_conns = []\<rparr>" nt garbage "friend_dirs (w_fs w)"]
    by (simp add: load_connections_def)
  moreover note each_connectionD [OF fresh.loaded_fine [of nt garbage w]] fresh.loaded_fine [of nt garbage w]
  ultimately show ?thesis by (simp add: each_connection_def)
qed

lemma connections_loaded_witness:
  "fst ` set (ap_conns (load_connections \<lparr>net_bind = (\<lambda>_. True), net_resolve = (\<lambda>ip p. Some (ip, 1))\<rparr>
      (replicate 512 7) (sample_world two_friends)))
    = last ` set (friend_dirs (w_fs (sample_world two_friends)))"
  by (rule connections_loaded [THEN conjunct2, THEN conjunct1])
    (simp add: two_friends_def is_directory_def friends_dir_def)

end
