(* ===== verification/CoordClient.thy ===== *)
theory CoordClient
  imports Friends
begin

text \<open>
  \<open>class tcp_c_client\<close> of \<open>app_final/client/main.cpp\<close>: the client's connection to the coordinating
  server. The object is the record \<open>coord\<close>; \<open>cc_pending\<close> lists the asynchronous operations it has
  under way, with what their handlers go on to do. A handler takes the object and the process state
  and returns its outcome with both; an exception that leaves a handler ends the process, as nothing
  around \<open>io.run()\<close> catches it.
\<close>

section \<open>State\<close>

datatype continuation = AfterRegister | AfterRoutine

datatype operation =
    Connecting
  | Writing "byte list" continuation
  | ReadingHeader continuation
  | ReadingPayload nat continuation
  | Waiting int                          \<comment> \<open>the retry timer, seconds\<close>

record coord =
  cc_registered :: bool
  cc_uuid :: string
  cc_aes_key :: "byte list"
  cc_cached_ip :: string
  cc_open :: bool
  cc_pending :: "operation list"

type_synonym coordinating = "coord \<times> app"

definition uuid_file :: path where "uuid_file = resolve ''./user_settings/uuid.txt''"
definition c_aes_key_file :: path where "c_aes_key_file = resolve ''./user_settings/c_aes.txt''"

definition start_op :: "operation \<Rightarrow> coord \<Rightarrow> coord" where
  "start_op op c = c\<lparr>cc_pending := cc_pending c @ [op]\<rparr>"

definition server_on :: "app \<Rightarrow> bool" where
  "server_on a = g_connection_to_server_active (ap_world a)"

definition app_fs :: "app \<Rightarrow> filesys" where
  "app_fs a = w_fs (ap_world a)"

definition set_world :: "(world \<Rightarrow> world) \<Rightarrow> app \<Rightarrow> app" where
  "set_world f a = a\<lparr>ap_world := f (ap_world a)\<rparr>"

text \<open>The constructor; whatever is thrown while reading the files leaves the client unregistered.\<close>

definition new_coord :: "app \<Rightarrow> coord \<times> app" where
  "new_coord a =
     (let uuid = (case read_file (app_fs a) ''./user_settings/uuid.txt'' of Inl _ \<Rightarrow> None | Inr s \<Rightarrow> Some (strip_eol s));
          key = load_hex_key (app_fs a) c_aes_key_file;
          c_uuid = (case uuid of None \<Rightarrow> [] | Some u \<Rightarrow> u);
          c = \<lparr>cc_registered = (case (uuid, key) of (Some u, Inr _) \<Rightarrow> length u = 36 | _ \<Rightarrow> False),
               cc_uuid = c_uuid,
               cc_aes_key = (case (uuid, key) of (Some _, Inr k) \<Rightarrow> k | _ \<Rightarrow> replicate 32 0),
               cc_cached_ip = ''127.0.0.1'', cc_open = False, cc_pending = []\<rparr>
      in (c, set_world (\<lambda>w. w\<lparr>g_c_server_uuid := c_uuid\<rparr>) a))"

section \<open>Retrying\<close>

fun is_waiting :: "operation \<Rightarrow> bool" where
  "is_waiting (Waiting _) = True"
| "is_waiting _ = False"

text \<open>\<open>expires_after\<close> cancels a wait of the timer, whose handler then does nothing.\<close>

definition schedule_retry :: "int \<Rightarrow> coordinating \<Rightarrow> coordinating" where
  "schedule_retry secs ca = (case ca of (c, a) \<Rightarrow>
     let c1 = c\<lparr>cc_pending := filter (\<lambda>op. \<not> is_waiting op) (cc_pending c)\<rparr>;
         c2 = (if \<not> server_on a \<and> cc_open c1 then c1\<lparr>cc_open := False, cc_registered := False\<rparr> else c1)
     in (start_op (Waiting secs) c2, a))"

definition reconnect :: "coordinating \<Rightarrow> coordinating" where
  "reconnect ca = (case ca of (c, a) \<Rightarrow> schedule_retry 5 (c\<lparr>cc_open := False\<rparr>, a))"

definition do_connect :: "coordinating \<Rightarrow> coordinating" where
  "do_connect ca = (case ca of (c, a) \<Rightarrow>
     if \<not> server_on a then schedule_retry 2 ca
     else (start_op Connecting (c\<lparr>cc_open := True\<rparr>), a))"

definition start_client :: "coordinating \<Rightarrow> coordinating" where
  "start_client ca = (if \<not> server_on (snd ca) then schedule_retry 5 ca else do_connect ca)"

text \<open>Closing the socket makes its pending operations complete with an error.\<close>

definition stop_client :: "coord \<Rightarrow> coord" where
  "stop_client c = c\<lparr>cc_pending := filter (\<lambda>op. \<not> is_waiting op) (cc_pending c), cc_open := False\<rparr>"

section \<open>Requests\<close>

definition c_frame :: "byte \<Rightarrow> byte list \<Rightarrow> byte list" where
  "c_frame type data = type # put32 (word_of_nat (length data)) @ data"

definition c_send_frame :: "byte \<Rightarrow> byte list \<Rightarrow> continuation \<Rightarrow> coord \<Rightarrow> coord" where
  "c_send_frame type data k c = start_op (Writing (c_frame type data) k) c"

definition do_register :: "coordinating \<Rightarrow> unit res \<times> coordinating" where
  "do_register ca = (case ca of (c, a) \<Rightarrow>
     case read_file (app_fs a) ''./user_settings/ECC_PUB'' of
       Inl e \<Rightarrow> (Inl e, ca)
     | Inr ecc_pub \<Rightarrow>
         if length ecc_pub < 32 then (Inr (), reconnect ca)
         else (Inr (), (c_send_frame 0x01 (bytes_of (take 32 ecc_pub)) AfterRegister c, a)))"

text \<open>The ports of the bound sockets, each once, and the friends that are not online.\<close>

definition busy_ports :: "app \<Rightarrow> u16 list" where
  "busy_ports a = remdups (List.map_filter
     (\<lambda>(u, srv). case srv of None \<Rightarrow> None | Some s \<Rightarrow> if us_open s then Some (us_port s) else None) (ap_conns a))"

definition wanted_friends :: "app \<Rightarrow> string list" where
  "wanted_friends a = filter (\<lambda>u. \<not> check_activity (ap_world a) u) (map fst (ap_conns a))"

definition put_request :: "string \<Rightarrow> u16 list \<Rightarrow> string list \<Rightarrow> byte list" where
  "put_request local_ip ports targets =
     (let ip_len = min (length local_ip) 255 in
      [word_of_nat ip_len] @ bytes_of (take ip_len local_ip)
      @ put16 (word_of_nat (length ports)) @ concat (map put16 ports)
      @ put16 (word_of_nat (length targets)) @ bytes_of (concat targets))"

definition do_routine :: "evp \<Rightarrow> coordinating \<Rightarrow> unit res \<times> coordinating" where
  "do_routine ev ca = (case ca of (c, a) \<Rightarrow>
     if \<not> server_on a then
       (Inr (), schedule_retry 2 (if cc_open c then (c\<lparr>cc_open := False, cc_registered := False\<rparr>, a) else ca))
     else
       let local_ip = cc_cached_ip c;
           a1 = set_world (\<lambda>w. w\<lparr>g_my_local_ip := local_ip\<rparr>) a;
           raw = put_request local_ip (busy_ports a1) (wanted_friends a1);
           (encrypted, e') = aes_encrypt ev (string_of raw) (cc_aes_key c) (w_entropy (ap_world a1));
           a2 = set_world (\<lambda>w. w\<lparr>w_entropy := e'\<rparr>) a1
       in case encrypted of
            Inl e \<Rightarrow> (Inl e, (c, a2))
          | Inr enc \<Rightarrow> (Inr (), (c_send_frame 0x03 (bytes_of (cc_uuid c) @ enc) AfterRoutine c, a2)))"

section \<open>Answers\<close>

definition handle_register_response :: "evp \<Rightarrow> byte list \<Rightarrow> coordinating \<Rightarrow> unit res \<times> coordinating" where
  "handle_register_response ev payload ca = (case ca of (c, a) \<Rightarrow>
     if length payload < 36 + 32 + 16 + 1 then (Inr (), reconnect ca)
     else
       let u = string_of (take 36 payload); c1 = c\<lparr>cc_uuid := u\<rparr> in
       case decrypt_ECC ev (app_fs a) (string_of (drop 36 payload)) of
         Inl (UB what) \<Rightarrow> (Inl (UB what), (c1, a))
       | Inl (Throw e) \<Rightarrow> (Inr (), reconnect (c1, a))
       | Inr key \<Rightarrow>
           let fs1 = fs_write (app_fs a) uuid_file u;
               fs2 = save_hex_key fs1 c_aes_key_file key
           in do_routine ev (c1\<lparr>cc_aes_key := key, cc_registered := True\<rparr>,
                set_world (\<lambda>w. w\<lparr>w_fs := fs2, g_uuid := u, g_c_server_uuid := u\<rparr>) a))"

fun parse_peers :: "string \<Rightarrow> nat \<Rightarrow> nat \<Rightarrow> peer_info list" where
  "parse_peers d 0 offset = []"
| "parse_peers d (Suc n) offset =
     (if offset \<ge> length d \<or> offset + 36 > length d \<or> offset + 36 + 1 > length d then []
      else
        let uuid = take 36 (drop offset d);
            ip_len = unat (byte_of (d ! (offset + 36)));
            at_ip = offset + 37;
            at_ports = at_ip + ip_len
        in if at_ports > length d \<or> at_ports + 4 > length d then []
           else \<lparr>pi_uuid = uuid, pi_ip = take ip_len (drop at_ip d),
                 pi_iport = get16 (byte_of (d ! at_ports)) (byte_of (d ! (at_ports + 1))),
                 pi_oport = get16 (byte_of (d ! (at_ports + 2))) (byte_of (d ! (at_ports + 3)))\<rparr>
                # parse_peers d n (at_ports + 4))"

text \<open>One found peer: it is recorded, and a friend's connection is opened or redirected.\<close>

definition apply_peer :: "net \<Rightarrow> byte list \<Rightarrow> peer_info \<Rightarrow> app \<Rightarrow> unit res \<times> app" where
  "apply_peer nt garbage p a =
     (let a1 = set_world (\<lambda>w. w\<lparr>g_found_peers := g_found_peers w @ [p]\<rparr>) a;
          i = int (unat (pi_iport p)); j = int (unat (pi_oport p))
      in case map_of (ap_conns a) (pi_uuid p) of
           None \<Rightarrow> (Inr (), a1)
         | Some conn \<Rightarrow>
             let a2 = set_world (\<lambda>w. w\<lparr>w_fs := fs_write (w_fs w) (ip_io_file (pi_uuid p)) (ip_io_text (pi_ip p) i j)\<rparr>) a1
             in (case conn of
                   None \<Rightarrow>
                     (case new_udp_server nt i j (pi_ip p) (pi_uuid p) garbage (ap_world a2) of
                        (Inl _, w1) \<Rightarrow> (Inr (), a2\<lparr>ap_world := w1\<rparr>)
                      | (Inr s, w1) \<Rightarrow> (Inr (), \<lparr>ap_world = w1, ap_conns = AList.update (pi_uuid p) (Some s) (ap_conns a2)\<rparr>))
                 | Some s \<Rightarrow>
                     (case change_target nt i j (pi_ip p) s of
                        (r, s') \<Rightarrow> (r, a2\<lparr>ap_conns := AList.update (pi_uuid p) (Some s') (ap_conns a2)\<rparr>))))"

fun apply_peers :: "net \<Rightarrow> byte list \<Rightarrow> peer_info list \<Rightarrow> app \<Rightarrow> unit res \<times> app" where
  "apply_peers nt garbage [] a = (Inr (), a)"
| "apply_peers nt garbage (p # ps) a =
     (case apply_peer nt garbage p a of (Inl e, a1) \<Rightarrow> (Inl e, a1) | (Inr _, a1) \<Rightarrow> apply_peers nt garbage ps a1)"

definition handle_routine_response ::
  "evp \<Rightarrow> net \<Rightarrow> byte list \<Rightarrow> byte list \<Rightarrow> coordinating \<Rightarrow> unit res \<times> coordinating" where
  "handle_routine_response ev nt garbage payload ca = (case ca of (c, a) \<Rightarrow>
     case aes_decrypt ev payload (cc_aes_key c) of
       Inl (UB what) \<Rightarrow> (Inl (UB what), ca)
     | Inl (Throw e) \<Rightarrow> (Inr (), schedule_retry 2 ca)
     | Inr decrypted \<Rightarrow>
         if length decrypted < 2 then (Inr (), schedule_retry 2 ca)
         else
           let num_peers = unat (get16 (byte_of (decrypted ! 0)) (byte_of (decrypted ! 1)));
               a1 = set_world (\<lambda>w. w\<lparr>g_found_peers := []\<rparr>) a
           in (case apply_peers nt garbage (parse_peers decrypted num_peers 2) a1 of
                 (Inl e, a2) \<Rightarrow> (Inl e, (c, a2))
               | (Inr _, a2) \<Rightarrow> (Inr (), schedule_retry 2 (c, a2))))"

section \<open>Completion handlers\<close>

definition connected :: "evp \<Rightarrow> bool \<Rightarrow> string option \<Rightarrow> coordinating \<Rightarrow> unit res \<times> coordinating" where
  "connected ev ok local_endpoint ca = (case ca of (c, a) \<Rightarrow>
     if \<not> ok then (Inr (), reconnect ca)
     else
       let c1 = c\<lparr>cc_cached_ip := (case local_endpoint of None \<Rightarrow> ''127.0.0.1'' | Some ip \<Rightarrow> ip)\<rparr> in
       if \<not> cc_registered c then do_register (c1, a) else do_routine ev (c1, a))"

definition frame_written :: "bool \<Rightarrow> continuation \<Rightarrow> coordinating \<Rightarrow> coordinating" where
  "frame_written ok k ca = (case ca of (c, a) \<Rightarrow>
     if \<not> ok then reconnect ca else (start_op (ReadingHeader k) c, a))"

definition header_read :: "bool \<Rightarrow> byte list \<Rightarrow> continuation \<Rightarrow> coordinating \<Rightarrow> coordinating" where
  "header_read ok hdr k ca = (case ca of (c, a) \<Rightarrow>
     if \<not> ok then reconnect ca
     else (start_op (ReadingPayload (unat (get32 (hdr ! 1) (hdr ! 2) (hdr ! 3) (hdr ! 4))) k) c, a))"

definition payload_read ::
  "evp \<Rightarrow> net \<Rightarrow> byte list \<Rightarrow> bool \<Rightarrow> byte list \<Rightarrow> continuation \<Rightarrow> coordinating \<Rightarrow> unit res \<times> coordinating" where
  "payload_read ev nt garbage ok payload k ca =
     (if \<not> ok then (Inr (), reconnect ca)
      else case k of AfterRegister \<Rightarrow> handle_register_response ev payload ca
        | AfterRoutine \<Rightarrow> handle_routine_response ev nt garbage payload ca)"

definition timer_fires :: "evp \<Rightarrow> coordinating \<Rightarrow> unit res \<times> coordinating" where
  "timer_fires ev ca = (case ca of (c, a) \<Rightarrow>
     if \<not> server_on a then (Inr (), schedule_retry 2 ca)
     else if \<not> cc_open c then (Inr (), do_connect ca)
     else do_routine ev ca)"

end
