(* ===== verification/CoordSteps.thy ===== *)
theory CoordSteps
  imports CoordClient Machine
begin

text \<open>
  The coordinating client as a state machine: a step completes one of its pending operations and
  runs that operation's handler, or lets the rest of the program change the shared process state
  (the browser's requests do). The invariant says that the client never stops and never does two
  things at once, and that it asks for peers only when it is registered.
\<close>

section \<open>Steps\<close>

text \<open>Completion of one pending operation, with the outcome the runtime may report.\<close>

inductive completes :: "evp \<Rightarrow> net \<Rightarrow> byte list \<Rightarrow> operation \<Rightarrow> coordinating \<Rightarrow> unit res \<times> coordinating \<Rightarrow> bool"
  for ev nt garbage where
  connect: "completes ev nt garbage Connecting ca (connected ev ok ip ca)"
| wrote: "completes ev nt garbage (Writing f k) ca (Inr (), frame_written ok k ca)"
| header: "length hdr = 5 \<Longrightarrow> completes ev nt garbage (ReadingHeader k) ca (Inr (), header_read ok hdr k ca)"
| payload: "length data = n \<Longrightarrow>
     completes ev nt garbage (ReadingPayload n k) ca (payload_read ev nt garbage ok data k ca)"
| timer: "completes ev nt garbage (Waiting secs) ca (timer_fires ev ca)"

inductive_cases completesE: "completes ev nt garbage op ca r"

inductive coord_step :: "evp \<Rightarrow> net \<Rightarrow> byte list \<Rightarrow> coordinating \<Rightarrow> coordinating \<Rightarrow> bool" for ev nt garbage where
  complete: "cc_pending c = xs @ op # ys \<Longrightarrow>
     completes ev nt garbage op (c\<lparr>cc_pending := xs @ ys\<rparr>, a) (Inr (), ca') \<Longrightarrow>
     coord_step ev nt garbage (c, a) ca'"
| environment: "coord_step ev nt garbage (c, a) (c, a')"

inductive coord_reachable :: "evp \<Rightarrow> net \<Rightarrow> byte list \<Rightarrow> coordinating \<Rightarrow> bool" for ev nt garbage where
  start: "coord_reachable ev nt garbage (start_client (new_coord a))"
| step: "coord_reachable ev nt garbage ca \<Longrightarrow> coord_step ev nt garbage ca ca' \<Longrightarrow>
     coord_reachable ev nt garbage ca'"

section \<open>The invariant\<close>

text \<open>The identity of a registered client.\<close>

definition identity_ok :: "coord \<Rightarrow> bool" where
  "identity_ok c \<longleftrightarrow> (cc_registered c \<longrightarrow> length (cc_uuid c) = 36 \<and> length (cc_aes_key c) = 32)"

text \<open>An operation in progress fits the object: sockets are open, requests come from registered clients.\<close>

fun op_ok :: "coord \<Rightarrow> operation \<Rightarrow> bool" where
  "op_ok c (Waiting _) \<longleftrightarrow> (cc_open c \<longrightarrow> cc_registered c)"
| "op_ok c (Writing f AfterRoutine) \<longleftrightarrow> cc_open c \<and> cc_registered c \<and> f ! 0 = 0x03
     \<and> take 36 (drop 5 f) = bytes_of (cc_uuid c)"
| "op_ok c (Writing f AfterRegister) \<longleftrightarrow> cc_open c \<and> f ! 0 = 0x01"
| "op_ok c (ReadingHeader AfterRoutine) \<longleftrightarrow> cc_open c \<and> cc_registered c"
| "op_ok c (ReadingPayload n AfterRoutine) \<longleftrightarrow> cc_open c \<and> cc_registered c"
| "op_ok c _ \<longleftrightarrow> cc_open c"

definition one_op :: "coord \<Rightarrow> bool" where
  "one_op c \<longleftrightarrow> identity_ok c \<and> (\<exists>op. cc_pending c = [op] \<and> op_ok c op)"

text \<open>The state of the object while a handler runs, with nothing pending.\<close>

definition ready :: "coord \<Rightarrow> bool" where
  "ready c \<longleftrightarrow> identity_ok c \<and> cc_pending c = []"

lemma schedule_retry_one:
  "ready c \<Longrightarrow> cc_open c \<longrightarrow> cc_registered c \<Longrightarrow> one_op (fst (schedule_retry secs (c, a)))"
  by (auto simp: ready_def one_op_def identity_ok_def schedule_retry_def start_op_def Let_def)

lemma schedule_retry_snd [simp]: "snd (schedule_retry secs ca) = snd ca"
  by (simp add: schedule_retry_def Let_def split: prod.split)

lemma ready_open [simp]: "ready (c\<lparr>cc_open := b\<rparr>) = ready c" "ready (c\<lparr>cc_cached_ip := ip\<rparr>) = ready c"
  by (simp_all add: ready_def identity_ok_def)

lemma ready_close: "ready c \<Longrightarrow> ready (c\<lparr>cc_open := False, cc_registered := False\<rparr>)"
  by (simp add: ready_def identity_ok_def)

lemma reconnect_one: "ready c \<Longrightarrow> one_op (fst (reconnect (c, a)))"
  by (simp add: reconnect_def schedule_retry_one)

lemma do_connect_one: "ready c \<Longrightarrow> \<not> cc_open c \<Longrightarrow> one_op (fst (do_connect (c, a)))"
  by (simp add: do_connect_def schedule_retry_one)
    (simp add: ready_def one_op_def identity_ok_def start_op_def)

lemma c_send_frame_one:
  "ready c \<Longrightarrow> op_ok c (Writing (c_frame t d) k) \<Longrightarrow> one_op (c_send_frame t d k c)"
  by (cases k) (auto simp: ready_def one_op_def identity_ok_def c_send_frame_def start_op_def)

lemma do_register_one:
  assumes "ready c" "cc_open c" "do_register (c, a) = (Inr x, (c', a'))"
  shows "one_op c'"
proof -
  consider "(c', a') = reconnect (c, a)" | d where "c' = c_send_frame 0x01 d AfterRegister c"
    using assms(3) by (auto simp: do_register_def split: sum.splits if_splits)
  then show ?thesis
  proof cases
    case 1
    then show ?thesis using reconnect_one [OF assms(1), of a] by (metis fst_conv)
  next
    case 2
    then show ?thesis using c_send_frame_one [OF assms(1)] assms(2) by (simp add: c_frame_def)
  qed
qed

lemma do_routine_one:
  assumes "ready c" "cc_open c" "cc_registered c" "do_routine ev (c, a) = (Inr x, (c', a'))"
  shows "one_op c'"
proof (cases "server_on a")
  case False
  then have "(c', a') = schedule_retry 2 (c\<lparr>cc_open := False, cc_registered := False\<rparr>, a)"
    using assms(2,4) by (simp add: do_routine_def)
  moreover have "one_op (fst (schedule_retry 2 (c\<lparr>cc_open := False, cc_registered := False\<rparr>, a)))"
    using schedule_retry_one [OF ready_close [OF assms(1)]] by simp
  ultimately show ?thesis by (metis fst_conv)
next
  case True
  have u: "length (cc_uuid c) = 36" using assms(1,3) by (simp add: ready_def identity_ok_def)
  obtain enc where "c' = c_send_frame 0x03 (bytes_of (cc_uuid c) @ enc) AfterRoutine c"
    using True assms(4) by (auto simp: do_routine_def Let_def split: prod.splits sum.splits)
  then show ?thesis
    using c_send_frame_one [OF assms(1)] assms(2,3) u by (simp add: c_frame_def put32_def)
qed

lemma decrypt_ECC_length: "decrypt_ECC ev fs p = Inr k \<Longrightarrow> length k = 32"
  by (auto simp: decrypt_ECC_def Let_def bind_res_Inr_iff split: if_splits option.splits)

lemma handle_register_response_one:
  assumes "ready c" "cc_open c" "handle_register_response ev payload (c, a) = (Inr x, (c', a'))"
  shows "one_op c'"
proof (cases "length payload < 85 \<or> (\<exists>e. decrypt_ECC ev (app_fs a) (string_of (drop 36 payload)) = Inl e)")
  case True
  then obtain c1 where "ready c1" "(c', a') = reconnect (c1, a)"
  proof (cases "length payload < 85")
    case False
    have "\<not> is_ub (decrypt_ECC ev (app_fs a) (string_of (drop 36 payload)))" by (rule decrypt_ECC_not_ub)
    with False True assms(3) have "(c', a') = reconnect (c\<lparr>cc_uuid := string_of (take 36 payload)\<rparr>, a)"
      by (auto simp: handle_register_response_def Let_def split: failure.splits)
    moreover have "ready (c\<lparr>cc_uuid := string_of (take 36 payload)\<rparr>)"
      using False assms(1) by (simp add: ready_def identity_ok_def)
    ultimately show thesis using that by blast
  qed (use that assms in \<open>simp add: handle_register_response_def\<close>)
  then show ?thesis using reconnect_one by (metis fst_conv)
next
  case False
  then obtain key where k: "decrypt_ECC ev (app_fs a) (string_of (drop 36 payload)) = Inr key" "85 \<le> length payload"
    by (cases "decrypt_ECC ev (app_fs a) (string_of (drop 36 payload))") auto
  then obtain a1 where r: "do_routine ev (c\<lparr>cc_uuid := string_of (take 36 payload), cc_aes_key := key,
      cc_registered := True\<rparr>, a1) = (Inr x, (c', a'))"
    using assms(3) by (auto simp: handle_register_response_def Let_def)
  have "ready (c\<lparr>cc_uuid := string_of (take 36 payload), cc_aes_key := key, cc_registered := True\<rparr>)"
    using assms(1) k decrypt_ECC_length [OF k(1)] by (simp add: ready_def identity_ok_def)
  from do_routine_one [OF this _ _ r] show ?thesis using assms(2) by simp
qed

lemma handle_routine_response_one:
  assumes "ready c" "cc_open c" "cc_registered c"
    and "handle_routine_response ev nt garbage payload (c, a) = (Inr x, (c', a'))"
  shows "one_op c'"
proof -
  have "\<exists>a1. schedule_retry 2 (c, a1) = (c', a')"
    using assms(4) aes_decrypt_not_ub [of ev payload "cc_aes_key c"]
    by (auto simp: handle_routine_response_def Let_def split: sum.splits failure.splits if_splits prod.splits)
  then show ?thesis using schedule_retry_one [OF assms(1)] assms(3) by (metis fst_conv)
qed

lemma reconnect_oneD: "reconnect (c, a) = (c', a') \<Longrightarrow> ready c \<Longrightarrow> one_op c'"
  using reconnect_one [of c a] by simp

lemma connected_one:
  assumes "connected ev ok ip (c, a) = (Inr x, (c', a'))" "ready c" "cc_open c"
  shows "one_op c'"
proof (cases ok)
  case True
  let ?c = "c\<lparr>cc_cached_ip := (case ip of None \<Rightarrow> ''127.0.0.1'' | Some ip \<Rightarrow> ip)\<rparr>"
  have "(if \<not> cc_registered c then do_register (?c, a) else do_routine ev (?c, a)) = (Inr x, (c', a'))"
    using assms(1) True by (simp add: connected_def Let_def)
  then show ?thesis
    using assms(2,3) do_register_one [of ?c a x c' a'] do_routine_one [of ?c ev a x c' a'] by (simp split: if_splits)
qed (use assms reconnect_oneD in \<open>auto simp: connected_def\<close>)

lemma frame_written_one:
  assumes "frame_written ok k (c, a) = (c', a')" "ready c" "op_ok c (Writing f k)"
  shows "one_op c'"
proof (cases ok)
  case True
  then show ?thesis using assms
    by (cases k) (auto simp: frame_written_def start_op_def one_op_def ready_def identity_ok_def)
qed (use assms(1,2) reconnect_oneD in \<open>simp add: frame_written_def\<close>)

lemma header_read_one:
  assumes "header_read ok hdr k (c, a) = (c', a')" "ready c" "op_ok c (ReadingHeader k)"
  shows "one_op c'"
proof (cases ok)
  case True
  then show ?thesis using assms
    by (cases k) (auto simp: header_read_def start_op_def one_op_def ready_def identity_ok_def)
qed (use assms(1,2) reconnect_oneD in \<open>simp add: header_read_def\<close>)

lemma payload_read_one:
  assumes "payload_read ev nt garbage ok data k (c, a) = (Inr x, (c', a'))" "ready c" "op_ok c (ReadingPayload n k)"
  shows "one_op c'"
proof (cases ok)
  case True
  then have "(case k of AfterRegister \<Rightarrow> handle_register_response ev data (c, a)
      | AfterRoutine \<Rightarrow> handle_routine_response ev nt garbage data (c, a)) = (Inr x, (c', a'))"
    using assms(1) by (simp add: payload_read_def)
  then show ?thesis
    using assms(2,3) handle_register_response_one [of c ev data a x c' a']
      handle_routine_response_one [of c ev nt garbage data a x c' a']
    by (cases k) auto
qed (use assms reconnect_oneD in \<open>auto simp: payload_read_def\<close>)

lemma timer_fires_one:
  assumes "timer_fires ev (c, a) = (Inr x, (c', a'))" "ready c" "op_ok c (Waiting secs)"
  shows "one_op c'"
proof (cases "server_on a \<and> cc_open c")
  case True
  then show ?thesis using assms do_routine_one [OF assms(2)] by (simp add: timer_fires_def)
next
  case False
  then have "(c', a') = schedule_retry 2 (c, a) \<or> \<not> cc_open c \<and> (c', a') = do_connect (c, a)"
    using assms(1) by (auto simp: timer_fires_def split: if_splits)
  then show ?thesis using schedule_retry_one [OF assms(2), of 2 a] do_connect_one [OF assms(2), of a] assms(3)
    by (metis fst_conv op_ok.simps(1))
qed

lemma completes_one:
  assumes "completes ev nt garbage op (c, a) (Inr x, (c', a'))" "ready c" "op_ok c op"
  shows "one_op c'"
  using assms(1)
proof (cases rule: completes.cases)
  case (connect ok ip)
  then show ?thesis using connected_one assms(2,3) by (metis op_ok.simps(6))
next
  case (wrote f k ok)
  then show ?thesis using frame_written_one assms(2,3) by (metis Pair_inject)
next
  case (header hdr k ok)
  then show ?thesis using header_read_one assms(2,3) by (metis Pair_inject)
next
  case (payload data n k ok)
  then show ?thesis using payload_read_one assms(2,3) by metis
next
  case (timer secs)
  then show ?thesis using timer_fires_one assms(2,3) by metis
qed

lemma ready_pending: "one_op c \<Longrightarrow> cc_pending c = xs @ op # ys \<Longrightarrow>
    ready (c\<lparr>cc_pending := xs @ ys\<rparr>) \<and> op_ok (c\<lparr>cc_pending := xs @ ys\<rparr>) op"
proof -
  assume o: "one_op c" and p: "cc_pending c = xs @ op # ys"
  have "xs = [] \<and> ys = [] \<and> op_ok c op" using o p by (auto simp: one_op_def Cons_eq_append_conv append_eq_Cons_conv)
  moreover have "op_ok (c\<lparr>cc_pending := l\<rparr>) op = op_ok c op" for l
    by (cases "(c, op)" rule: op_ok.cases) simp_all
  ultimately show ?thesis using o by (simp add: one_op_def ready_def identity_ok_def)
qed

lemma coord_step_one: "coord_step ev nt garbage ca ca' \<Longrightarrow> one_op (fst ca) \<Longrightarrow> one_op (fst ca')"
proof (induction rule: coord_step.induct)
  case (complete c xs op ys a ca')
  obtain c' a' where ca': "ca' = (c', a')" by (cases ca')
  from completes_one [OF complete(2) [unfolded ca']] ready_pending [OF _ complete(1)] complete.prems
  show ?case unfolding ca' by simp
qed simp

lemma new_coord_ready: "ready (fst (new_coord a))" "\<not> cc_open (fst (new_coord a))"
  by (auto simp: new_coord_def Let_def ready_def identity_ok_def dest: load_hex_key_length split: sum.splits option.splits)

definition coord_start :: "coordinating \<Rightarrow> bool" where
  "coord_start ca \<longleftrightarrow> (\<exists>a. ca = start_client (new_coord a))"

lemma coord_start_one: "coord_start ca \<Longrightarrow> one_op (fst ca)"
proof -
  assume "coord_start ca"
  then obtain a c a1 where n: "ca = start_client (c, a1)" "new_coord a = (c, a1)"
    unfolding coord_start_def by (metis prod.exhaust)
  then show "one_op (fst ca)"
    using new_coord_ready [of a] schedule_retry_one [of c 5 a1] do_connect_one [of c a1]
    by (simp add: start_client_def)
qed

interpretation client: machine coord_start "coord_step ev nt garbage" "\<lambda>ca. one_op (fst ca)" for ev nt garbage
  by unfold_locales (rule coord_start_one, assumption, rule coord_step_one)

lemma coord_reaches: "coord_reachable ev nt garbage ca \<Longrightarrow> \<exists>s. coord_start s \<and> (coord_step ev nt garbage)\<^sup>*\<^sup>* s ca"
proof (induction rule: coord_reachable.induct)
  case (start a)
  then show ?case unfolding coord_start_def by blast
next
  case (step ca ca')
  then show ?case by (meson rtranclp.rtrancl_into_rtrancl)
qed

lemma coord_reachable_one: "coord_reachable ev nt garbage ca \<Longrightarrow> one_op (fst ca)"
  using coord_reaches client.reached_good by metis

section \<open>Properties of the client\<close>

text \<open>
  C21: the client never stops and never does two things at once. In every reachable state exactly
  one operation is pending; a routine frame is sent only by a registered client, under its own
  identifier, and a registered client has a 36-character identifier and a 32-byte key.
\<close>

theorem client_never_stuck:
  assumes "coord_reachable ev nt garbage (c, a)"
  shows "(\<exists>op. cc_pending c = [op]
      \<and> (\<forall>f. op = Writing f AfterRoutine \<longrightarrow>
           cc_registered c \<and> f ! 0 = 0x03 \<and> take 36 (drop 5 f) = bytes_of (cc_uuid c))
      \<and> (\<forall>f. op = Writing f AfterRegister \<longrightarrow> f ! 0 = 0x01))
    \<and> (cc_registered c \<longrightarrow> length (cc_uuid c) = 36 \<and> length (cc_aes_key c) = 32)"
  using coord_reachable_one [OF assms] by (auto simp: one_op_def identity_ok_def)

text \<open>A process with the given files, no connection, and the coordinating server switched on or off.\<close>

definition idle_app :: "bool \<Rightarrow> filesys \<Rightarrow> app" where
  "idle_app on fs = \<lparr>ap_world = (sample_world fs)\<lparr>g_connection_to_server_active := on\<rparr>, ap_conns = []\<rparr>"

lemma idle_app_simps [simp]: "server_on (idle_app on fs) = on" "app_fs (idle_app on fs) = fs"
  by (simp_all add: idle_app_def server_on_def app_fs_def)

text \<open>The key pair of a user whose two key files hold the same 32 bytes.\<close>

definition sample_keys :: filesys where
  "sample_keys = \<lparr>fs_files = [([''user_settings'', ''ECC_PUB''], string_of (replicate 32 9)),
     ([''user_settings'', ''ECC''], string_of (replicate 32 9))], fs_dirs = [[''user_settings'']]\<rparr>"

definition small_net :: net where
  "small_net = \<lparr>net_bind = (\<lambda>port. port \<noteq> 0), net_resolve = (\<lambda>host service. Some (host, length service))\<rparr>"

theorem client_never_stuck_witness:
  "\<exists>c a op. start_client (new_coord (idle_app False \<lparr>fs_files = [], fs_dirs = []\<rparr>)) = (c, a)
    \<and> cc_pending c = [op]"
proof -
  obtain c a where st: "start_client (new_coord (idle_app False \<lparr>fs_files = [], fs_dirs = []\<rparr>)) = (c, a)"
    by (metis prod.exhaust)
  then have "coord_reachable plain_evp small_net [] (c, a)"
    using coord_reachable.start [of plain_evp small_net "[]" "idle_app False \<lparr>fs_files = [], fs_dirs = []\<rparr>"]
    by simp
  from client_never_stuck [OF this] st show ?thesis by blast
qed

text \<open>
  Switching the coordinating server off and on again makes the client register anew. When the
  retry timer fires with the switch off, the open socket is closed and the registration dropped;
  once the switch is on, the next expiry connects, and the connection registers the same public key
  again, although the identifier and the key of the first registration are still there.
\<close>

lemma switch_forgets_registration:
  assumes "cc_pending c = []" "cc_open c" "\<not> server_on a" "server_on a'"
    and "read_file (app_fs a') ''./user_settings/ECC_PUB'' = Inr pub" "32 \<le> length pub"
  shows "\<exists>c1 c2 c3. timer_fires ev (c, a) = (Inr (), (c1, a)) \<and> cc_pending c1 = [Waiting 2]
    \<and> \<not> cc_open c1 \<and> \<not> cc_registered c1
    \<and> timer_fires ev (c1\<lparr>cc_pending := []\<rparr>, a') = (Inr (), (c2, a')) \<and> cc_pending c2 = [Connecting]
    \<and> connected ev True ip (c2\<lparr>cc_pending := []\<rparr>, a') = (Inr (), (c3, a'))
    \<and> cc_pending c3 = [Writing (c_frame 0x01 (bytes_of (take 32 pub))) AfterRegister]
    \<and> cc_uuid c3 = cc_uuid c \<and> cc_aes_key c3 = cc_aes_key c"
  using assms
  by (simp add: timer_fires_def schedule_retry_def do_connect_def connected_def do_register_def
      c_send_frame_def start_op_def Let_def)

lemma switch_forgets_registration_witness:
  "\<exists>c1. timer_fires plain_evp (\<lparr>cc_registered = True, cc_uuid = replicate 36 (CHR ''a''),
        cc_aes_key = replicate 32 7, cc_cached_ip = [], cc_open = True, cc_pending = []\<rparr>, idle_app False sample_keys)
      = (Inr (), (c1, idle_app False sample_keys)) \<and> \<not> cc_registered c1"
  using switch_forgets_registration [where c = "\<lparr>cc_registered = True, cc_uuid = replicate 36 (CHR ''a''),
        cc_aes_key = replicate 32 7, cc_cached_ip = [], cc_open = True, cc_pending = []\<rparr>"
      and a = "idle_app False sample_keys" and a' = "idle_app True sample_keys" and ev = plain_evp
      and pub = "string_of (replicate 32 9)" and ip = None]
  by (simp add: sample_keys_def read_file_def fs_read_def is_directory_def resolve_def resolve_step_def is_sep_def)
    blast

end
