(* ===== verification/Coordination.thy ===== *)
theory Coordination
  imports CoordSteps IntroSteps
begin

text \<open>
  The client and the coordinating server together: the two implementations of the wire format fit
  each other. What \<open>do_routine\<close> of the client serialises is what \<open>process_routine_request\<close> of the
  server parses, the peers the server lists are the peers the client reads, and a registration
  leaves both sides with the same key. The limits of the server that the client does not respect are here too.
\<close>

section \<open>Frames\<close>

lemma c_frame_frame: "c_frame = frame"
  by (simp add: fun_eq_iff c_frame_def frame_def)

lemma frame_parts [simp]: "take 5 (frame t d) = t # put32 (word_of_nat (length d))" "drop 5 (frame t d) = d"
  by (simp_all add: frame_def)

lemma frame_length_field:
  "length d < 2 ^ 32 \<Longrightarrow> unat (get32 (frame t d ! Suc 0) (frame t d ! 2) (frame t d ! 3) (frame t d ! 4)) = length d"
  by (simp add: frame_def put32_def get32_put unat_of_nat)

lemma header_arrives_frame:
  assumes "length d \<le> 512 * 1024"
  shows "header_arrives (take 5 (frame t d)) s = s\<lparr>ss_pending := ReadPayload t (length d)\<rparr>"
proof -
  have "unat (get32 (frame t d ! Suc 0) (frame t d ! 2) (frame t d ! 3) (frame t d ! 4)) = length d"
    using assms by (intro frame_length_field) simp
  then show ?thesis
    using assms by (simp add: header_arrives_def Let_def word_less_nat_alt del: frame_parts)
qed

lemma header_read_frame:
  "length d < 2 ^ 32 \<Longrightarrow> header_read True (take 5 (frame t d)) k (c, a)
     = (start_op (ReadingPayload (length d) k) c, a)"
  by (simp add: header_read_def frame_length_field del: frame_parts)

section \<open>The request\<close>

lemma nth_drop_0: "drop off s = x # xs \<Longrightarrow> s ! off = x \<and> off < length s"
  by (metis add.right_neutral drop_eq_Nil2 leI list.distinct(1) nth_Cons_0 nth_drop less_imp_le_nat)

lemma u16_at_put:
  assumes "drop off s = string_of (put16 x) @ rest"
  shows "u16_at s off = Inr x"
proof -
  have d: "drop off s = char_of_byte (ucast (drop_bit 8 x)) # char_of_byte (ucast x) # rest"
    using assms by (simp add: put16_def)
  then have "drop (Suc off) s = char_of_byte (ucast x) # rest"
    by (metis drop_Suc list.sel(3) tl_drop)
  with d have "s ! off = char_of_byte (ucast (drop_bit 8 x))" "s ! Suc off = char_of_byte (ucast x)"
    "Suc off < length s"
    by (blast dest: nth_drop_0)+
  then show ?thesis by (simp add: u16_at_inside get16_put)
qed

lemma drop_more: "drop off s = a @ b \<Longrightarrow> length a = n \<Longrightarrow> drop (off + n) s = b"
  by (metis add.commute append_eq_conv_conj drop_drop)

lemma read_ports_put:
  "drop off s = string_of (concat (map put16 ports)) @ rest \<Longrightarrow> read_ports s off (length ports) = Inr ports"
proof (induction ports arbitrary: off)
  case (Cons p ports)
  have "drop off s = string_of (put16 p) @ string_of (concat (map put16 ports)) @ rest"
    using Cons.prems by simp
  from u16_at_put [OF this] Cons.IH [OF drop_more [OF this]] show ?case by simp
qed simp

lemma read_targets_put:
  "drop off s = concat ts @ rest \<Longrightarrow> \<forall>t \<in> set ts. length t = 36 \<Longrightarrow> read_targets s off (length ts) = Inr ts"
proof (induction ts arbitrary: off)
  case (Cons t ts)
  have d: "drop off s = t @ concat ts @ rest" using Cons.prems by simp
  have "off \<le> length s" using d Cons.prems(2) by (metis drop_eq_Nil2 append_is_Nil_conv list.size(3) nle_le
        zero_neq_numeral list.set_intros(1))
  then have "substr s off 36 = Inr t" using d Cons.prems(2) by (simp add: substr_def)
  with Cons.IH [OF drop_more [OF d]] Cons.prems(2) show ?case by simp
qed simp

text \<open>The parser on what the client wrote, up to the limit on the targets.\<close>

lemma parse_request_put:
  assumes "length ip \<le> 255" "length ports \<le> 100" "length targets < 65536"
    and "\<forall>t \<in> set targets. length t = 36"
  shows "parse_request (string_of (put_request ip ports targets)) =
    (if length targets > 32 then throw ''Odmowa uslugi: Zbyt duza lista celow'' else Inr (ip, ports, targets))"
proof -
  let ?n = "length ip" and ?k = "length ports" and ?t = "length targets"
  define s where "s = string_of (put_request ip ports targets)"
  have s: "s = char_of_byte (word_of_nat ?n) # ip @ string_of (put16 (word_of_nat ?k))
      @ string_of (concat (map put16 ports)) @ string_of (put16 (word_of_nat ?t)) @ concat targets"
    using assms(1) by (simp add: s_def put_request_def Let_def min_absorb1)
  have ct: "length (concat targets) = 36 * ?t"
    using assms(4) by (induction targets) auto
  have cp: "length (concat (map put16 ports)) = 2 * ?k"
    by (induction ports) auto
  have len: "length s = 1 + ?n + 2 + 2 * ?k + 2 + 36 * ?t"
    unfolding s using ct cp by simp
  have c0: "char_at s 0 = Inr (word_of_nat ?n)" by (simp add: s char_at_def)
  have d1: "drop 1 s = ip @ drop (1 + ?n) s" by (simp add: s)
  have ip: "substr s 1 ?n = Inr ip" using len d1 by (simp add: substr_def s)
  have u: "unat (word_of_nat ?n :: byte) = ?n" "unat (word_of_nat ?k :: u16) = ?k" "unat (word_of_nat ?t :: u16) = ?t"
    using assms(1-3) by (simp_all add: unat_of_nat)
  have dp: "drop (1 + ?n) s = string_of (put16 (word_of_nat ?k)) @ string_of (concat (map put16 ports))
      @ string_of (put16 (word_of_nat ?t)) @ concat targets" by (simp add: s)
  have dq: "drop (1 + ?n + 2) s = string_of (concat (map put16 ports)) @ string_of (put16 (word_of_nat ?t)) @ concat targets"
    by (rule drop_more [OF dp]) simp
  have dr: "drop (1 + ?n + 2 + 2 * ?k) s = string_of (put16 (word_of_nat ?t)) @ concat targets"
    by (rule drop_more [OF dq]) (simp add: cp)
  have ds: "drop (1 + ?n + 2 + 2 * ?k + 2) s = concat targets @ []"
    using drop_more [OF dr] by simp
  note reads = u16_at_put [OF dp] u16_at_put [OF dr] read_ports_put [OF dq] read_targets_put [OF ds assms(4)]
  show ?thesis
    unfolding s_def [symmetric] parse_request_def
    using len c0 ip u reads assms(2) by (simp add: Let_def)
qed

section \<open>The answer\<close>

definition peer_of :: "match_data \<Rightarrow> peer_info" where
  "peer_of m = \<lparr>pi_uuid = md_uuid m, pi_ip = md_ip m, pi_iport = md_port1 m, pi_oport = md_port2 m\<rparr>"

definition match_ok :: "match_data \<Rightarrow> bool" where
  "match_ok m \<longleftrightarrow> length (md_uuid m) = 36 \<and> length (md_ip m) \<le> 255"

lemma parse_peers_put:
  "drop off d = string_of (concat (map put_match ms)) @ rest \<Longrightarrow> \<forall>m \<in> set ms. match_ok m \<Longrightarrow>
     parse_peers d (length ms) off = map peer_of ms"
proof (induction ms arbitrary: off)
  case (Cons m ms)
  let ?n = "length (md_ip m)"
  have ok: "length (md_uuid m) = 36" "?n \<le> 255" using Cons.prems(2) by (simp_all add: match_ok_def)
  define more where "more = string_of (concat (map put_match ms)) @ rest"
  have d0: "drop off d = md_uuid m @ char_of_byte (word_of_nat ?n) # md_ip m @ string_of (put16 (md_port1 m))
      @ string_of (put16 (md_port2 m)) @ more"
    using Cons.prems(1) ok by (simp add: put_match_def [of m] Let_def min_absorb1 more_def)
  have d1: "drop (off + 36) d = char_of_byte (word_of_nat ?n) # md_ip m @ string_of (put16 (md_port1 m))
      @ string_of (put16 (md_port2 m)) @ more" by (rule drop_more [OF d0 ok(1)])
  have d2: "drop (off + 37) d = md_ip m @ string_of (put16 (md_port1 m)) @ string_of (put16 (md_port2 m)) @ more"
    using drop_more [of "off + 36" d "[char_of_byte (word_of_nat ?n)]" _ 1] d1
    by (simp add: add.commute [of off])
  have d3: "drop (off + 37 + ?n) d = string_of (put16 (md_port1 m)) @ string_of (put16 (md_port2 m)) @ more"
    by (rule drop_more [OF d2]) simp
  have d4: "drop (off + 37 + ?n + 2) d = string_of (put16 (md_port2 m)) @ more"
    by (rule drop_more [OF d3]) simp
  have d5: "drop (off + 37 + ?n + 2 + 2) d = more" by (rule drop_more [OF d4]) simp
  have "length (drop off d) = 36 + 1 + ?n + 2 + 2 + length more" unfolding d0 using ok by simp
  then have len: "off + (36 + 1 + ?n + 4) \<le> length d" by simp
  have ip: "unat (byte_of (d ! (off + 36))) = ?n"
    using nth_drop_0 [OF d1] ok(2) by (simp add: unat_of_nat)
  have p: "get16 (byte_of (d ! (off + 37 + ?n))) (byte_of (d ! (Suc (off + 37 + ?n)))) = md_port1 m"
    using u16_at_put [OF d3] len by (simp add: u16_at_inside)
  have q: "get16 (byte_of (d ! (off + 37 + ?n + 2))) (byte_of (d ! (Suc (off + 37 + ?n + 2)))) = md_port2 m"
    using u16_at_put [OF d4] len by (simp add: u16_at_inside)
  have more: "parse_peers d (length ms) (off + 37 + ?n + 4) = map peer_of ms"
    by (rule Cons.IH) (use d5 Cons.prems(2) in \<open>simp_all add: more_def ac_simps\<close>)
  have "take 36 (drop off d) = md_uuid m" "take ?n (drop (off + 37) d) = md_ip m"
    using d0 d2 ok(1) by simp_all
  then show ?case
    using len ip p q more ok(1) by (simp add: peer_of_def Let_def ac_simps)
qed simp

section \<open>One exchange\<close>

lemma check_activity_local [simp]: "check_activity (w\<lparr>g_my_local_ip := ip\<rparr>) u = check_activity w u"
  by (simp add: check_activity_def split: option.split)

lemma set_world_local [simp]:
  "busy_ports (set_world f a) = busy_ports a" "server_on (set_world (\<lambda>w. w\<lparr>g_my_local_ip := ip\<rparr>) a) = server_on a"
  "wanted_friends (set_world (\<lambda>w. w\<lparr>g_my_local_ip := ip\<rparr>) a) = wanted_friends a"
  "w_entropy (ap_world (set_world (\<lambda>w. w\<lparr>g_my_local_ip := ip\<rparr>) a)) = w_entropy (ap_world a)"
  "app_fs (set_world (\<lambda>w. w\<lparr>g_my_local_ip := ip\<rparr>) a) = app_fs a"
  by (simp_all add: busy_ports_def set_world_def server_on_def wanted_friends_def app_fs_def)

text \<open>What the client asks for.\<close>

abbreviation request_text :: "coord \<Rightarrow> app \<Rightarrow> string" where
  "request_text c a \<equiv> string_of (put_request (cc_cached_ip c) (busy_ports a) (wanted_friends a))"

lemma do_routine_sends:
  assumes "evp_laws ev" "entropy_ok (w_entropy (ap_world a))" "server_on a" "length (cc_aes_key c) = 32"
  obtains enc e' where
    "do_routine ev (c, a) = (Inr (), (start_op (Writing (frame 0x03 (bytes_of (cc_uuid c) @ enc)) AfterRoutine) c,
       set_world (\<lambda>w. w\<lparr>g_my_local_ip := cc_cached_ip c, w_entropy := e'\<rparr>) a))"
    "aes_decrypt ev enc (cc_aes_key c) = Inr (request_text c a)"
    "length enc = 16 + 16 * (length (request_text c a) div 16 + 1)" "entropy_ok e'"
proof -
  obtain enc e' where e: "aes_encrypt ev (request_text c a) (cc_aes_key c) (w_entropy (ap_world a)) = (Inr enc, e')"
    "length enc = 16 + 16 * (length (request_text c a) div 16 + 1)"
    "aes_decrypt ev enc (cc_aes_key c) = Inr (request_text c a)" "entropy_ok e'"
    using aes_encryptE [OF assms(1,2,4), of "request_text c a"] by metis
  show thesis
    by (rule that [of enc e'])
      (use e assms(3) in \<open>simp_all add: do_routine_def c_send_frame_def c_frame_frame Let_def\<close>,
       simp add: set_world_def)
qed

lemma length_put_request:
  "length ip \<le> 255 \<Longrightarrow> \<forall>t \<in> set targets. length t = 36 \<Longrightarrow>
     length (put_request ip ports targets) = 5 + length ip + 2 * length ports + 36 * length targets"
proof -
  assume ip: "length ip \<le> 255" and t: "\<forall>t \<in> set targets. length t = 36"
  have "length (concat targets) = 36 * length targets" using t by (induction targets) auto
  moreover have "length (concat (map put16 ports)) = 2 * length ports" by (induction ports) auto
  ultimately show ?thesis using ip by (simp add: put_request_def Let_def min_absorb1)
qed

lemma length_matches: "length (matches sessions u ip unavail targets) \<le> length targets"
  unfolding matches_def by (induction targets) (auto simp: List.map_filter_simps split: option.split)

lemma length_put_match: "match_ok m \<Longrightarrow> length (put_match m) \<le> 296"
  by (simp add: match_ok_def put_match_def Let_def)

lemma length_response:
  "\<forall>m \<in> set ms. match_ok m \<Longrightarrow> length (response_payload ms) \<le> 2 + 296 * length ms"
proof -
  have "\<forall>m \<in> set ms. match_ok m \<Longrightarrow> length (concat (map put_match ms)) \<le> 296 * length ms"
  proof (induction ms)
    case (Cons m ms)
    then show ?case using length_put_match [of m] by simp
  qed simp
  then show "\<forall>m \<in> set ms. match_ok m \<Longrightarrow> ?thesis" by (simp add: response_payload_def)
qed

text \<open>Sessions whose peers fit the one-byte length of an address.\<close>

definition addresses_ok :: "(string \<times> session_info) list \<Rightarrow> bool" where
  "addresses_ok sessions \<longleftrightarrow> (\<forall>(u, info) \<in> set sessions. length (si_uuid info) = 36
     \<and> length (si_local_ip info) \<le> 255 \<and> length (si_public_ip info) \<le> 255)"

lemma matches_ok:
  assumes "addresses_ok sessions" "m \<in> set (matches sessions u ip unavail targets)"
  shows "match_ok m"
proof -
  obtain t where "match_target sessions u ip unavail t = Some m"
    using assms(2) by (auto simp: matches_def List.map_filter_def)
  then show ?thesis
    using assms(1) by (auto simp: match_target_def Let_def addresses_ok_def match_ok_def
        split: option.splits if_splits prod.splits dest!: map_of_SomeD)
qed

lemma addresses_ok_update:
  "addresses_ok sessions \<Longrightarrow> length (si_uuid info) = 36 \<Longrightarrow> length (si_local_ip info) \<le> 255 \<Longrightarrow>
     length (si_public_ip info) \<le> 255 \<Longrightarrow> addresses_ok (AList.update u info sessions)"
  unfolding addresses_ok_def by (induction sessions) auto

lemma handle_routine_response_peers:
  assumes "aes_decrypt ev enc (cc_aes_key c) = Inr (string_of (response_payload ms))"
    and "\<forall>m \<in> set ms. match_ok m" "length ms < 65536"
  shows "handle_routine_response ev nt garbage enc (c, a) =
    (case apply_peers nt garbage (map peer_of ms) (set_world (\<lambda>w. w\<lparr>g_found_peers := []\<rparr>) a) of
       (Inl e, a2) \<Rightarrow> (Inl e, (c, a2)) | (Inr _, a2) \<Rightarrow> (Inr (), schedule_retry 2 (c, a2)))"
proof -
  let ?d = "string_of (response_payload ms)"
  have d0: "drop 0 ?d = string_of (put16 (word_of_nat (length ms))) @ string_of (concat (map put_match ms))"
    by (simp add: response_payload_def)
  have n: "get16 (byte_of (?d ! 0)) (byte_of (?d ! 1)) = word_of_nat (length ms)" "2 \<le> length ?d"
    using u16_at_put [OF d0] by (simp_all add: u16_at_inside response_payload_def)
  have "drop 2 ?d = string_of (concat (map put_match ms)) @ []" by (simp add: response_payload_def)
  from parse_peers_put [OF this assms(2)] show ?thesis
    using n assms(1,3) by (simp add: handle_routine_response_def Let_def unat_of_nat)
qed

lemma process_routine_reply:
  assumes "evp_laws ev" "entropy_ok (sv_entropy sv)" "client_key sv u = Inr key" "length key = 32"
    and "aes_decrypt ev enc key = Inr text" "parse_request text = Inr (local_ip, ports, targets)"
    and "sessions = AList.update u (session_of sv u ip key (local_ip, ports, targets)) (active_sessions sv)"
  obtains reply e' where
    "process_routine_request ev u enc ip sv = (Inr reply, sv\<lparr>active_sessions := sessions, sv_entropy := e'\<rparr>)"
    "aes_decrypt ev reply key = Inr (string_of (response_payload (matches sessions u ip (set ports) targets)))"
    "length reply = 16 + 16 * (length (response_payload (matches sessions u ip (set ports) targets)) div 16 + 1)"
    "entropy_ok e'"
proof -
  let ?text = "string_of (response_payload (matches sessions u ip (set ports) targets))"
  obtain reply e' where r: "server_aes_encrypt ev ?text key (sv_entropy sv) = (Inr reply, e')"
    "aes_decrypt ev reply key = Inr ?text" "length reply = 16 + 16 * (length ?text div 16 + 1)" "entropy_ok e'"
    using aes_encryptE [OF assms(1,2,4), of ?text] by metis
  have "process_routine_request ev u enc ip sv = (Inr reply, sv\<lparr>active_sessions := sessions, sv_entropy := e'\<rparr>)"
    using assms(3,6,7) assms(5) [THEN server_aes_decrypt_Inr [THEN iffD2]] r(1)
    by (simp add: process_routine_request_def client_key_def build_routine_response_def session_of_def
        split: option.splits)
  then show thesis using that [of reply e'] r(2-4) by simp
qed

lemma parse_request_rejected:
  "client_key sv u = Inr key \<Longrightarrow> aes_decrypt ev enc key = Inr text \<Longrightarrow> parse_request text = Inl e \<Longrightarrow>
     process_routine_request ev u enc ip sv = (Inl e, sv)"
  by (auto simp: process_routine_request_def client_key_def server_aes_decrypt_Inr [symmetric] split: option.splits)

text \<open>The server on a routine frame.\<close>

lemma payload_arrives_routine:
  assumes "length u = 36" "process_routine_request ev u enc (ss_remote_ip s) sv = (r, sv1)" "36 + length enc \<le> 512 * 1024"
  shows "payload_arrives ev (bytes_of u @ enc) (header_arrives (take 5 (frame 0x03 (bytes_of u @ enc))) s) sv =
    (case r of
       Inr reply \<Rightarrow> (Inr (), s\<lparr>ss_associated_uuid := u, ss_pending := WriteFrame (frame 0x04 reply)\<rparr>, sv1)
     | Inl (Throw e) \<Rightarrow> (Inr (), s\<lparr>ss_associated_uuid := u, ss_pending := Gone\<rparr>, sv1)
     | Inl (UB w) \<Rightarrow> (Inl (UB w), s\<lparr>ss_pending := ReadPayload 3 (36 + length enc), ss_associated_uuid := u\<rparr>, sv1))"
proof -
  have "length (bytes_of u @ enc) \<le> 512 * 1024" using assms(1,3) by simp
  from header_arrives_frame [OF this] show ?thesis
    using assms(1,2) by (simp add: payload_arrives_def process_payload_def Let_def send_frame_def
        close_session_def del: frame_parts split: sum.split failure.split)
qed

lemma cipher_length: "16 * (n div 16 + 1) \<le> n + (16 :: nat)"
  by simp

text \<open>Everything about one exchange: what is sent, what each side becomes, what the answer does.\<close>

definition polled_info :: "coord \<Rightarrow> app \<Rightarrow> session \<Rightarrow> intro \<Rightarrow> session_info" where
  "polled_info c a s sv = \<lparr>si_uuid = cc_uuid c, si_public_ip = ss_remote_ip s, si_local_ip = cc_cached_ip c,
     si_unavailable_ports = set (busy_ports a), si_desired_uuids = wanted_friends a,
     si_last_seen = sv_now sv, si_aes_key = cc_aes_key c\<rparr>"

definition due_peers :: "coord \<Rightarrow> app \<Rightarrow> session \<Rightarrow> (string \<times> session_info) list \<Rightarrow> peer_info list" where
  "due_peers c a s sessions = map peer_of (matches sessions (cc_uuid c) (ss_remote_ip s)
     (set (busy_ports a)) (wanted_friends a))"

lemma routine_core:
  assumes "evp_laws ev" "entropy_ok (w_entropy (ap_world a))" "entropy_ok (sv_entropy sv)" "server_on a"
    and "length (cc_uuid c) = 36" "length (cc_aes_key c) = 32" "client_key sv (cc_uuid c) = Inr (cc_aes_key c)"
    and "length (cc_cached_ip c) \<le> 255" "length (busy_ports a) \<le> 100"
    and "length (wanted_friends a) \<le> 32" "\<forall>t \<in> set (wanted_friends a). length t = 36"
    and "length (ss_remote_ip s) \<le> 255" "addresses_ok (active_sessions sv)"
    and "sessions = AList.update (cc_uuid c) (polled_info c a s sv) (active_sessions sv)"
  obtains f g e1 e2 where
    "do_routine ev (c, a) = (Inr (), (start_op (Writing f AfterRoutine) c,
       set_world (\<lambda>w. w\<lparr>g_my_local_ip := cc_cached_ip c, w_entropy := e1\<rparr>) a))"
    "payload_arrives ev (drop 5 f) (header_arrives (take 5 f) s) sv = (Inr (),
       s\<lparr>ss_associated_uuid := cc_uuid c, ss_pending := WriteFrame g\<rparr>,
       sv\<lparr>active_sessions := sessions, sv_entropy := e2\<rparr>)"
    "\<And>c' a'. header_read True (take 5 g) AfterRoutine (c', a')
       = (start_op (ReadingPayload (length (drop 5 g)) AfterRoutine) c', a')"
    "\<And>c' a'. cc_aes_key c' = cc_aes_key c \<Longrightarrow> handle_routine_response ev nt garbage (drop 5 g) (c', a') =
       (case apply_peers nt garbage (due_peers c a s sessions) (set_world (\<lambda>w. w\<lparr>g_found_peers := []\<rparr>) a') of
          (Inl e, a2) \<Rightarrow> (Inl e, (c', a2)) | (Inr _, a2) \<Rightarrow> (Inr (), schedule_retry 2 (c', a2)))"
    "entropy_ok e1" "entropy_ok e2" "5 \<le> length f" "5 \<le> length g" "addresses_ok sessions"
    "header_arrives (take 5 f) s = s\<lparr>ss_pending := ReadPayload 0x03 (length (drop 5 f))\<rparr>"
proof -
  let ?u = "cc_uuid c" and ?ip = "ss_remote_ip s"
  let ?r = "(cc_cached_ip c, busy_ports a, wanted_friends a)"
  define ms where "ms = matches sessions ?u ?ip (set (busy_ports a)) (wanted_friends a)"
  obtain enc e1 where send: "do_routine ev (c, a)
      = (Inr (), (start_op (Writing (frame 0x03 (bytes_of ?u @ enc)) AfterRoutine) c,
           set_world (\<lambda>w. w\<lparr>g_my_local_ip := cc_cached_ip c, w_entropy := e1\<rparr>) a))"
    "aes_decrypt ev enc (cc_aes_key c) = Inr (request_text c a)"
    "length enc = 16 + 16 * (length (request_text c a) div 16 + 1)" "entropy_ok e1"
    using do_routine_sends [OF assms(1,2,4,6)] by blast
  have "length (request_text c a) \<le> 5 + 255 + 200 + 36 * 32"
    using length_put_request [OF assms(8,11), of "busy_ports a"] assms(8,9,10) by simp
  then have enc: "36 + length enc \<le> 512 * 1024" unfolding send(3)
    using cipher_length [of "length (request_text c a)"] by linarith
  have sessions: "sessions = AList.update ?u (session_of sv ?u ?ip (cc_aes_key c) ?r) (active_sessions sv)"
    by (simp add: assms(14) session_of_def polled_info_def)
  have "parse_request (request_text c a) = Inr ?r"
    using parse_request_put [OF assms(8,9) _ assms(11)] assms(10) by simp
  then obtain reply e2 where reply:
    "process_routine_request ev ?u enc ?ip sv = (Inr reply, sv\<lparr>active_sessions := sessions, sv_entropy := e2\<rparr>)"
    "aes_decrypt ev reply (cc_aes_key c) = Inr (string_of (response_payload ms))"
    "length reply = 16 + 16 * (length (response_payload ms) div 16 + 1)" "entropy_ok e2"
    using process_routine_reply [OF assms(1,3,7,6) send(2) _ sessions] unfolding ms_def by blast
  have ok: "addresses_ok sessions"
    unfolding sessions using assms(5,8,12,13) by (intro addresses_ok_update) (simp_all add: session_of_def)
  then have ms: "\<forall>m \<in> set ms. match_ok m" unfolding ms_def using matches_ok by blast
  have len: "length ms \<le> 32" using length_matches assms(10) unfolding ms_def by (rule order_trans)
  have "length reply < 2 ^ 32"
    using reply(3) cipher_length [of "length (response_payload ms)"] length_response [OF ms] len by simp
  then have "header_read True (take 5 (frame 0x04 reply)) AfterRoutine (c', a')
      = (start_op (ReadingPayload (length reply) AfterRoutine) c', a')" for c' a'
    by (rule header_read_frame)
  moreover have "handle_routine_response ev nt garbage reply (c', a') =
      (case apply_peers nt garbage (map peer_of ms) (set_world (\<lambda>w. w\<lparr>g_found_peers := []\<rparr>) a') of
         (Inl e, a2) \<Rightarrow> (Inl e, (c', a2)) | (Inr _, a2) \<Rightarrow> (Inr (), schedule_retry 2 (c', a2)))"
    if "cc_aes_key c' = cc_aes_key c" for c' a'
    using handle_routine_response_peers [OF _ ms] reply(2) that len by simp
  moreover have "header_arrives (take 5 (frame 0x03 (bytes_of ?u @ enc))) s
      = s\<lparr>ss_pending := ReadPayload 0x03 (length (bytes_of ?u @ enc))\<rparr>"
    using enc assms(5) by (intro header_arrives_frame) simp
  ultimately show thesis
    using send(1,4) payload_arrives_routine [OF assms(5) reply(1) enc] reply(4) ok
    by (intro that [of "frame 0x03 (bytes_of ?u @ enc)" e1 "frame 0x04 reply" e2])
      (simp_all add: due_peers_def ms_def del: frame_parts(1))
qed

section \<open>Properties of the coordination\<close>

text \<open>
  C10: one routine exchange. The server understands the frame a registered client sends: it stores
  the client's session with exactly the address, the occupied ports and the wanted friends of the
  client, and answers with the introductions that are due; the client reads the answer's header and
  applies exactly those introductions, in order, then waits two seconds.
\<close>

theorem routine_exchange:
  assumes "evp_laws ev" "entropy_ok (w_entropy (ap_world a))" "entropy_ok (sv_entropy sv)" "server_on a"
    and "length (cc_uuid c) = 36" "length (cc_aes_key c) = 32" "client_key sv (cc_uuid c) = Inr (cc_aes_key c)"
    and "length (cc_cached_ip c) \<le> 255" "length (busy_ports a) \<le> 100"
    and "length (wanted_friends a) \<le> 32" "\<forall>t \<in> set (wanted_friends a). length t = 36"
    and "length (ss_remote_ip s) \<le> 255" "addresses_ok (active_sessions sv)"
  shows "\<exists>f a1 s1 sv1 g. do_routine ev (c, a) = (Inr (), (start_op (Writing f AfterRoutine) c, a1))
    \<and> payload_arrives ev (drop 5 f) (header_arrives (take 5 f) s) sv = (Inr (), s1, sv1)
    \<and> ss_pending s1 = WriteFrame g
    \<and> active_sessions sv1 = AList.update (cc_uuid c)
         \<lparr>si_uuid = cc_uuid c, si_public_ip = ss_remote_ip s, si_local_ip = cc_cached_ip c,
          si_unavailable_ports = set (busy_ports a), si_desired_uuids = wanted_friends a,
          si_last_seen = sv_now sv, si_aes_key = cc_aes_key c\<rparr> (active_sessions sv)
    \<and> (\<forall>c' a'. header_read True (take 5 g) AfterRoutine (c', a')
         = (start_op (ReadingPayload (length (drop 5 g)) AfterRoutine) c', a'))
    \<and> (\<forall>c' a'. cc_aes_key c' = cc_aes_key c \<longrightarrow>
         handle_routine_response ev nt garbage (drop 5 g) (c', a') =
         (case apply_peers nt garbage (map peer_of (matches (active_sessions sv1) (cc_uuid c) (ss_remote_ip s)
             (set (busy_ports a)) (wanted_friends a))) (set_world (\<lambda>w. w\<lparr>g_found_peers := []\<rparr>) a') of
            (Inl e, a2) \<Rightarrow> (Inl e, (c', a2)) | (Inr _, a2) \<Rightarrow> (Inr (), schedule_retry 2 (c', a2))))"
proof -
  define sessions where "sessions = AList.update (cc_uuid c) (polled_info c a s sv) (active_sessions sv)"
  show ?thesis
    by (rule routine_core [OF assms sessions_def, of nt garbage])
      (auto simp: sessions_def polled_info_def due_peers_def)
qed

text \<open>A registered client with \<open>n\<close> friends, none online, and a server that knows its key.\<close>

definition friendly_app :: "nat \<Rightarrow> app" where
  "friendly_app n = (idle_app True sample_keys)
     \<lparr>ap_conns := map (\<lambda>i. (char_of (60 + i) # replicate 35 (CHR ''b''), None)) [0..<n]\<rparr>"

definition known_client :: coord where
  "known_client = \<lparr>cc_registered = True, cc_uuid = replicate 36 (CHR ''a''), cc_aes_key = replicate 32 7,
     cc_cached_ip = ''10.0.0.1'', cc_open = True, cc_pending = []\<rparr>"

definition knowing_server :: intro where
  "knowing_server = \<lparr>active_sessions = [(replicate 36 (CHR ''a''),
       \<lparr>si_uuid = replicate 36 (CHR ''a''), si_public_ip = ''1.2.3.4'', si_local_ip = ''10.0.0.1'',
        si_unavailable_ports = {}, si_desired_uuids = [], si_last_seen = 0, si_aes_key = replicate 32 7\<rparr>)],
     sv_fs = \<lparr>fs_files = [], fs_dirs = []\<rparr>, sv_now = 0, sv_entropy = plain_entropy\<rparr>"

lemma friendly_app_simps [simp]:
  "server_on (friendly_app n)" "w_entropy (ap_world (friendly_app n)) = plain_entropy"
  "app_fs (friendly_app n) = sample_keys" "busy_ports (friendly_app n) = []"
  "wanted_friends (friendly_app n) = map (\<lambda>i. char_of (60 + i) # replicate 35 (CHR ''b'')) [0..<n]"
proof -
  have "\<not> check_activity (ap_world (friendly_app n)) u" for u
    by (simp add: friendly_app_def idle_app_def check_activity_def sample_world_def)
  then show "wanted_friends (friendly_app n) = map (\<lambda>i. char_of (60 + i) # replicate 35 (CHR ''b'')) [0..<n]"
    by (simp add: wanted_friends_def) (simp add: friendly_app_def comp_def)
  show "busy_ports (friendly_app n) = []"
    by (simp add: busy_ports_def friendly_app_def List.map_filter_def filter_empty_conv)
qed (simp_all add: friendly_app_def idle_app_def server_on_def app_fs_def)

lemma knowing_simps [simp]:
  "sv_entropy knowing_server = plain_entropy" "cc_cached_ip known_client = ''10.0.0.1''"
  "cc_uuid known_client = replicate 36 (CHR ''a'')" "cc_aes_key known_client = replicate 32 7"
  "client_key knowing_server (replicate 36 (CHR ''a'')) = Inr (replicate 32 7)"
  "addresses_ok (active_sessions knowing_server)"
  by (simp_all add: knowing_server_def known_client_def client_key_def addresses_ok_def)

theorem routine_exchange_witness:
  "\<exists>f a1 s1 sv1 g. do_routine plain_evp (known_client, friendly_app 1)
      = (Inr (), (start_op (Writing f AfterRoutine) known_client, a1))
    \<and> payload_arrives plain_evp (drop 5 f) (header_arrives (take 5 f) (session_start None)) knowing_server
      = (Inr (), s1, sv1) \<and> ss_pending s1 = WriteFrame g"
  using routine_exchange [OF plain_evp_laws, of "friendly_app 1" knowing_server known_client "session_start None" small_net "[]"]
  by (simp add: plain_entropy_ok session_start_def) blast



section \<open>Registration from both ends\<close>

lemma strip_eol_uuid: "list_all (\<lambda>c. is_hex_char c \<or> c = CHR ''-'') u \<Longrightarrow> strip_eol u = u"
  by (cases u rule: rev_cases) (auto simp: strip_eol_def dest: hex_char_plain)

lemma register_uuid:
  "register ev payload s sv = (Inr x, s', sv') \<Longrightarrow> strip_eol (ss_associated_uuid s') = ss_associated_uuid s'"
  by (auto simp: register_def Let_def generate_uuid_def send_frame_def strip_eol_uuid uuid_format_chars
      split: prod.splits sum.splits if_splits)

lemma do_register_sends:
  "read_file (app_fs a) ''./user_settings/ECC_PUB'' = Inr (string_of pub) \<Longrightarrow> length pub = 32 \<Longrightarrow>
     do_register (c, a) = (Inr (), (start_op (Writing (frame 0x01 pub) AfterRegister) c, a))"
  by (simp add: do_register_def c_send_frame_def c_frame_frame)

text \<open>The two files that hold the identity.\<close>

definition identity_writable :: "filesys \<Rightarrow> bool" where
  "identity_writable fs \<longleftrightarrow> can_write fs uuid_file \<and> can_write fs c_aes_key_file"

definition store_identity :: "filesys \<Rightarrow> string \<Rightarrow> byte list \<Rightarrow> filesys" where
  "store_identity fs u key = save_hex_key (fs_write fs uuid_file u) c_aes_key_file key"

lemma identity_files: "uuid_file \<noteq> c_aes_key_file"
  by (simp add: uuid_file_def c_aes_key_file_def resolve_def resolve_step_def is_sep_def)

lemma new_coord_restores:
  assumes "identity_writable fs" "app_fs a = store_identity fs u key"
    and "length u = 36" "strip_eol u = u" "length key = 32"
  shows "cc_registered (fst (new_coord a)) \<and> cc_uuid (fst (new_coord a)) = u \<and> cc_aes_key (fst (new_coord a)) = key"
proof -
  have "fs_read (app_fs a) uuid_file = Some u" "fs_read (app_fs a) c_aes_key_file = Some (hex_string key)"
    using assms(1,2) identity_files
    by (auto simp: identity_writable_def store_identity_def save_hex_key_def fs_read_simps)
  then have "read_file (app_fs a) ''./user_settings/uuid.txt'' = Inr u" "load_hex_key (app_fs a) c_aes_key_file = Inr key"
    by (simp_all add: read_file_def uuid_file_def [symmetric] load_hex_key_of_hex [OF assms(5)])
  then show ?thesis using assms(3,4) by (simp add: new_coord_def Let_def)
qed

lemma handle_register_response_stores:
  assumes "evp_laws ev" "entropy_ok (w_entropy (ap_world a))" "server_on a"
    and "length u = 36" "length m = 96" "decrypt_ECC ev (app_fs a) m = Inr key" "length key = 32"
  obtains c1 a1 where "handle_register_response ev (bytes_of (u @ m)) (c, a) = (Inr (), (c1, a1))"
    "cc_registered c1" "cc_uuid c1 = u" "cc_aes_key c1 = key" "app_fs a1 = store_identity (app_fs a) u key"
proof -
  let ?c = "c\<lparr>cc_uuid := u, cc_aes_key := key, cc_registered := True\<rparr>"
  let ?a = "set_world (\<lambda>w. w\<lparr>w_fs := store_identity (app_fs a) u key, g_uuid := u, g_c_server_uuid := u\<rparr>) a"
  have a: "entropy_ok (w_entropy (ap_world ?a))" "server_on ?a" "app_fs ?a = store_identity (app_fs a) u key"
    using assms(2,3) by (simp_all add: set_world_def server_on_def app_fs_def)
  have "length (cc_aes_key ?c) = 32" using assms(7) by simp
  then obtain enc e' where r: "do_routine ev (?c, ?a)
      = (Inr (), (start_op (Writing (frame 0x03 (bytes_of (cc_uuid ?c) @ enc)) AfterRoutine) ?c,
           set_world (\<lambda>w. w\<lparr>g_my_local_ip := cc_cached_ip ?c, w_entropy := e'\<rparr>) ?a))"
    using do_routine_sends [OF assms(1) a(1,2), of ?c] by metis
  have "app_fs (set_world (\<lambda>w. w\<lparr>g_my_local_ip := cc_cached_ip ?c, w_entropy := e'\<rparr>) ?a) = app_fs ?a"
    by (simp add: app_fs_def set_world_def)
  moreover have "handle_register_response ev (bytes_of (u @ m)) (c, a) = do_routine ev (?c, ?a)"
    using assms(4-6) by (simp add: handle_register_response_def Let_def store_identity_def)
  moreover note a(3)
  ultimately show thesis using that r by (simp add: start_op_def)
qed

text \<open>
  C11: registration, seen from both ends. The frame the client sends for its key pair makes the server
  invent an identifier and a key; from the answer the client learns both, and from then on the
  client's key is the key the server has on file for the client's identifier. The identity is on the
  client's disk: a client started on the same files is registered with it.
\<close>

theorem registration_agrees:
  assumes "evp_laws ev" "entropy_ok (sv_entropy sv)" "users_ready (sv_fs sv)"
    and "entropy_ok (w_entropy (ap_world a))" "server_on a" "identity_writable (app_fs a)"
    and "length priv = 32" "x25519_public ev priv = Some pub" "fs_read (app_fs a) ecc_file = Some (string_of priv)"
    and "read_file (app_fs a) ''./user_settings/ECC_PUB'' = Inr (string_of pub)"
  shows "\<exists>f s1 sv1 g c1 a1. do_register (c, a) = (Inr (), (start_op (Writing f AfterRegister) c, a))
    \<and> payload_arrives ev (drop 5 f) (header_arrives (take 5 f) s) sv = (Inr (), s1, sv1)
    \<and> ss_pending s1 = WriteFrame g
    \<and> handle_register_response ev (drop 5 g) (c, a) = (Inr (), (c1, a1))
    \<and> cc_registered c1 \<and> length (cc_uuid c1) = 36
    \<and> load_aes_key (sv_fs sv1) (cc_uuid c1) = Inr (cc_aes_key c1)
    \<and> cc_registered (fst (new_coord a1)) \<and> cc_uuid (fst (new_coord a1)) = cc_uuid c1
    \<and> cc_aes_key (fst (new_coord a1)) = cc_aes_key c1"
proof -
  have pub: "length pub = 32" using assms(1,7,8) by (auto simp: evp_laws_def)
  have hd: "header_arrives (take 5 (frame 0x01 pub)) s = s\<lparr>ss_pending := ReadPayload 0x01 32\<rparr>" (is "_ = ?s")
    using header_arrives_frame [of pub 1 s] pub by simp
  obtain u m key sv1 where r:
    "register ev pub ?s sv = (Inr (), send_frame 0x02 (bytes_of (u @ m)) (?s\<lparr>ss_associated_uuid := u\<rparr>), sv1)"
    "length u = 36" "length m = 96" "length key = 32" "load_aes_key (sv_fs sv1) u = Inr key"
    "decrypt_ECC ev (app_fs a) m = Inr key"
    using register_works [OF assms(1-3,7), of pub ?s] assms(8,9) pub by (metis take_all_iff order_refl)
  have u: "strip_eol u = u" using register_uuid [OF r(1)] by (simp add: send_frame_def)
  have arrives: "payload_arrives ev pub ?s sv = (Inr (), send_frame 0x02 (bytes_of (u @ m)) (?s\<lparr>ss_associated_uuid := u\<rparr>), sv1)"
    using r(1) pub by (simp add: payload_arrives_def process_payload_def)
  obtain c1 a1 where c1: "handle_register_response ev (bytes_of (u @ m)) (c, a) = (Inr (), (c1, a1))"
    "cc_registered c1" "cc_uuid c1 = u" "cc_aes_key c1 = key" "app_fs a1 = store_identity (app_fs a) u key"
    using handle_register_response_stores [OF assms(1,4,5) r(2,3,6,4)] by blast
  show ?thesis
    using do_register_sends [OF assms(10) pub, of c] arrives hd c1 r(2,5)
      new_coord_restores [OF assms(6) c1(5) r(2) u r(4)]
    by (intro exI [of _ "frame 0x01 pub"] exI [of _ "frame 0x02 (bytes_of (u @ m))"] exI [of _ c1] exI [of _ a1]
        exI [of _ sv1] exI [of _ "send_frame 0x02 (bytes_of (u @ m)) (?s\<lparr>ss_associated_uuid := u\<rparr>)"])
      (simp add: send_frame_def del: frame_parts(1))
qed

theorem registration_agrees_witness:
  "\<exists>(sv1 :: intro) c1 a1 g. handle_register_response plain_evp g (known_client, friendly_app 1) = (Inr (), (c1, a1))
    \<and> cc_registered c1 \<and> load_aes_key (sv_fs sv1) (cc_uuid c1) = Inr (cc_aes_key c1)
    \<and> cc_uuid (fst (new_coord a1)) = cc_uuid c1"
proof -
  have "users_ready (sv_fs knowing_server)"
    by (simp add: users_ready_def knowing_server_def is_directory_def)
  moreover have "identity_writable (app_fs (friendly_app 1))"
    "fs_read (app_fs (friendly_app 1)) ecc_file = Some (string_of (replicate 32 9))"
    "read_file (app_fs (friendly_app 1)) ''./user_settings/ECC_PUB'' = Inr (string_of (replicate 32 9))"
    by (simp_all add: identity_writable_def can_write_def uuid_file_def c_aes_key_file_def ecc_file_def
        read_file_def fs_read_def sample_keys_def is_directory_def resolve_def resolve_step_def is_sep_def)
  moreover have "x25519_public plain_evp (replicate 32 9) = Some (replicate 32 9)"
    by (simp add: plain_evp_def)
  ultimately show ?thesis
    using registration_agrees [OF plain_evp_laws, of knowing_server "friendly_app 1" "replicate 32 9"
      "replicate 32 9" known_client "session_start None"]
    by (simp add: plain_entropy_ok) (elim exE conjE, intro exI conjI, assumption+)
qed

end
