(* ===== verification/HttpServer.thy ===== *)
theory HttpServer
  imports CoordClient
begin

text \<open>
  The browser's side of the client, \<open>class tcp_connection\<close> and \<open>class http_server\<close> of
  \<open>app_final/client/main.cpp\<close>, and \<open>main\<close>: requests are accumulated until complete, routed by the
  first known text they contain, and every route's handler is a definition of its own. A handler
  returns the answer (\<open>message_\<close>) or the exception it ends with, and the process state.

  The text of \<open>ctime\<close>, the outcome of \<open>remote_endpoint()\<close>, OpenSSL, the sockets of new peer
  connections and the uninitialised part of their buffers are the record \<open>http_env\<close>. Removing a friend destroys its
  \<open>udp_server\<close>: the object disappears from the model, with whatever it still had pending.
\<close>

section \<open>State\<close>

record http_env =
  he_endpoint_ok :: bool
  he_ctime :: string
  he_evp :: evp
  he_net :: net
  he_garbage :: "byte list"

text \<open>What one completed read leads to.\<close>

datatype http_step = ReadMore | WriteResponse string | Dropped

section \<open>Finding parts of a request\<close>

text \<open>\<open>request.find(pat) + k\<close> with \<open>k\<close> the length of \<open>pat\<close>, and differences of positions (\<open>size_t\<close>).\<close>

definition behind :: "string \<Rightarrow> string \<Rightarrow> nat" where
  "behind request pat = add_pos (str_find request pat 0) (length pat)"

definition sub_pos :: "nat \<Rightarrow> nat \<Rightarrow> nat" where
  "sub_pos a b = (a + (2 ^ 64 - b)) mod 2 ^ 64"

definition path_uuid :: "string \<Rightarrow> string \<Rightarrow> string res" where
  "path_uuid request pat = substr request (behind request pat) 36"

definition img_name :: "string \<Rightarrow> string \<Rightarrow> string res" where
  "img_name request pat =
     (let p = add_pos (behind request pat) (36 + 1) in
      substr request p (sub_pos (str_find request '' HTTP/'' 0) p))"

definition cut_query :: "string \<Rightarrow> string" where
  "cut_query name = (let qs = str_find name ''?'' 0 in if qs \<noteq> npos then take qs name else name)"

definition received_path :: "string \<Rightarrow> string \<Rightarrow> string" where
  "received_path u name = ''./received/'' @ u @ ''/'' @ name"

definition path_tail :: "string \<Rightarrow> string \<Rightarrow> string res" where
  "path_tail request pat =
     (let start = behind request pat; stop = str_find request '' HTTP/'' start in
      if stop \<noteq> npos \<and> stop > start then substr request start (stop - start) else Inr [])"

definition body_of :: "string \<Rightarrow> string res" where
  "body_of request = substr request (behind request (crlf @ crlf)) npos"

definition json_key :: "string \<Rightarrow> string" where
  "json_key name = [quote] @ name @ [quote] @ '':'' @ [quote]"

text \<open>\<open>s = body.substr(body.find(key) + k); s = s.substr(0, s.find("\""))\<close>\<close>

definition quoted_after :: "string \<Rightarrow> string \<Rightarrow> string res" where
  "quoted_after body key =
     bind_res (substr body (behind body key) npos) (\<lambda>s. Inr (take (str_find s [quote] 0) s))"

text \<open>The loop of \<open>POST /send\<close> that copies the message up to its closing quote.\<close>

fun scan_message :: "string \<Rightarrow> string" where
  "scan_message [] = []"
| "scan_message (c # s) =
     (if c = backslash \<and> s \<noteq> [] \<and> hd s = quote then quote # scan_message (tl s)
      else if c = quote then []
      else c # scan_message s)"

definition message_of :: "string \<Rightarrow> string" where
  "message_of body =
     (let msg_start = str_find body (json_key ''message'') 0 in
      if msg_start \<noteq> npos then scan_message (drop (msg_start + 11) body) else [])"

definition trim :: "string \<Rightarrow> string" where
  "trim body =
     (let ws = (\<lambda>c. c = CHR '' '' \<or> c = tab \<or> c = carriage_return \<or> c = newline) in
      rev (dropWhile ws (rev (dropWhile ws body))))"

section \<open>Routes\<close>

datatype route =
    Time | Style | Icon | Logo | Notification | ProfilePicture | Pfps | MyInfo | FoundPeers
  | Imgs | ImgExists | Head | KeyStatus | SelectUser | Messages | FindIp | ExchangeKeys
  | AddFriend | RemoveFriend | CheckActivity | IpData | FriendList | SendText | UploadPfp
  | UploadFile | UploadName | Connection | UpdateIpData | Index

text \<open>The \<open>else if\<close> chain over \<open>request.find(...) != npos\<close>, in its order.\<close>

definition routes :: "(string \<times> route) list" where
  "routes =
     [(''GET /time'', Time), (''GET /style.css'', Style), (''GET /icon.ico'', Icon),
      (''GET /logo.jpg'', Logo), (''GET /notification'', Notification),
      (''GET /profile_picture.jpg'', ProfilePicture), (''GET /pfps/'', Pfps), (''GET /my_info'', MyInfo),
      (''GET /found_peers'', FoundPeers), (''GET /imgs/'', Imgs), (''GET /img_exists/'', ImgExists),
      (''HEAD /'', Head), (''GET /key_status/'', KeyStatus), (''GET /select_user/'', SelectUser),
      (''GET /messages/'', Messages), (''GET /find_ip'', FindIp), (''GET /exchange_keys/'', ExchangeKeys),
      (''POST /add_friend/'', AddFriend), (''POST /remove_friend/'', RemoveFriend),
      (''GET /check_activity/'', CheckActivity), (''GET /ip_data/'', IpData),
      (''GET /friend_list'', FriendList), (''POST /send/'', SendText), (''POST /upload/pfp'', UploadPfp),
      (''POST /upload/file/'', UploadFile), (''POST /upload/name'', UploadName),
      (''POST /connection'', Connection), (''POST /update_ip_data/'', UpdateIpData)]"

definition route_of :: "string \<Rightarrow> route" where
  "route_of request = (case find (\<lambda>(pat, _). contains request pat) routes of
     None \<Rightarrow> Index | Some (_, r) \<Rightarrow> r)"

section \<open>Handlers that only read\<close>

definition ok_response :: string where
  "ok_response = make_http_response ''ok'' ''text/plain''"

definition serve_file :: "string \<Rightarrow> string \<Rightarrow> filesys \<Rightarrow> string res" where
  "serve_file file content_type fs =
     bind_res (read_file fs file) (\<lambda>c. Inr (make_http_response c content_type))"

definition get_time :: "http_env \<Rightarrow> string" where
  "get_time he = make_http_response (rev (dropWhile (\<lambda>c. c = newline) (rev (he_ctime he)))) ''text/plain''"

definition get_pfp :: "string \<Rightarrow> filesys \<Rightarrow> string res" where
  "get_pfp request fs =
     bind_res (path_uuid request ''GET /pfps/'') (\<lambda>u.
     bind_res (case read_file fs (received_path u ''profile_picture.jpg'') of
         Inl _ \<Rightarrow> read_file fs ''./frontend/logo.jpg'' | Inr d \<Rightarrow> Inr d) (\<lambda>pfp_data.
     Inr (make_http_response pfp_data ''image/jpeg'')))"

definition get_my_info :: "world \<Rightarrow> string" where
  "get_my_info w = make_http_response
     (''{'' @ json_pair ''public_ip'' (g_public_ip w) @ '','' @ json_pair ''local_ip'' (g_my_local_ip w) @ '',''
      @ json_pair ''c_uuid'' (g_c_server_uuid w) @ ''}'') ''application/json''"

definition json_peer :: "peer_info \<Rightarrow> string" where
  "json_peer p = ''{'' @ json_pair ''uuid'' (pi_uuid p) @ '','' @ json_pair ''ip'' (pi_ip p) @ '',''
     @ [quote] @ ''iport'' @ [quote] @ '':'' @ show_nat (unat (pi_iport p)) @ '',''
     @ [quote] @ ''oport'' @ [quote] @ '':'' @ show_nat (unat (pi_oport p)) @ ''}''"

definition get_found_peers :: "world \<Rightarrow> string" where
  "get_found_peers w = make_http_response
     (''['' @ comma_separated (map json_peer (g_found_peers w)) @ '']'') ''application/json''"

definition get_img :: "string \<Rightarrow> filesys \<Rightarrow> string res" where
  "get_img request fs =
     bind_res (path_uuid request ''GET /imgs/'') (\<lambda>u.
     bind_res (img_name request ''GET /imgs/'') (\<lambda>name.
     case read_file fs (received_path u (cut_query name)) of
       Inr d \<Rightarrow> Inr (make_http_response d ''image/jpeg'')
     | Inl _ \<Rightarrow> serve_file ''./user_settings/loading.gif'' ''image/gif'' fs))"

definition get_img_exists :: "string \<Rightarrow> filesys \<Rightarrow> string res" where
  "get_img_exists request fs =
     bind_res (path_uuid request ''GET /img_exists/'') (\<lambda>u.
     bind_res (img_name request ''GET /img_exists/'') (\<lambda>name.
     Inr (make_http_response (if fs_exists fs (resolve (received_path u (cut_query name))) then ''true'' else ''false'')
       ''text/plain'')))"

definition head :: "string \<Rightarrow> filesys \<Rightarrow> string res" where
  "head request fs =
     (if contains request ''HEAD /imgs/'' then
        bind_res (path_uuid request ''HEAD /imgs/'') (\<lambda>u.
        bind_res (img_name request ''HEAD /imgs/'') (\<lambda>name.
        let ct = (if fs_exists fs (resolve (received_path u name)) then ''image/jpeg'' else ''image/gif'') in
        Inr (''HTTP/1.1 200 OK'' @ crlf @ ''Content-Type: '' @ ct @ crlf @ ''Content-Length: 0'' @ crlf
          @ ''Connection: close'' @ crlf @ crlf)))
      else Inr (''HTTP/1.1 200 OK'' @ crlf @ ''Content-Length: 0'' @ crlf @ ''Connection: close'' @ crlf @ crlf))"

definition file_size :: "filesys \<Rightarrow> path \<Rightarrow> nat res" where
  "file_size fs p = (case fs_read fs p of None \<Rightarrow> Inl (Throw FilesystemError) | Some c \<Rightarrow> Inr (length c))"

definition get_key_status :: "string \<Rightarrow> filesys \<Rightarrow> string res" where
  "get_key_status request fs =
     bind_res (path_uuid request ''GET /key_status/'') (\<lambda>u.
     let key_path = friend_file u ''AES'' in
     bind_res (if fs_exists fs key_path then file_size fs key_path else Inr 0) (\<lambda>size.
     Inr (make_http_response (if 0 < size then ''true'' else ''false'') ''text/plain'')))"

definition get_messages :: "string \<Rightarrow> filesys \<Rightarrow> string res" where
  "get_messages request fs =
     bind_res (path_tail request ''GET /messages/'') (\<lambda>u.
     Inr (make_http_response (make_json_messages fs u) ''application/json''))"

definition get_check_activity :: "string \<Rightarrow> world \<Rightarrow> string res" where
  "get_check_activity request w =
     bind_res (path_uuid request ''GET /check_activity/'') (\<lambda>u.
     Inr (make_http_response (if check_activity w u then ''true'' else ''false'') ''text/plain''))"

definition get_ip_data :: "string \<Rightarrow> filesys \<Rightarrow> string res" where
  "get_ip_data request fs =
     bind_res (path_tail request ''GET /ip_data/'') (\<lambda>u.
     if u = [] then Inr (make_http_response ''{}'' ''application/json'')
     else bind_res (make_json_ip_ports fs u) (\<lambda>d. Inr (make_http_response d ''application/json'')))"

definition get_index :: "world \<Rightarrow> string res" where
  "get_index w =
     bind_res (read_file (w_fs w) ''./frontend/index.html'') (\<lambda>html.
     bind_res (prepare_html w html) (\<lambda>page. Inr (make_http_response page ''text/html'')))"

section \<open>Handlers that change the state\<close>

definition select_user :: "string \<Rightarrow> app \<Rightarrow> string res \<times> app" where
  "select_user request a = (case path_uuid request ''GET /select_user/'' of
     Inl e \<Rightarrow> (Inl e, a)
   | Inr u \<Rightarrow> (Inr ok_response, set_world (\<lambda>w. w\<lparr>g_notifications_count := AList.update u 0 (g_notifications_count w),
       g_selected_user := u\<rparr>) a))"

text \<open>A member function called through \<open>(*user_connections)[u]\<close>, which inserts a null pointer for a new key.\<close>

definition exchange_keys :: "string \<Rightarrow> app \<Rightarrow> string res \<times> app" where
  "exchange_keys request a = (case path_uuid request ''GET /exchange_keys/'' of
     Inl e \<Rightarrow> (Inl e, a)
   | Inr u \<Rightarrow>
       (case map_of (ap_conns a) u of
          Some (Some s) \<Rightarrow>
            (case send_ECC_public_key (s, ap_world a) of (r, (s1, w1)) \<Rightarrow>
               (bind_res r (\<lambda>_. Inr ok_response), \<lparr>ap_world = w1, ap_conns = AList.update u (Some s1) (ap_conns a)\<rparr>))
        | _ \<Rightarrow> (Inl (UB ''member function of a null pointer''), a)))"

definition ensure_file :: "path \<Rightarrow> string \<Rightarrow> filesys \<Rightarrow> filesys" where
  "ensure_file p text fs = (if fs_exists fs p then fs else fs_write fs p text)"

definition friend_directory :: "string \<Rightarrow> path" where
  "friend_directory u = resolve (''./friends/'' @ u)"

definition friend_skeleton :: "string \<Rightarrow> filesys \<Rightarrow> filesys" where
  "friend_skeleton u fs =
     ensure_file (friend_file u ''messages.txt'') []
       (ensure_file (friend_file u ''ip_io'') []
         (ensure_file (friend_file u ''AES'') []
           (ensure_file (friend_file u ''username.txt'') ''New Friend'' fs)))"

definition add_friend :: "string \<Rightarrow> app \<Rightarrow> string res \<times> app" where
  "add_friend request a = (case path_uuid request ''POST /add_friend/'' of
     Inl e \<Rightarrow> (Inl e, a)
   | Inr u \<Rightarrow>
       (case (if fs_exists (app_fs a) (friend_directory u) then Inr (app_fs a)
              else create_directories (app_fs a) (friend_directory u)) of
          Inl e \<Rightarrow> (Inl e, a)
        | Inr fs \<Rightarrow>
            let a1 = set_world (\<lambda>w. w\<lparr>w_fs := friend_skeleton u fs\<rparr>) a in
            (Inr ok_response,
             if map_of (ap_conns a1) u \<noteq> None then a1 else a1\<lparr>ap_conns := AList.update u None (ap_conns a1)\<rparr>)))"

definition remove_friend :: "string \<Rightarrow> app \<Rightarrow> string res \<times> app" where
  "remove_friend request a = (case path_uuid request ''POST /remove_friend/'' of
     Inl e \<Rightarrow> (Inl e, a)
   | Inr u \<Rightarrow>
       let a1 = a\<lparr>ap_conns := AList.delete u (ap_conns a)\<rparr>;
           a2 = (if fs_exists (app_fs a1) (friend_directory u)
                 then set_world (\<lambda>w. w\<lparr>w_fs := remove_all (w_fs w) (friend_directory u)\<rparr>) a1 else a1);
           a3 = (if g_selected_user (ap_world a2) = u
                 then set_world (\<lambda>w. user_selection (w\<lparr>g_selected_user := []\<rparr>)) a2 else a2)
       in (Inr ok_response, a3))"

definition with_connection :: "string \<Rightarrow> (conn \<Rightarrow> conn) \<Rightarrow> app \<Rightarrow> app" where
  "with_connection u f a = (case map_of (ap_conns a) u of
     Some (Some s) \<Rightarrow> (case f (s, ap_world a) of (s1, w1) \<Rightarrow>
       \<lparr>ap_world = w1, ap_conns = AList.update u (Some s1) (ap_conns a)\<rparr>)
   | _ \<Rightarrow> a)"

definition send_message :: "http_env \<Rightarrow> string \<Rightarrow> app \<Rightarrow> string res \<times> app" where
  "send_message he request a = (case path_uuid request ''POST /send/'' of
     Inl e \<Rightarrow> (Inl e, a)
   | Inr u \<Rightarrow>
       (case body_of request of
          Inl e \<Rightarrow> (Inl e, a)
        | Inr body \<Rightarrow>
            let message = message_of body in
            (Inr ok_response, with_connection u (send_text (he_evp he) message)
               (set_world (save_message_now u message ''you'') a))))"

text \<open>The raw bytes of the body, and the picture offered to every friend under one message id.\<close>

definition raw_body :: "string \<Rightarrow> string" where
  "raw_body request = drop (str_find request (crlf @ crlf) 0 + 4) request"

definition upload_pfp :: "string \<Rightarrow> app \<Rightarrow> string res \<times> app" where
  "upload_pfp request a =
     (let a1 = set_world (\<lambda>w. w\<lparr>w_fs := fs_write (w_fs w) (resolve ''./user_settings/profile_picture.jpg'')
            (raw_body request)\<rparr>) a;
          (r, w2) = next_rand (ap_world a1)
      in (Inr ok_response, a1\<lparr>ap_world := w2, ap_conns := map (\<lambda>(u, srv). (u, map_option
           (send_file (get_messageID r) (bytes_of (raw_body request)) ''profile_picture.jpg'') srv)) (ap_conns a1)\<rparr>))"

definition upload_file_name :: "string \<Rightarrow> u32 \<Rightarrow> string res" where
  "upload_file_name request mid =
     (let fn_pos = str_find request ''X-Filename: '' 0 in
      if fn_pos \<noteq> npos then
        bind_res (substr request (fn_pos + 12) npos) (\<lambda>f. Inr (take (str_find f crlf 0) f))
      else Inr (show_nat (unat mid)))"

definition upload_file :: "string \<Rightarrow> app \<Rightarrow> string res \<times> app" where
  "upload_file request a = (case path_uuid request ''POST /upload/file/'' of
     Inl e \<Rightarrow> (Inl e, a)
   | Inr u \<Rightarrow>
       let (r, w1) = next_rand (ap_world a); mid = get_messageID r; a1 = a\<lparr>ap_world := w1\<rparr> in
       (case upload_file_name request mid of
          Inl e \<Rightarrow> (Inl e, a1)
        | Inr fname \<Rightarrow>
            let a2 = with_connection u (\<lambda>(s, w). (send_file mid (bytes_of (raw_body request)) fname s, w)) a1;
                dir = ''./received/'' @ g_uuid (ap_world a2) @ ''/''
            in (case create_directories (app_fs a2) (resolve dir) of
                  Inl e \<Rightarrow> (Inl e, a2)
                | Inr fs \<Rightarrow> (Inr ok_response,
                    set_world (\<lambda>w. w\<lparr>w_fs := fs_write fs (resolve (dir @ fname)) (raw_body request)\<rparr>) a2))))"

definition upload_name :: "string \<Rightarrow> app \<Rightarrow> string res \<times> app" where
  "upload_name request a =
     (case bind_res (body_of request) (\<lambda>body. quoted_after body (json_key ''name'')) of
        Inl e \<Rightarrow> (Inl e, a)
      | Inr name \<Rightarrow> (Inr ok_response,
          set_world (\<lambda>w. w\<lparr>w_fs := fs_write (w_fs w) (resolve ''./user_settings/name.txt'') name\<rparr>) a))"

definition server_state_file :: string where
  "server_state_file = ''./user_settings/server.txt''"

definition set_connection :: "string \<Rightarrow> app \<Rightarrow> string res \<times> app" where
  "set_connection request a = (case body_of request of
     Inl e \<Rightarrow> (Inl e, a)
   | Inr b \<Rightarrow>
       let body = trim b;
           a1 = (if body = ''on'' \<or> body = ''off''
                 then set_world (\<lambda>w. w\<lparr>w_fs := fs_write (w_fs w) (resolve server_state_file) body,
                   g_connection_to_server_active := (body = ''on'')\<rparr>) a
                 else a)
       in (serve_file server_state_file ''text/plain'' (app_fs a1), a1))"

text \<open>The new connection data; a field that is neither read nor set is indeterminate.\<close>

definition new_ip_data :: "filesys \<Rightarrow> string \<Rightarrow> string \<Rightarrow> string \<Rightarrow> (string \<times> int option \<times> int option) res" where
  "new_ip_data fs u field fvalue =
     (case (case fs_read fs (ip_io_file u) of None \<Rightarrow> ([], None, None) | Some c \<Rightarrow> extract_ip_io c) of
        (ip, iport, oport) \<Rightarrow>
          bind_res (if field = ''iport'' then bind_res (stoi 10 fvalue) (\<lambda>i. Inr (Some i)) else Inr iport) (\<lambda>i.
          bind_res (if field = ''oport'' then bind_res (stoi 10 fvalue) (\<lambda>j. Inr (Some j)) else Inr oport) (\<lambda>j.
          Inr (if field = ''ip'' then fvalue else ip, i, j))))"

definition apply_ip_data :: "http_env \<Rightarrow> string \<Rightarrow> string \<Rightarrow> int \<Rightarrow> int \<Rightarrow> app \<Rightarrow> string res \<times> app" where
  "apply_ip_data he u ip i j a =
     (case map_of (ap_conns a) u of
        None \<Rightarrow> (Inr ok_response, a)
      | Some None \<Rightarrow>
          (case new_udp_server (he_net he) i j ip u (he_garbage he) (ap_world a) of
             (Inl (UB what), w1) \<Rightarrow> (Inl (UB what), a\<lparr>ap_world := w1\<rparr>)
           | (Inl (Throw e), w1) \<Rightarrow> (Inr ok_response, a\<lparr>ap_world := w1\<rparr>)
           | (Inr s, w1) \<Rightarrow> (Inr ok_response, \<lparr>ap_world = w1, ap_conns = AList.update u (Some s) (ap_conns a)\<rparr>))
      | Some (Some s) \<Rightarrow>
          (case change_target (he_net he) i j ip s of
             (r, s1) \<Rightarrow> (bind_res r (\<lambda>_. Inr ok_response), a\<lparr>ap_conns := AList.update u (Some s1) (ap_conns a)\<rparr>)))"

definition update_ip_data :: "http_env \<Rightarrow> string \<Rightarrow> app \<Rightarrow> string res \<times> app" where
  "update_ip_data he request a =
     (case bind_res (path_uuid request ''POST /update_ip_data/'') (\<lambda>u.
           bind_res (body_of request) (\<lambda>body.
           bind_res (quoted_after body (json_key ''field'')) (\<lambda>field.
           bind_res (quoted_after body (json_key ''value'')) (\<lambda>fvalue.
           bind_res (new_ip_data (app_fs a) u field fvalue) (\<lambda>(ip, iport, oport).
           bind_res (int_value iport) (\<lambda>i. bind_res (int_value oport) (\<lambda>j.
           Inr (u, ip, i, j)))))))) of
        Inl e \<Rightarrow> (Inl e, a)
      | Inr (u, ip, i, j) \<Rightarrow>
          apply_ip_data he u ip i j
            (set_world (\<lambda>w. w\<lparr>w_fs := fs_write (w_fs w) (ip_io_file u) (ip_io_text ip i j)\<rparr>) a))"

section \<open>One request\<close>

definition serve :: "http_env \<Rightarrow> route \<Rightarrow> string \<Rightarrow> app \<Rightarrow> string res \<times> app" where
  "serve he r request a =
     (let w = ap_world a; fs = w_fs w in
      case r of
        Time \<Rightarrow> (Inr (get_time he), a)
      | Style \<Rightarrow> (serve_file ''./frontend/style.css'' ''text/css'' fs, a)
      | Icon \<Rightarrow> (serve_file ''./frontend/icon.ico'' ''image/x-icon'' fs, a)
      | Logo \<Rightarrow> (serve_file ''./frontend/logo.jpg'' ''image/jpeg'' fs, a)
      | Notification \<Rightarrow> (serve_file ''./user_settings/notification.mp3'' ''audio/mpeg'' fs, a)
      | ProfilePicture \<Rightarrow> (serve_file ''./user_settings/profile_picture.jpg'' ''image/jpeg'' fs, a)
      | Pfps \<Rightarrow> (get_pfp request fs, a)
      | MyInfo \<Rightarrow> (Inr (get_my_info w), a)
      | FoundPeers \<Rightarrow> (Inr (get_found_peers w), a)
      | Imgs \<Rightarrow> (get_img request fs, a)
      | ImgExists \<Rightarrow> (get_img_exists request fs, a)
      | Head \<Rightarrow> (head request fs, a)
      | KeyStatus \<Rightarrow> (get_key_status request fs, a)
      | SelectUser \<Rightarrow> select_user request a
      | Messages \<Rightarrow> (get_messages request fs, a)
      | FindIp \<Rightarrow> (Inr [], a)
      | ExchangeKeys \<Rightarrow> exchange_keys request a
      | AddFriend \<Rightarrow> add_friend request a
      | RemoveFriend \<Rightarrow> remove_friend request a
      | CheckActivity \<Rightarrow> (get_check_activity request w, a)
      | IpData \<Rightarrow> (get_ip_data request fs, a)
      | FriendList \<Rightarrow> (Inr (make_http_response (make_json_friends w) ''application/json''), a)
      | SendText \<Rightarrow> send_message he request a
      | UploadPfp \<Rightarrow> upload_pfp request a
      | UploadFile \<Rightarrow> upload_file request a
      | UploadName \<Rightarrow> upload_name request a
      | Connection \<Rightarrow> set_connection request a
      | UpdateIpData \<Rightarrow> update_ip_data he request a
      | Index \<Rightarrow> (get_index w, a))"

text \<open>The \<open>try\<close> block of \<open>handle_read\<close>.\<close>

definition respond :: "http_env \<Rightarrow> string \<Rightarrow> app \<Rightarrow> string res \<times> app" where
  "respond he request a =
     (case (if he_endpoint_ok he then serve he (route_of request) request a
            else (Inl (Throw SystemError), a)) of
        (r, a1) \<Rightarrow> (catch_res r (\<lambda>_. Inr (make_http_response ''Internal Server Error'' ''text/plain'')), a1))"

definition content_length :: "string \<Rightarrow> nat res" where
  "content_length request =
     (let cl_pos = str_find request ''Content-Length: '' 0 in
      if cl_pos \<noteq> npos then bind_res (substr request (cl_pos + 16) npos) stoul else Inr 0)"

definition handle_read :: "http_env \<Rightarrow> bool \<Rightarrow> string \<Rightarrow> string \<Rightarrow> app \<Rightarrow> http_step res \<times> string \<times> app" where
  "handle_read he error chunk full a =
     (if error then (Inr Dropped, full, a)
      else
        let request = full @ chunk; header_end = str_find request (crlf @ crlf) 0 in
        if header_end = npos then (Inr ReadMore, request, a)
        else case content_length request of
          Inl e \<Rightarrow> (Inl e, request, a)
        | Inr n \<Rightarrow>
            if length request - header_end - 4 < n then (Inr ReadMore, request, a)
            else (case respond he request a of
              (r, a1) \<Rightarrow> (bind_res r (\<lambda>m. Inr (WriteResponse m)), request, a1)))"

section \<open>The listener\<close>

record http_server =
  hs_accepting :: bool
  hs_full_requests :: "string list"        \<comment> \<open>one for each connection being read\<close>

definition start_accept :: "http_server \<Rightarrow> http_server" where
  "start_accept hs = hs\<lparr>hs_accepting := True\<rparr>"

definition handle_accept :: "bool \<Rightarrow> http_server \<Rightarrow> http_server" where
  "handle_accept error hs =
     start_accept (if error then hs else hs\<lparr>hs_full_requests := hs_full_requests hs @ [[]]\<rparr>)"

section \<open>Start-up\<close>

text \<open>
  \<open>main\<close>. Nothing but the reading of the identifier and the detection of the address is inside a
  \<open>try\<close>. The detected address and whether port 80 can be opened come from the environment.
\<close>

definition detected_ip :: "string option \<Rightarrow> string" where
  "detected_ip ip = (case ip of None \<Rightarrow> ''127.0.0.1'' | Some ip \<Rightarrow> ip)"

definition start_up :: "evp \<Rightarrow> net \<Rightarrow> byte list \<Rightarrow> string option \<Rightarrow> bool \<Rightarrow> world
    \<Rightarrow> (http_server \<times> coordinating) res" where
  "start_up ev nt garbage ip port_free w =
     (case generate_or_load_ecc_keys ev (w_fs w) (w_entropy w) of
        (keys, e1) \<Rightarrow>
          bind_res keys (\<lambda>fs1.
          bind_res (read_file fs1 server_state_file) (\<lambda>state.
          let w1 = w\<lparr>w_fs := fs1, w_entropy := e1, g_connection_to_server_active := (state = ''on'')\<rparr>;
              w2 = (case read_file fs1 ''./user_settings/uuid.txt'' of Inl _ \<Rightarrow> w1 | Inr u \<Rightarrow> w1\<lparr>g_uuid := u\<rparr>);
              a = load_connections nt garbage (user_selection (w2\<lparr>g_public_ip := detected_ip ip\<rparr>))
          in if \<not> port_free then Inl (Throw SystemError)
             else Inr (start_accept \<lparr>hs_accepting = False, hs_full_requests = []\<rparr>, start_client (new_coord a)))))"

end
