(* ===== verification/HttpRequests.thy ===== *)
theory HttpRequests
  imports HttpServer Coordination
begin

text \<open>
  Requests: a request may arrive in any number of pieces, the first known text anywhere in it
  decides its route, the only exception that ends the program is an unreadable \<open>Content-Length\<close>,
  and the message of \<open>POST /send\<close> is the one the browser wrote unless backslashes are involved.
\<close>

section \<open>Lemmas: searching\<close>

lemma starts_with_longer: "starts_with pat s \<Longrightarrow> starts_with pat (s @ t)"
  by (auto simp: starts_with_iff)

lemma starts_with_shorter: "starts_with pat (s @ t) \<Longrightarrow> length pat \<le> length s \<Longrightarrow> starts_with pat s"
  by (simp add: starts_with_def)

lemma find_list_append: "find_list pat s = Some i \<Longrightarrow> find_list pat (s @ t) = Some i"
proof (induction pat s arbitrary: i rule: find_list.induct)
  case (1 pat)
  then show ?case by (cases t) (auto simp: starts_with_def split: if_splits)
next
  case (2 pat c s)
  show ?case
  proof (cases "starts_with pat (c # s)")
    case True
    then show ?thesis using 2(2) starts_with_longer [OF True, of t] by simp
  next
    case False
    then obtain k where k: "find_list pat s = Some k" "i = Suc k" using 2(2) by (auto split: if_splits)
    have "length pat \<le> length s" using find_list_Some [OF k(1)] by simp
    then have "\<not> starts_with pat (c # s @ t)" using False starts_with_shorter [of pat "c # s" t] by auto
    then show ?thesis using 2(1) [OF False k(1)] k(2) by simp
  qed
qed

text \<open>A text that follows a prefix without its first character is found right there.\<close>

lemma find_list_behind: "pat \<noteq> [] \<Longrightarrow> hd pat \<notin> set a \<Longrightarrow> find_list pat (a @ pat @ s) = Some (length a)"
proof (induction a)
  case Nil
  then show ?case by (cases pat) (simp_all add: starts_with_def)
next
  case (Cons c a)
  then have "\<not> starts_with pat (c # a @ pat @ s)" by (cases pat) (auto simp: starts_with_def)
  then show ?case using Cons by simp
qed

lemma str_find_here: "find_list pat s = Some i \<Longrightarrow> str_find s pat 0 = i"
  by (simp add: str_find_def)

lemma behind_here:
  "find_list pat s = Some i \<Longrightarrow> i + length pat < 2 ^ 64 \<Longrightarrow> behind s pat = i + length pat"
  by (simp add: behind_def str_find_here add_pos_def)

lemma short_npos: "i < 2 ^ 62 \<Longrightarrow> i \<noteq> npos"
  by (simp add: npos_def)

lemma find_list_bound: "find_list pat s = Some i \<Longrightarrow> i \<le> length s"
  using find_list_Some [of pat s i] by simp

section \<open>Lemmas: accumulation\<close>

abbreviation blank_line :: string where
  "blank_line \<equiv> crlf @ crlf"

text \<open>
  The header \<open>hdr\<close> is complete in itself (its first blank line is the one that ends it), and the
  number in its first \<open>Content-Length\<close> is \<open>n\<close>; or it has none, and \<open>n\<close> is zero.
\<close>

definition announces :: "string \<Rightarrow> nat \<Rightarrow> bool" where
  "announces hdr n \<longleftrightarrow>
     (case find_list ''Content-Length: '' hdr of
        None \<Rightarrow> n = 0 \<and> find_list ''Content-Length: '' (hdr @ blank_line) = None
      | Some k \<Rightarrow> n < 2 ^ 32 \<and> (\<exists>t. drop (k + 16) hdr = show_nat n @ t \<and> (t = [] \<or> hd t = carriage_return)))"

definition complete_header :: "string \<Rightarrow> bool" where
  "complete_header hdr \<longleftrightarrow> find_list blank_line (hdr @ blank_line) = Some (length hdr)"

lemma stoul_show_nat: "ends_number r \<Longrightarrow> n < 2 ^ 32 \<Longrightarrow> stoul (show_nat n @ r) = Inr n"
  by (simp add: stoul_def strtol_show_nat)

lemma content_length_announced:
  assumes "announces hdr n" "length (hdr @ b) < 2 ^ 60" "n = 0 \<longrightarrow> b = []"
  shows "content_length (hdr @ blank_line @ b) = Inr n"
proof (cases "find_list ''Content-Length: '' hdr")
  case None
  then have "n = 0" "find_list ''Content-Length: '' (hdr @ blank_line) = None"
    using assms(1) by (simp_all add: announces_def)
  then show ?thesis using assms(3) by (simp add: content_length_def str_find_def)
next
  case (Some k)
  then obtain t where t: "drop (k + 16) hdr = show_nat n @ t" "t = [] \<or> hd t = carriage_return" "n < 2 ^ 32"
    using assms(1) by (auto simp: announces_def)
  have k: "k + 16 \<le> length hdr" using find_list_Some [OF Some] by simp
  have "str_find (hdr @ blank_line @ b) ''Content-Length: '' 0 = k"
    using find_list_append [OF Some, of "blank_line @ b"] by (simp add: str_find_here)
  moreover have "k \<noteq> npos" using k assms(2) by (intro short_npos) simp
  moreover have "ends_number (t @ blank_line @ b)"
    using t(2) by (cases t) (auto simp: ends_number_def is_digit_def digit_val_def)
  moreover have "drop (k + 16) (hdr @ blank_line @ b) = show_nat n @ t @ blank_line @ b"
    using k t(1) by simp
  moreover have "take npos (show_nat n @ t @ blank_line @ b) = show_nat n @ t @ blank_line @ b"
  proof (rule take_all)
    have "length (show_nat n @ t) \<le> length hdr" using t(1) by (metis diff_le_self length_drop)
    then show "length (show_nat n @ t @ blank_line @ b) \<le> npos" using assms(2) by (simp add: npos_def)
  qed
  ultimately show ?thesis
    using k t(3) stoul_show_nat [of "t @ blank_line @ b" n]
    by (simp add: content_length_def substr_def)
qed

lemma split_behind: "length x \<le> length p \<Longrightarrow> p @ q = x @ y \<Longrightarrow> \<exists>b. p = x @ b \<and> y = b @ q"
  by (auto simp: append_eq_append_conv2)

text \<open>A read that does not complete the request only stores its bytes.\<close>

lemma handle_read_partial:
  assumes "complete_header hdr" "announces hdr (length body)" "length (hdr @ body) < 2 ^ 60"
    and "full @ chunk @ q = hdr @ blank_line @ body" "q \<noteq> []"
  shows "handle_read he False chunk full a = (Inr ReadMore, full @ chunk, a)"
proof (cases "find_list blank_line (full @ chunk)")
  case None
  then show ?thesis by (simp add: handle_read_def str_find_def Let_def)
next
  case (Some i)
  have "find_list blank_line (hdr @ blank_line @ body) = Some (length hdr)"
    using find_list_append [of blank_line "hdr @ blank_line" _ body] assms(1) by (simp add: complete_header_def)
  moreover have "find_list blank_line (hdr @ blank_line @ body) = Some i"
    using find_list_append [OF Some, of q] assms(4) by simp
  ultimately have i: "i = length hdr" by simp
  have "i + 4 \<le> length (full @ chunk)" using find_list_Some [OF Some] by simp
  moreover have "(full @ chunk) @ q = (hdr @ blank_line) @ body" using assms(4) by simp
  ultimately obtain b where b: "full @ chunk = hdr @ blank_line @ b" "body = b @ q"
    using split_behind [of "hdr @ blank_line" "full @ chunk" q body] i by auto
  have cl: "content_length (hdr @ blank_line @ b) = Inr (length body)"
    by (rule content_length_announced [OF assms(2)]) (use assms(3) b in auto)
  have "str_find (hdr @ blank_line @ b) blank_line 0 = length hdr"
    using Some i b(1) by (simp add: str_find_here)
  moreover have "length hdr \<noteq> npos" using assms(3) by (intro short_npos) simp
  ultimately show ?thesis
    using cl b assms(5) by (simp add: handle_read_def Let_def)
qed

lemma handle_read_complete:
  assumes "complete_header hdr" "announces hdr (length body)" "length (hdr @ body) < 2 ^ 60"
    and "full @ chunk = hdr @ blank_line @ body"
  shows "handle_read he False chunk full a = (case respond he (hdr @ blank_line @ body) a of
    (r, a1) \<Rightarrow> (bind_res r (\<lambda>m. Inr (WriteResponse m)), hdr @ blank_line @ body, a1))"
proof -
  have "find_list blank_line (hdr @ blank_line @ body) = Some (length hdr)"
    using find_list_append [of blank_line "hdr @ blank_line" _ body] assms(1) by (simp add: complete_header_def)
  moreover have "length hdr \<noteq> npos" using assms(3) by (intro short_npos) simp
  moreover have "content_length (hdr @ blank_line @ body) = Inr (length body)"
    by (rule content_length_announced [OF assms(2,3)]) simp
  ultimately show ?thesis
    by (simp add: handle_read_def Let_def assms(4) str_find_here)
qed

text \<open>Reads one after the other, until one of them leads to an answer.\<close>

fun reads :: "http_env \<Rightarrow> string list \<Rightarrow> string \<Rightarrow> app \<Rightarrow> http_step res \<times> string \<times> app" where
  "reads he [] full a = (Inr ReadMore, full, a)"
| "reads he (chunk # chunks) full a =
     (case handle_read he False chunk full a of
        (Inr ReadMore, full1, a1) \<Rightarrow> reads he chunks full1 a1
      | r \<Rightarrow> r)"

lemma reads_reassemble:
  assumes "complete_header hdr" "announces hdr (length body)" "length (hdr @ body) < 2 ^ 60"
  shows "full @ concat chunks = hdr @ blank_line @ body \<Longrightarrow> chunks \<noteq> [] \<Longrightarrow> \<forall>c \<in> set chunks. c \<noteq> [] \<Longrightarrow>
    reads he chunks full a = (case respond he (hdr @ blank_line @ body) a of
      (r, a1) \<Rightarrow> (bind_res r (\<lambda>m. Inr (WriteResponse m)), hdr @ blank_line @ body, a1))"
proof (induction chunks arbitrary: full)
  case (Cons c cs)
  show ?case
  proof (cases "cs = []")
    case True
    then have "full @ c = hdr @ blank_line @ body" using Cons.prems(1) by simp
    from handle_read_complete [OF assms this] show ?thesis
      by (auto simp: bind_res_def split: prod.split sum.split)
  next
    case False
    then have "concat cs \<noteq> []" using Cons.prems(3) by (auto simp: neq_Nil_conv)
    then have "handle_read he False c full a = (Inr ReadMore, full @ c, a)"
      using Cons.prems(1) handle_read_partial [OF assms, of full c "concat cs"] by simp
    then show ?thesis using Cons.IH [of "full @ c"] Cons.prems False by simp
  qed
qed simp

section \<open>Properties of reading\<close>

text \<open>
  C23: the answer to a request does not depend on how its bytes arrive. A request with a complete
  header and the announced number of body bytes, cut into any non-empty pieces, is answered as
  \<open>respond\<close> answers the whole of it, after the last piece and not before.
\<close>

theorem request_reassembled:
  assumes "complete_header hdr" "announces hdr (length body)" "length (hdr @ body) < 2 ^ 60"
    and "concat chunks = hdr @ crlf @ crlf @ body" "\<forall>c \<in> set chunks. c \<noteq> []"
  shows "reads he chunks [] a = (case respond he (hdr @ crlf @ crlf @ body) a of
    (r, a1) \<Rightarrow> (bind_res r (\<lambda>m. Inr (WriteResponse m)), hdr @ crlf @ crlf @ body, a1))"
proof -
  have "chunks \<noteq> []" using assms(4) by auto
  then show ?thesis using reads_reassemble [OF assms(1-3), of "[]" chunks] assms(4,5) by simp
qed

text \<open>A request, and the pieces in which it comes.\<close>

definition switch_header :: string where
  "switch_header = ''POST /connection HTTP/1.1'' @ crlf @ ''Content-Length: 2''"

lemma switch_header_ok: "complete_header switch_header" "announces switch_header 2"
proof -
  show "complete_header switch_header" unfolding complete_header_def switch_header_def by code_simp
  have "find_list ''Content-Length: '' switch_header = Some 27" unfolding switch_header_def by code_simp
  moreover have "drop (27 + 16) switch_header = show_nat 2 @ []" unfolding switch_header_def by code_simp
  ultimately show "announces switch_header 2" unfolding announces_def by simp
qed

theorem request_reassembled_witness:
  "\<forall>he a. reads he [take 10 switch_header, drop 10 switch_header, crlf, crlf @ ''o'', ''n''] [] a =
    (case respond he (switch_header @ crlf @ crlf @ ''on'') a of
      (r, a1) \<Rightarrow> (bind_res r (\<lambda>m. Inr (WriteResponse m)), switch_header @ crlf @ crlf @ ''on'', a1))"
proof (intro allI, rule request_reassembled [of switch_header "''on''"])
  show "announces switch_header (length ''on'')" using switch_header_ok(2) by (simp add: numeral_2_eq_2)
qed (use switch_header_ok(1) in \<open>simp_all add: switch_header_def\<close>)

lemma respond_not_throw: "respond he request a \<noteq> (Inl (Throw e), a1)"
  by (auto simp: respond_def catch_res_def split: prod.splits sum.splits failure.splits)

lemma substr_to_end: "pos \<le> length s \<Longrightarrow> length s < npos \<Longrightarrow> substr s pos npos = Inr (drop pos s)"
  by (simp add: substr_def)

definition killing_request :: string where
  "killing_request = ''GET / HTTP/1.1'' @ crlf @ ''Content-Length: x'' @ crlf @ crlf"

lemma killing_request_kills: "handle_read he False killing_request [] a = (Inl (Throw InvalidArgument), killing_request, a)"
proof -
  have "find_list (crlf @ crlf) killing_request = Some 33" "find_list ''Content-Length: '' killing_request = Some 16"
    unfolding killing_request_def by code_simp+
  then have "str_find killing_request (crlf @ crlf) 0 = 33" "str_find killing_request ''Content-Length: '' 0 = 16"
    by (blast intro: str_find_here)+
  moreover have "(33 :: nat) \<noteq> npos" "(16 :: nat) \<noteq> npos" by (simp_all add: npos_def)
  moreover have "substr killing_request (16 + 16) npos = Inr (drop (16 + 16) killing_request)"
    by (rule substr_to_end) (simp_all add: killing_request_def npos_def)
  moreover have "stoul (drop (16 + 16) killing_request) = Inl (Throw InvalidArgument)"
    unfolding killing_request_def by code_simp
  ultimately show ?thesis by (simp add: handle_read_def Let_def content_length_def)
qed

lemma handle_read_throws:
  "(\<exists>e full1 a1. handle_read he err chunk full a = (Inl (Throw e), full1, a1)) \<longleftrightarrow>
     \<not> err \<and> str_find (full @ chunk) (crlf @ crlf) 0 \<noteq> npos
     \<and> (\<exists>e. content_length (full @ chunk) = Inl (Throw e))"
proof -
  obtain r a1 where "respond he (full @ chunk) a = (r, a1)" by (metis prod.exhaust)
  moreover from this have "r \<noteq> Inl (Throw e)" for e using respond_not_throw by metis
  ultimately show ?thesis
    by (cases "content_length (full @ chunk)"; cases r) (simp_all add: handle_read_def Let_def)
qed

text \<open>
  An exception leaves the handler of a read, and so ends the program, exactly when the header is
  complete and the number after \<open>Content-Length\<close> cannot be read; one such request is enough.
\<close>

lemma only_content_length_kills:
  "((\<exists>e full1 a1. handle_read he err chunk full a = (Inl (Throw e), full1, a1)) \<longleftrightarrow>
      \<not> err \<and> str_find (full @ chunk) (crlf @ crlf) 0 \<noteq> npos
      \<and> (\<exists>e. content_length (full @ chunk) = Inl (Throw e)))
   \<and> handle_read he False killing_request [] a = (Inl (Throw InvalidArgument), killing_request, a)"
  using handle_read_throws killing_request_kills by (rule conjI)

section \<open>The message of a request\<close>

definition plain_char :: "char \<Rightarrow> bool" where
  "plain_char c \<longleftrightarrow> c \<noteq> backslash \<and> c \<noteq> newline \<and> c \<noteq> carriage_return \<and> c \<noteq> tab"

lemma scan_message_escape:
  "list_all plain_char m \<Longrightarrow> scan_message (json_escape m @ s) = m @ scan_message s"
  by (induction m) (auto simp: json_escape_char_def plain_char_def)

definition message_body :: "string \<Rightarrow> string" where
  "message_body m = ''{'' @ json_key ''message'' @ json_escape m @ [quote] @ ''}''"

lemma message_of_body: "message_of (message_body m) = scan_message (json_escape m @ [quote] @ ''}'')"
proof -
  have "find_list (json_key ''message'') (''{'' @ json_key ''message'' @ json_escape m @ [quote] @ ''}'') = Some 1"
    using find_list_behind [of "json_key ''message''" "''{''"] by (simp add: json_key_def)
  then have "str_find (message_body m) (json_key ''message'') 0 = 1" unfolding message_body_def by (rule str_find_here)
  moreover have "(1 :: nat) \<noteq> npos" by (simp add: npos_def)
  moreover have "drop (1 + 11) (message_body m) = json_escape m @ [quote] @ ''}''"
    by (simp add: message_body_def json_key_def)
  ultimately show ?thesis by (simp add: message_of_def)
qed

text \<open>
  A message that ends in a backslash swallows the quote that closes it: what is stored and sent
  ends in the backslash, a quote and the rest of the body.
\<close>

lemma trailing_backslash:
  assumes "list_all plain_char m"
  shows "message_of (message_body (m @ [backslash])) = m @ [backslash, quote] @ ''}''
    \<and> message_of (message_body m) = m"
  using assms
  by (simp add: message_of_body scan_message_escape json_escape_append) (simp add: json_escape_char_def)

lemma trailing_backslash_witness:
  "message_of (message_body (''C:'' @ [backslash])) = ''C:'' @ [backslash, quote] @ ''}''"
  using trailing_backslash [of "''C:''"] by (simp add: plain_char_def)

section \<open>Sending through the browser\<close>

lemma blank_line_in_header:
  "complete_header hdr \<Longrightarrow> find_list blank_line (hdr @ blank_line @ body) = Some (length hdr)"
  using find_list_append [of blank_line "hdr @ blank_line" _ body] by (simp add: complete_header_def)

lemma body_of_request:
  assumes "complete_header hdr" "length hdr + length body < 2 ^ 60"
  shows "body_of (hdr @ blank_line @ body) = Inr body"
proof -
  have "behind (hdr @ blank_line @ body) blank_line = length hdr + 4"
    using behind_here [OF blank_line_in_header [OF assms(1)], of body] assms(2) by simp
  moreover have "substr (hdr @ blank_line @ body) (length hdr + 4) npos = Inr (drop (length hdr + 4) (hdr @ blank_line @ body))"
    by (rule substr_to_end) (use assms(2) in \<open>simp_all add: npos_def\<close>)
  ultimately show ?thesis by (simp add: body_of_def)
qed

text \<open>A request that starts with the text of its route.\<close>

lemma find_list_start: "pat \<noteq> [] \<Longrightarrow> find_list pat (pat @ s) = Some 0"
  using find_list_behind [of pat "[]" s] by simp

lemma path_uuid_found:
  assumes "find_list pat s = Some k" "length pat = n" "k + n < 2 ^ 60"
  shows "path_uuid s pat = Inr (take 36 (drop (k + n) s))"
  using find_list_Some [OF assms(1)] behind_here [OF assms(1)] assms(2,3) by (simp add: path_uuid_def substr_def)

lemma path_uuid_start:
  "pat \<noteq> [] \<Longrightarrow> length pat < 2 ^ 60 \<Longrightarrow> length u = 36 \<Longrightarrow> path_uuid (pat @ u @ s) pat = Inr u"
  using path_uuid_found [OF find_list_start refl, of pat "u @ s"] by simp

lemma send_text_world: "w_fs (snd (send_text ev m (s, w))) = w_fs w"
  by (simp add: send_text_def Let_def next_rand_def split: sum.split prod.split)

lemma message_request:
  assumes "he_endpoint_ok he" "length u = 36" "list_all plain_char m"
    and "complete_header (''POST /send/'' @ u @ hdr)" "length (''POST /send/'' @ u @ hdr) + length (message_body m) < 2 ^ 60"
    and "route_of ((''POST /send/'' @ u @ hdr) @ crlf @ crlf @ message_body m) = SendText"
    and "history_ok (app_fs a) u" "one_line (w_date (ap_world a))" "one_line (w_time (ap_world a))"
    and "map_of (ap_conns a) u = Some (Some s)"
    and "send_text (he_evp he) m (s, save_message_now u m ''you'' (ap_world a)) = (s1, w1)"
  shows "respond he ((''POST /send/'' @ u @ hdr) @ crlf @ crlf @ message_body m) a
      = (Inr ok_response, \<lparr>ap_world = w1, ap_conns = AList.update u (Some s1) (ap_conns a)\<rparr>)
    \<and> w_fs w1 = save_message (app_fs a) u m ''you'' (w_date (ap_world a)) (w_time (ap_world a))
    \<and> history_entries (w_fs w1) u = history_entries (app_fs a) u
        @ [entry_for u ''you'' m (w_date (ap_world a)) (w_time (ap_world a))]"
proof -
  let ?r = "(''POST /send/'' @ u @ hdr) @ blank_line @ message_body m"
  let ?w = "save_message_now u m ''you'' (ap_world a)"
  have m: "message_of (message_body m) = m" using assms(3) by (simp add: message_of_body scan_message_escape)
  have one: "one_line m" using assms(3) by (auto simp: one_line_def plain_char_def list_all_iff)
  have "path_uuid ?r ''POST /send/'' = Inr u"
    using path_uuid_start [of "''POST /send/''" u] assms(2) by simp
  then have "send_message he ?r a = (Inr ok_response, \<lparr>ap_world = w1, ap_conns = AList.update u (Some s1) (ap_conns a)\<rparr>)"
    using body_of_request [OF assms(4,5)] m assms(10,11)
    by (simp add: send_message_def with_connection_def set_world_def)
  then have "respond he ?r a = (Inr ok_response, \<lparr>ap_world = w1, ap_conns = AList.update u (Some s1) (ap_conns a)\<rparr>)"
    using assms(1,6) by (simp add: respond_def serve_def)
  moreover have "w_fs w1 = save_message (app_fs a) u m ''you'' (w_date (ap_world a)) (w_time (ap_world a))"
    using send_text_world [of "he_evp he" m s ?w] assms(11) by (simp add: save_message_now_def app_fs_def)
  ultimately show ?thesis
    using save_message_refines [OF assms(7) _ one assms(8,9), of "''you''"] by simp
qed

text \<open>
  A message written in the browser reaches the history and the friend. If the request takes its
  route, one entry with the sender ``you'', the text and the current date and time is added to the
  friend's history, the connection sends exactly that text, and the browser is told \<open>ok\<close>.
\<close>

lemma message_sent:
  assumes "he_endpoint_ok he" "length u = 36" "list_all plain_char m"
    and "complete_header (''POST /send/'' @ u @ hdr)" "length (''POST /send/'' @ u @ hdr) + length (message_body m) < 2 ^ 60"
    and "route_of ((''POST /send/'' @ u @ hdr) @ crlf @ crlf @ message_body m) = SendText"
    and "history_ok (app_fs a) u" "one_line (w_date (ap_world a))" "one_line (w_time (ap_world a))"
    and "map_of (ap_conns a) u = Some (Some s)"
  shows "\<exists>a'. respond he ((''POST /send/'' @ u @ hdr) @ crlf @ crlf @ message_body m) a = (Inr ok_response, a')
    \<and> history_entries (app_fs a') u = history_entries (app_fs a) u
        @ [entry_for u ''you'' m (w_date (ap_world a)) (w_time (ap_world a))]
    \<and> map_of (ap_conns a') u = Some (Some (fst (send_text (he_evp he) m (s, save_message_now u m ''you'' (ap_world a)))))"
proof -
  obtain s1 w1 where st: "send_text (he_evp he) m (s, save_message_now u m ''you'' (ap_world a)) = (s1, w1)"
    by (metis prod.exhaust)
  from message_request [OF assms this] show ?thesis using st by (elim conjE) (simp add: app_fs_def update_conv')
qed

text \<open>A process with one friend, to whom it is connected.\<close>

abbreviation someone :: string where
  "someone \<equiv> replicate 36 (CHR ''f'')"

definition browsing_env :: http_env where
  "browsing_env = \<lparr>he_endpoint_ok = True, he_ctime = ''now'', he_evp = plain_evp,
     he_net = \<lparr>net_bind = (\<lambda>port. port \<noteq> 0), net_resolve = (\<lambda>host service. Some (host, length service))\<rparr>,
     he_garbage = replicate 512 7\<rparr>"

definition browsing_fs :: filesys where
  "browsing_fs = \<lparr>fs_files = [], fs_dirs = [[''friends''], [''friends'', someone]]\<rparr>"

definition browsing_app :: app where
  "browsing_app = \<lparr>ap_world = sample_world browsing_fs, ap_conns = [(someone, Some (sample_server someone))]\<rparr>"

lemma browsing_simps [simp]:
  "he_endpoint_ok browsing_env" "he_evp browsing_env = plain_evp" "app_fs browsing_app = browsing_fs"
  "w_date (ap_world browsing_app) = ''2025-01-02''" "w_time (ap_world browsing_app) = ''10:11:12''"
  "ap_conns browsing_app = [(someone, Some (sample_server someone))]"
  by (simp_all add: browsing_env_def browsing_app_def app_fs_def sample_world_def)

lemma plain_someone: "plain_name someone"
  by (simp add: plain_name_def is_sep_def list_all_iff) (simp add: eval_nat_numeral)

lemma browsing_history: "history_ok browsing_fs someone" "history_entries browsing_fs someone = []"
proof -
  have "messages_file someone = [''friends'', someone, ''messages.txt'']"
    using plain_someone by (simp add: messages_file_def friend_file_plain plain_name_def is_sep_def)
  then show "history_ok browsing_fs someone" "history_entries browsing_fs someone = []"
    by (simp_all add: history_ok_def browsing_fs_def can_write_def is_directory_def fs_read_def
        whole_records_Nil history_entries_def)
qed

lemma message_sent_witness:
  "\<exists>a'. respond browsing_env ((''POST /send/'' @ someone @ '' HTTP/1.1'') @ crlf @ crlf @ message_body (''say '' @ [quote] @ ''hi'' @ [quote]))
      browsing_app = (Inr ok_response, a')
    \<and> history_entries (app_fs a') someone
        = [entry_for someone ''you'' (''say '' @ [quote] @ ''hi'' @ [quote]) ''2025-01-02'' ''10:11:12'']"
proof -
  let ?m = "''say '' @ [quote] @ ''hi'' @ [quote]"
  have "route_of ((''POST /send/'' @ someone @ '' HTTP/1.1'') @ crlf @ crlf @ message_body ?m) = SendText"
    unfolding message_body_def by code_simp
  moreover have "complete_header (''POST /send/'' @ someone @ '' HTTP/1.1'')"
    unfolding complete_header_def by code_simp
  moreover have "length (''POST /send/'' @ someone @ '' HTTP/1.1'') + length (message_body ?m) < 2 ^ 60"
    by (simp add: message_body_def json_key_def json_escape_def json_escape_char_def)
  moreover have "list_all plain_char ?m" by (simp add: plain_char_def)
  moreover have "one_line ''2025-01-02''" "one_line ''10:11:12''" by (simp_all add: one_line_def)
  ultimately show ?thesis
    using message_sent [of browsing_env someone ?m "'' HTTP/1.1''" browsing_app "sample_server someone"] browsing_history
    by simp blast
qed

section \<open>Text that is taken for a request\<close>

lemma fs_exists_remove_all: "p \<noteq> [] \<Longrightarrow> below p q \<Longrightarrow> \<not> fs_exists (remove_all fs p) q"
  by (auto simp: fs_exists_def is_directory_def remove_all_def below_def map_of_eq_None_iff)

lemma user_selection_fs [simp]: "w_fs (user_selection w) = w_fs w"
  by (simp add: user_selection_def split: prod.split)

lemma remove_friend_removes:
  assumes "path_uuid request ''POST /remove_friend/'' = Inr v" "friend_directory v \<noteq> []"
  obtains a' where "remove_friend request a = (Inr ok_response, a')" "map_of (ap_conns a') v = None"
    "\<not> fs_exists (app_fs a') (friend_directory v)"
    "fs_exists (app_fs a) (friend_directory v) \<Longrightarrow> app_fs a' = remove_all (app_fs a) (friend_directory v)"
proof -
  obtain a' where a': "remove_friend request a = (Inr ok_response, a')"
    using assms(1) by (simp add: remove_friend_def Let_def)
  have fs: "app_fs a' = (if fs_exists (app_fs a) (friend_directory v)
      then remove_all (app_fs a) (friend_directory v) else app_fs a)"
    and conns: "ap_conns a' = AList.delete v (ap_conns a)"
    using a' assms(1) by (auto simp: remove_friend_def Let_def app_fs_def set_world_def split: if_splits)
  show thesis
    by (rule that [OF a'])
      (use fs conns fs_exists_remove_all [OF assms(2)] in \<open>auto simp: delete_conv' below_def split: if_splits\<close>)
qed

lemma respond_remove:
  "he_endpoint_ok he \<Longrightarrow> route_of r = RemoveFriend \<Longrightarrow> remove_friend r a = (Inr m, a') \<Longrightarrow> respond he r a = (Inr m, a')"
  by (simp add: respond_def serve_def)



section \<open>Paths that leave their directory\<close>

lemma split_path_dots: "split_path [] (concat (replicate n ''./'') @ s) = replicate n ''.'' @ split_path [] s"
  by (induction n) (simp_all add: is_sep_def)

lemma resolve_dots: "foldl resolve_step p (replicate n ''.'') = p"
  by (induction n) (simp_all add: resolve_step_def)

text \<open>
  C32: the browser's server deletes outside of \<open>friends\<close>. The identifier in the path is not checked:
  thirty-six characters that lead out of the directory make the request remove the user's
  settings, with the key pair and the identity in them.
\<close>

theorem removal_escapes:
  assumes "he_endpoint_ok he"
    and "route_of (''POST /remove_friend/'' @ concat (replicate 10 ''./'') @ ''../user_settings'' @ rest) = RemoveFriend"
    and "is_directory (app_fs a) [''user_settings'']"
  shows "\<exists>a'. respond he (''POST /remove_friend/'' @ concat (replicate 10 ''./'') @ ''../user_settings'' @ rest) a
      = (Inr ok_response, a')
    \<and> fs_read (app_fs a') ecc_file = None \<and> fs_read (app_fs a') uuid_file = None"
proof -
  let ?u = "concat (replicate 10 ''./'') @ ''../user_settings''"
  let ?r = "''POST /remove_friend/'' @ ?u @ rest"
  have "length ?u = 36" by code_simp
  then have u: "path_uuid ?r ''POST /remove_friend/'' = Inr ?u"
    using path_uuid_start [of "''POST /remove_friend/''" ?u rest] by simp
  have "split_path [] (''./friends/'' @ ?u) = ''.'' # ''friends'' # replicate 10 ''.'' @ [''..'', ''user_settings'']"
    using split_path_dots [of 10 "''../user_settings''"] by (simp add: is_sep_def)
  then have d: "friend_directory ?u = [''user_settings'']"
    by (simp add: friend_directory_def resolve_def resolve_dots) (simp add: resolve_step_def)
  then have e: "fs_exists (app_fs a) (friend_directory ?u)" using assms(3) by (simp add: fs_exists_def)
  obtain a' where a': "remove_friend ?r a = (Inr ok_response, a')"
    "app_fs a' = remove_all (app_fs a) [''user_settings'']"
    using remove_friend_removes [OF u, of a] e d by (metis list.distinct(1))
  have none: "fs_read (remove_all fs [''user_settings'']) [''user_settings'', f] = None" for fs :: filesys and f
    using fs_exists_remove_all [of "[''user_settings'']" "[''user_settings'', f]" fs]
    by (auto simp: below_def fs_read_def fs_exists_def)
  have files: "ecc_file = [''user_settings'', ''ECC'']" "uuid_file = [''user_settings'', ''uuid.txt'']"
    by (simp_all add: ecc_file_def uuid_file_def resolve_def resolve_step_def is_sep_def)
  have "fs_read (app_fs a') ecc_file = None \<and> fs_read (app_fs a') uuid_file = None"
    unfolding a'(2) files by (intro conjI none)
  moreover have "route_of ?r = RemoveFriend" using assms(2) by (simp only: append_assoc)
  ultimately show ?thesis
    using respond_remove [OF assms(1) _ a'(1)] unfolding append_assoc by blast
qed

theorem removal_escapes_witness:
  "\<exists>a'. respond browsing_env (''POST /remove_friend/'' @ concat (replicate 10 ''./'') @ ''../user_settings'' @ '' HTTP/1.1'' @ crlf @ crlf)
      (friendly_app 1) = (Inr ok_response, a') \<and> fs_read (app_fs a') ecc_file = None"
proof -
  have "route_of (''POST /remove_friend/'' @ concat (replicate 10 ''./'') @ ''../user_settings'' @ '' HTTP/1.1'' @ crlf @ crlf) = RemoveFriend"
    by code_simp
  moreover have "is_directory (app_fs (friendly_app 1)) [''user_settings'']"
    by (simp add: sample_keys_def is_directory_def)
  ultimately show ?thesis
    using removal_escapes [of browsing_env "'' HTTP/1.1'' @ crlf @ crlf" "friendly_app 1"] by simp blast
qed

end
