(* ===== verification/HttpEffects.thy ===== *)
theory HttpEffects
  imports HttpRequests
begin

text \<open>
  What requests of the browser do to the state of the process: adding a friend, the switch of the
  coordinating client, and a file that the image route gives away.
\<close>

section \<open>Adding a friend\<close>

lemma ensure_file_dirs [simp]:
  "is_directory (ensure_file p t fs) = is_directory fs" "can_write (ensure_file p t fs) = can_write fs"
  by (simp_all add: ensure_file_def fun_eq_iff)

lemma exists_file: "can_write fs p \<Longrightarrow> fs_exists fs p = (fs_read fs p \<noteq> None)"
  by (simp add: can_write_def fs_exists_def fs_read_def)

lemma ensure_file_read:
  "fs_read (ensure_file p t fs) q = (if q = p \<and> can_write fs p \<and> fs_read fs p = None then Some t else fs_read fs q)"
proof (cases "can_write fs p")
  case True
  then show ?thesis by (auto simp: ensure_file_def files.rd_wr exists_file)
next
  case False
  then show ?thesis by (simp add: ensure_file_def files.rd_wr)
qed

lemma ensure_file_keeps: "fs_read fs q = Some c \<Longrightarrow> fs_read (ensure_file p t fs) q = Some c"
  and ensure_file_other: "q \<noteq> p \<Longrightarrow> fs_read (ensure_file p t fs) q = fs_read fs q"
  and ensure_file_new: "can_write fs p \<Longrightarrow> fs_read fs p = None \<Longrightarrow> fs_read (ensure_file p t fs) p = Some t"
  by (auto simp: ensure_file_read)

lemma friend_file_eq:
  "plain_name u \<Longrightarrow> friend_file u ''messages.txt'' = [''friends'', u, ''messages.txt'']"
  "plain_name u \<Longrightarrow> friend_file u ''ip_io'' = [''friends'', u, ''ip_io'']"
  "plain_name u \<Longrightarrow> friend_file u ''AES'' = [''friends'', u, ''AES'']"
  "plain_name u \<Longrightarrow> friend_file u ''username.txt'' = [''friends'', u, ''username.txt'']"
  by (simp_all add: friend_file_plain plain_name_def is_sep_def)

lemma friend_directory_plain: "plain_name u \<Longrightarrow> friend_directory u = [''friends'', u]"
  by (simp add: friend_directory_def resolve_def plain_name_def split_path_name resolve_step_def is_sep_def)

lemma skeleton_keeps: "fs_read fs p = Some c \<Longrightarrow> fs_read (friend_skeleton u fs) p = Some c"
  by (simp add: friend_skeleton_def ensure_file_keeps)

lemma skeleton_elsewhere:
  assumes "plain_name u" "\<not> below [''friends'', u] p"
  shows "fs_read (friend_skeleton u fs) p = fs_read fs p"
proof -
  have "p \<noteq> [''friends'', u, f]" for f using assms(2) by (auto simp: below_def)
  then show ?thesis using assms(1) by (simp add: friend_skeleton_def ensure_file_other friend_file_eq)
qed

lemma skeleton_new:
  assumes "plain_name u" "is_directory fs [''friends'', u]"
    and "\<And>f. \<not> is_directory fs [''friends'', u, f] \<and> fs_read fs [''friends'', u, f] = None"
  shows "fs_read (friend_skeleton u fs) (friend_file u ''messages.txt'') = Some []"
    "fs_read (friend_skeleton u fs) (friend_file u ''ip_io'') = Some []"
    "fs_read (friend_skeleton u fs) (friend_file u ''AES'') = Some []"
    "fs_read (friend_skeleton u fs) (friend_file u ''username.txt'') = Some ''New Friend''"
proof -
  have w: "can_write fs [''friends'', u, f]" for f using assms(2,3) by (simp add: can_write_def)
  show "fs_read (friend_skeleton u fs) (friend_file u ''messages.txt'') = Some []"
    "fs_read (friend_skeleton u fs) (friend_file u ''ip_io'') = Some []"
    "fs_read (friend_skeleton u fs) (friend_file u ''AES'') = Some []"
    "fs_read (friend_skeleton u fs) (friend_file u ''username.txt'') = Some ''New Friend''"
    using assms w by (simp_all add: friend_skeleton_def ensure_file_keeps ensure_file_other ensure_file_new friend_file_eq)
qed

text \<open>The directory of a friend that has none yet.\<close>

lemma new_directory:
  assumes "fs_wf fs" "map_of (fs_files fs) [''friends''] = None" "\<not> fs_exists fs [''friends'', u]"
  obtains fs1 where "create_directories fs [''friends'', u] = Inr fs1" "fs_wf fs1" "fs_files fs1 = fs_files fs"
    "\<And>q. is_directory fs1 q \<longleftrightarrow> is_directory fs q \<or> q = [''friends''] \<or> q = [''friends'', u]"
    "\<And>f. \<not> is_directory fs1 [''friends'', u, f] \<and> fs_read fs1 [''friends'', u, f] = None"
proof -
  have p: "path_prefixes [''friends'', u] = [[''friends''], [''friends'', u]]"
    by (simp add: path_prefixes_def upt_rec numeral_2_eq_2)
  have n: "map_of (fs_files fs) [''friends'', u] = None" "\<not> is_directory fs [''friends'', u]"
    using assms(3) by (auto simp: fs_exists_def)
  obtain fs1 where c: "create_directories fs [''friends'', u] = Inr fs1"
    using assms(2) n by (simp add: create_directories_def p)
  have "\<not> is_directory fs [''friends'', u, f]" for f
    using assms(1) n(2) by (auto simp: fs_wf_def is_directory_def)
  moreover have "fs_read fs [''friends'', u, f] = None" for f
  proof (rule ccontr)
    assume "fs_read fs [''friends'', u, f] \<noteq> None"
    then have "map_of (fs_files fs) [''friends'', u, f] \<noteq> None" by (auto simp: fs_read_def split: if_splits)
    then have "can_write fs [''friends'', u, f]" using assms(1) unfolding fs_wf_def by blast
    then show False using n(2) by (simp add: can_write_def)
  qed
  moreover have dirs: "is_directory fs1 q \<longleftrightarrow> is_directory fs q \<or> q = [''friends''] \<or> q = [''friends'', u]" for q
    using create_directories_wf [OF assms(1) c] by (simp add: p)
  ultimately have "\<not> is_directory fs1 [''friends'', u, f] \<and> fs_read fs1 [''friends'', u, f] = None" for f
    using create_directories_wf [OF assms(1) c] by (simp add: fs_read_def)
  then show thesis using that [OF c] create_directories_wf [OF assms(1) c] dirs by blast
qed

text \<open>What is below a directory keeps the directory there.\<close>

lemma entries_below:
  assumes "fs_wf fs" "below p q" "fs_exists fs q"
  shows "fs_exists fs p"
  using assms(2,3)
proof (induction q rule: rev_induct)
  case Nil
  then show ?case by (simp add: below_def)
next
  case (snoc x q)
  show ?case
  proof (cases "p = q @ [x]")
    case False
    obtain r where r: "q @ [x] = p @ r" using snoc.prems(1) by (auto simp: below_iff)
    then have "below p q" using False by (cases r rule: rev_cases) (auto simp: below_iff)
    moreover have "is_directory fs (butlast (q @ [x]))"
      using assms(1) snoc.prems(2) unfolding fs_wf_def can_write_def fs_exists_def is_directory_def by blast
    ultimately show ?thesis using snoc.IH by (simp add: fs_exists_def)
  qed (use snoc.prems in simp)
qed

lemma ensure_file_wf: "fs_wf fs \<Longrightarrow> fs_wf (ensure_file p t fs)"
  by (simp add: ensure_file_def fs_wf_write)

lemma ensure_file_dir_list [simp]: "fs_dirs (ensure_file p t fs) = fs_dirs fs"
  by (simp add: ensure_file_def)

lemma skeleton_wf: "fs_wf fs \<Longrightarrow> fs_wf (friend_skeleton u fs)"
  by (simp add: friend_skeleton_def ensure_file_wf)

lemma skeleton_dirs [simp]:
  "fs_dirs (friend_skeleton u fs) = fs_dirs fs" "is_directory (friend_skeleton u fs) = is_directory fs"
  by (simp_all add: friend_skeleton_def)

lemma respond_add:
  "he_endpoint_ok he \<Longrightarrow> route_of r = AddFriend \<Longrightarrow> add_friend r a = (Inr m, a') \<Longrightarrow> respond he r a = (Inr m, a')"
  by (simp add: respond_def serve_def)

lemma add_friend_adds:
  assumes "path_uuid r ''POST /add_friend/'' = Inr u" "plain_name u"
    and "fs_wf (app_fs a)" "map_of (fs_files (app_fs a)) [''friends''] = None"
    and "\<not> fs_exists (app_fs a) (friend_directory u)"
  obtains a' fs1 where "add_friend r a = (Inr ok_response, a')" "app_fs a' = friend_skeleton u fs1"
    "ap_conns a' = (if map_of (ap_conns a) u \<noteq> None then ap_conns a else AList.update u None (ap_conns a))"
    "g_selected_user (ap_world a') = g_selected_user (ap_world a)"
    "fs_wf fs1" "fs_files fs1 = fs_files (app_fs a)"
    "\<And>q. is_directory fs1 q \<longleftrightarrow> is_directory (app_fs a) q \<or> q = [''friends''] \<or> q = [''friends'', u]"
    "\<And>f. \<not> is_directory fs1 [''friends'', u, f] \<and> fs_read fs1 [''friends'', u, f] = None"
proof -
  have d: "friend_directory u = [''friends'', u]" by (rule friend_directory_plain [OF assms(2)])
  obtain fs1 where fs1: "create_directories (app_fs a) [''friends'', u] = Inr fs1" "fs_wf fs1"
      "fs_files fs1 = fs_files (app_fs a)"
      "\<And>q. is_directory fs1 q \<longleftrightarrow> is_directory (app_fs a) q \<or> q = [''friends''] \<or> q = [''friends'', u]"
      "\<And>f. \<not> is_directory fs1 [''friends'', u, f] \<and> fs_read fs1 [''friends'', u, f] = None"
    using new_directory assms(3-5) unfolding d by blast
  obtain a' where a': "add_friend r a = (Inr ok_response, a')"
    using assms(1,5) fs1(1) by (simp add: add_friend_def Let_def d)
  have "app_fs a' = friend_skeleton u fs1" "g_selected_user (ap_world a') = g_selected_user (ap_world a)"
    "ap_conns a' = (if map_of (ap_conns a) u \<noteq> None then ap_conns a else AList.update u None (ap_conns a))"
    using a' assms(1,5) fs1(1) by (auto simp: add_friend_def Let_def d app_fs_def set_world_def split: if_splits)
  then show thesis using that [OF a'] fs1(2-5) by blast
qed

text \<open>What removing a directory does to the files, and that nothing lies below a name that does not exist.\<close>

lemma read_remove_all:
  "d \<noteq> [] \<Longrightarrow> fs_read (remove_all fs d) p = (if below d p then None else fs_read fs p)"
  by (auto simp: fs_read_def remove_all_def map_of_filter_key is_directory_def)

lemma nothing_below: "fs_wf fs \<Longrightarrow> below d p \<Longrightarrow> \<not> fs_exists fs d \<Longrightarrow> fs_read fs p = None"
  using entries_below [of fs d p] by (cases "map_of (fs_files fs) p") (auto simp: fs_read_def fs_exists_def)

text \<open>A client with nothing but its keys, and somebody it does not know yet.\<close>

abbreviation newcomer :: string where "newcomer \<equiv> replicate 36 (CHR ''c'')"

lemma plain_newcomer: "plain_name newcomer"
  by (simp add: plain_name_def is_sep_def list_all_iff) (simp add: eval_nat_numeral)

lemma keys_only:
  "fs_wf sample_keys" "map_of (fs_files sample_keys) [''friends''] = None"
  "\<not> fs_exists sample_keys (friend_directory newcomer)" "fs_read sample_keys ecc_file = Some (string_of (replicate 32 9))"
  "can_write sample_keys (resolve server_state_file)"
proof -
  have e: "ecc_file = [''user_settings'', ''ECC'']" "resolve server_state_file = [''user_settings'', ''server.txt'']"
    by code_simp+
  show "fs_wf sample_keys" by (simp add: fs_wf_def sample_keys_def can_write_def is_directory_def)
  show "map_of (fs_files sample_keys) [''friends''] = None" by (simp add: sample_keys_def)
  show "\<not> fs_exists sample_keys (friend_directory newcomer)"
    by (simp add: friend_directory_plain [OF plain_newcomer] sample_keys_def fs_exists_def is_directory_def)
  show "fs_read sample_keys ecc_file = Some (string_of (replicate 32 9))" "can_write sample_keys (resolve server_state_file)"
    unfolding e by (simp_all add: sample_keys_def fs_read_def can_write_def is_directory_def)
qed



text \<open>
  C28: removing undoes adding. For a friend that was neither on disk nor in the table and is not the
  one selected, adding and then removing leaves every file and every connection as it was.
\<close>

theorem add_then_remove:
  assumes "he_endpoint_ok he" "r = ''POST /add_friend/'' @ u @ s" "route_of r = AddFriend"
    and "r' = ''POST /remove_friend/'' @ u @ s'" "route_of r' = RemoveFriend"
    and "length u = 36" "plain_name u" "g_selected_user (ap_world a) \<noteq> u" "map_of (ap_conns a) u = None"
    and "fs_wf (app_fs a)" "map_of (fs_files (app_fs a)) [''friends''] = None"
    and "\<not> fs_exists (app_fs a) (friend_directory u)"
  shows "\<exists>a1 a2. respond he r a = (Inr ok_response, a1) \<and> respond he r' a1 = (Inr ok_response, a2)
    \<and> fs_read (app_fs a2) = fs_read (app_fs a) \<and> map_of (ap_conns a2) = map_of (ap_conns a)"
proof -
  have "path_uuid r ''POST /add_friend/'' = Inr u"
    using path_uuid_start [of "''POST /add_friend/''" u s] assms(2,6) by simp
  then obtain a1 fs1 where
    a1: "add_friend r a = (Inr ok_response, a1)" "app_fs a1 = friend_skeleton u fs1"
      "ap_conns a1 = (if map_of (ap_conns a) u \<noteq> None then ap_conns a else AList.update u None (ap_conns a))"
      "g_selected_user (ap_world a1) = g_selected_user (ap_world a)"
    and fs1: "fs_wf fs1" "fs_files fs1 = fs_files (app_fs a)"
      "\<And>q. is_directory fs1 q \<longleftrightarrow> is_directory (app_fs a) q \<or> q = [''friends''] \<or> q = [''friends'', u]"
      "\<And>f. \<not> is_directory fs1 [''friends'', u, f] \<and> fs_read fs1 [''friends'', u, f] = None"
    by (rule add_friend_adds [OF _ assms(7,10-12)]) (rule that)
  have d: "friend_directory u = [''friends'', u]" by (rule friend_directory_plain [OF assms(7)])
  have u: "path_uuid r' ''POST /remove_friend/'' = Inr u"
    using path_uuid_start [of "''POST /remove_friend/''" u s'] assms(4,6) by simp
  have ex: "fs_exists (app_fs a1) (friend_directory u)" using fs1(3) by (simp add: a1(2) d fs_exists_def)
  obtain a2 where a2: "remove_friend r' a1 = (Inr ok_response, a2)"
    "app_fs a2 = remove_all (app_fs a1) (friend_directory u)" "ap_conns a2 = AList.delete u (ap_conns a1)"
    using u ex assms(8) a1(4) by (auto simp: remove_friend_def Let_def app_fs_def set_world_def)
  have "respond he r a = (Inr ok_response, a1)" by (rule respond_add [OF assms(1,3) a1(1)])
  moreover have "respond he r' a1 = (Inr ok_response, a2)" by (rule respond_remove [OF assms(1,5) a2(1)])
  moreover have "map_of (ap_conns a2) = map_of (ap_conns a)"
    using assms(9) a1(3) a2(3) by (auto simp: delete_conv' update_conv')
  moreover have "fs_read (app_fs a2) p = fs_read (app_fs a) p" for p
  proof (cases "below [''friends'', u] p")
    case True
    then show ?thesis using nothing_below [OF assms(10) True] assms(12) by (simp add: a2(2) d read_remove_all)
  next
    case False
    then have "fs_read (app_fs a2) p = fs_read (app_fs a1) p" by (simp add: a2(2) d read_remove_all)
    also have "\<dots> = fs_read fs1 p" using skeleton_elsewhere [OF assms(7) False] by (simp add: a1(2))
    also have "\<dots> = fs_read (app_fs a) p"
      using fs1(2,3) assms(11) False by (auto simp: fs_read_def below_def)
    finally show ?thesis .
  qed
  ultimately show ?thesis by blast
qed

theorem add_then_remove_witness:
  "\<exists>a1 a2. respond browsing_env (''POST /add_friend/'' @ newcomer @ '' HTTP/1.1'' @ crlf @ crlf) (friendly_app 1) = (Inr ok_response, a1)
    \<and> respond browsing_env (''POST /remove_friend/'' @ newcomer @ '' HTTP/1.1'' @ crlf @ crlf) a1 = (Inr ok_response, a2)
    \<and> fs_read (app_fs a2) = fs_read sample_keys \<and> map_of (ap_conns a2) = map_of (ap_conns (friendly_app 1))"
proof -
  have r: "route_of (''POST /add_friend/'' @ newcomer @ '' HTTP/1.1'' @ crlf @ crlf) = AddFriend"
    "route_of (''POST /remove_friend/'' @ newcomer @ '' HTTP/1.1'' @ crlf @ crlf) = RemoveFriend" by code_simp+
  have "g_selected_user (ap_world (friendly_app 1)) \<noteq> newcomer" "map_of (ap_conns (friendly_app 1)) newcomer = None"
    by (simp_all add: friendly_app_def idle_app_def sample_world_def eval_nat_numeral)
  then show ?thesis
    using add_then_remove [OF _ refl r(1) refl r(2), of browsing_env "friendly_app 1"] keys_only plain_newcomer by simp
qed

section \<open>The switch of the coordinating client\<close>

lemma set_connection_sets:
  assumes "body_of r = Inr b" "trim b = ''on'' \<or> trim b = ''off''"
    and "can_write (app_fs a) (resolve server_state_file)"
  shows "set_connection r a = (Inr (make_http_response (trim b) ''text/plain''),
    set_world (\<lambda>w. w\<lparr>w_fs := fs_write (w_fs w) (resolve server_state_file) (trim b),
      g_connection_to_server_active := (trim b = ''on'')\<rparr>) a)"
  using assms by (auto simp: set_connection_def Let_def serve_file_def read_file_def app_fs_def set_world_def files.rd_wr)

lemma connections_keep_switch:
  "g_connection_to_server_active (ap_world (load_connections nt garbage w)) = g_connection_to_server_active w"
proof -
  have p: "g_connection_to_server_active (snd (snd (udp_punch (s, w)))) = g_connection_to_server_active w" for s w
    by (simp add: udp_punch_def next_rand_def Let_def split: sum.split)
  have n: "g_connection_to_server_active (snd (new_udp_server nt i j ip u garbage w)) = g_connection_to_server_active w"
    for i j ip u w
    using p [of "start_receive (blank_server u (word_of_int i) t garbage)" w for t]
    by (auto simp: new_udp_server_def Let_def split: option.split prod.split sum.split) (metis snd_conv)+
  have o: "g_connection_to_server_active (ap_world (open_connection nt garbage d a))
      = g_connection_to_server_active (ap_world a)" for d a
    using n by (auto simp: open_connection_def Let_def split: option.split prod.split sum.split) (metis snd_conv)+
  have "g_connection_to_server_active (ap_world (fold (open_connection nt garbage) ds a))
      = g_connection_to_server_active (ap_world a)" for ds a
    by (induction ds arbitrary: a) (simp_all add: o)
  then show ?thesis by (simp add: load_connections_def Let_def)
qed

lemma keys_keep_switch:
  assumes "generate_or_load_ecc_keys ev fs e = (Inr fs1, e1)"
  shows "read_file fs1 server_state_file = read_file fs server_state_file"
proof -
  have "resolve server_state_file \<noteq> ecc_file" "resolve server_state_file \<noteq> ecc_pub_file"
    by code_simp+
  then show ?thesis
    using assms by (auto simp: generate_or_load_ecc_keys_def Let_def read_file_def bind_res_Inr_iff files.rd_wr
        split: if_splits option.splits prod.splits)
qed

lemma started_switch:
  assumes "start_up ev nt g ip free w = Inr (hs, (c, a))" "read_file (w_fs w) server_state_file = Inr state"
  shows "server_on a \<longleftrightarrow> state = ''on''"
proof -
  obtain fs1 e1 where k: "generate_or_load_ecc_keys ev (w_fs w) (w_entropy w) = (Inr fs1, e1)"
    using assms(1) by (auto simp: start_up_def bind_res_Inr_iff split: prod.splits)
  have state: "read_file fs1 server_state_file = Inr state" using keys_keep_switch [OF k] assms(2) by simp
  obtain w1 where w1: "start_client (new_coord (load_connections nt g (user_selection w1))) = (c, a)"
    "g_connection_to_server_active w1 \<longleftrightarrow> state = ''on''"
    using assms(1) k state by (auto simp: start_up_def Let_def split: if_splits sum.splits)
  have "server_on (snd (new_coord b)) = server_on b" for b
    by (simp add: new_coord_def Let_def server_on_def set_world_def)
  moreover have "snd (start_client ca) = snd ca" for ca
    by (cases ca) (simp add: start_client_def do_connect_def schedule_retry_def Let_def split: prod.split)
  ultimately have "server_on a \<longleftrightarrow> server_on (load_connections nt g (user_selection w1))"
    using w1(1) by (metis snd_conv)
  also have "\<dots> \<longleftrightarrow> g_connection_to_server_active (user_selection w1)"
    by (simp add: server_on_def connections_keep_switch)
  also have "\<dots> \<longleftrightarrow> g_connection_to_server_active w1" by (simp add: user_selection_def split: prod.split)
  finally show ?thesis using w1(2) by simp
qed

text \<open>
  C25: the switch lasts. Setting it answers with the new position, sets the flag that the coordinating
  client looks at, and writes the file: whatever starts from that disk later starts with the same
  position.
\<close>

theorem switch_persists:
  assumes "he_endpoint_ok he" "r = hdr @ blank_line @ body" "complete_header hdr"
    and "length hdr + length body < 2 ^ 60" "route_of r = Connection"
    and "trim body \<in> {''on'', ''off''}" "can_write (app_fs a) (resolve server_state_file)"
  shows "\<exists>a'. respond he r a = (Inr (make_http_response (trim body) ''text/plain''), a')
    \<and> (server_on a' \<longleftrightarrow> trim body = ''on'') \<and> ap_conns a' = ap_conns a
    \<and> (\<forall>ev nt g ip free w hs c a2. w_fs w = app_fs a' \<longrightarrow>
         start_up ev nt g ip free w = Inr (hs, (c, a2)) \<longrightarrow> (server_on a2 \<longleftrightarrow> trim body = ''on''))"
proof -
  have b: "body_of r = Inr body" unfolding assms(2) by (rule body_of_request [OF assms(3,4)])
  obtain a' where a': "set_connection r a = (Inr (make_http_response (trim body) ''text/plain''), a')"
    "app_fs a' = fs_write (app_fs a) (resolve server_state_file) (trim body)"
    "server_on a' \<longleftrightarrow> trim body = ''on''" "ap_conns a' = ap_conns a"
    using set_connection_sets [OF b _ assms(7)] assms(6) by (simp add: app_fs_def set_world_def server_on_def)
  have "respond he r a = (Inr (make_http_response (trim body) ''text/plain''), a')"
    using assms(1,5) a'(1) by (simp add: respond_def serve_def)
  moreover have "server_on a2 \<longleftrightarrow> trim body = ''on''"
    if "w_fs w = app_fs a'" "start_up ev nt g ip free w = Inr (hs, (c, a2))" for ev nt g ip free w hs c a2
  proof (rule started_switch [OF that(2)])
    show "read_file (w_fs w) server_state_file = Inr (trim body)"
      using that(1) assms(7) by (simp add: a'(2) read_file_def files.rd_wr)
  qed
  ultimately show ?thesis using a'(3,4) by blast
qed

theorem switch_persists_witness:
  "\<exists>a'. respond browsing_env (switch_header @ blank_line @ ''on'') (friendly_app 0)
      = (Inr (make_http_response ''on'' ''text/plain''), a') \<and> server_on a'"
proof -
  have "trim ''on'' = ''on''" "route_of (switch_header @ blank_line @ ''on'') = Connection"
    unfolding switch_header_def by code_simp+
  moreover have "length switch_header + length ''on'' < 2 ^ 60" by (simp add: switch_header_def)
  ultimately show ?thesis
    using switch_persists [of browsing_env _ switch_header "''on''" "friendly_app 0", OF _ refl switch_header_ok(1)]
      keys_only(5) by simp blast
qed

section \<open>The image route\<close>

lemma http_after_imgs:
  assumes "CHR '' '' \<notin> set u"
  shows "find_list '' HTTP/'' (''GET /imgs/'' @ u @ '' HTTP/'' @ s) = Some (10 + length u)"
proof -
  have h: "find_list '' HTTP/'' (u @ '' HTTP/'' @ s) = Some (length u)"
    using find_list_behind [of "'' HTTP/''" u s] assms by simp
  show ?thesis using h by (simp add: starts_with_def)
qed

lemma sub_pos_add: "k \<le> 2 ^ 64 \<Longrightarrow> n < 2 ^ 64 \<Longrightarrow> sub_pos (k + n) k = n"
  by (simp add: sub_pos_def)

lemma image_name:
  assumes "CHR '' '' \<notin> set u" "CHR '' '' \<notin> set name" "length u = 36" "length name < 2 ^ 60"
  shows "img_name (''GET /imgs/'' @ u @ CHR ''/'' # name @ '' HTTP/'' @ s) ''GET /imgs/'' = Inr name"
proof -
  let ?r = "''GET /imgs/'' @ u @ CHR ''/'' # name @ '' HTTP/'' @ s"
  have "behind ?r ''GET /imgs/'' = 10" using behind_here [OF find_list_start, of "''GET /imgs/''"] by simp
  moreover have "str_find ?r '' HTTP/'' 0 = 47 + length name"
    using http_after_imgs [of "u @ CHR ''/'' # name" s] assms(1-3) by (intro str_find_here) simp
  moreover have "add_pos 10 37 = 47" by (simp add: add_pos_def)
  moreover have "sub_pos (47 + length name) 47 = length name"
    by (rule sub_pos_add) (use assms(4) in simp_all)
  ultimately show ?thesis using assms(3) by (simp add: img_name_def Let_def substr_def)
qed

text \<open>
  C29: the private key is a file like any other. The image route joins the identifier and the name from
  the request to a path without checking either: a name that climbs out of the directory makes the
  server answer with the private key of the user. The answer also permits every web page to read it.
\<close>

theorem private_key_served:
  assumes "he_endpoint_ok he" "r = ''GET /imgs/'' @ u @ ''/../../user_settings/ECC HTTP/1.1'' @ s" "route_of r = Imgs"
    and "length u = 36" "plain_name u" "CHR '' '' \<notin> set u" "fs_read (app_fs a) ecc_file = Some k"
  shows "respond he r a = (Inr (make_http_response k ''image/jpeg''), a)"
proof -
  let ?n = "''../../user_settings/ECC''"
  have "img_name r ''GET /imgs/'' = Inr ?n"
    using image_name [of u ?n "''1.1'' @ s"] assms(2,4,6) by simp
  moreover have "path_uuid r ''GET /imgs/'' = Inr u"
    using path_uuid_start [of "''GET /imgs/''" u] assms(2,4) by simp
  moreover have "find_list ''?'' ?n = None" by code_simp
  then have "cut_query ?n = ?n" by (simp add: cut_query_def str_find_def)
  moreover have "resolve (received_path u ?n) = ecc_file"
  proof -
    have "split_path [] (''./received/'' @ u @ CHR ''/'' # ?n) = [''.'', ''received'', u, ''..'', ''..'', ''user_settings'', ''ECC'']"
      using assms(5) by (simp add: plain_name_def split_path_plain is_sep_def)
    then show ?thesis
      using assms(5) by (simp add: received_path_def resolve_def resolve_step_def plain_name_def ecc_file_def
          split_path_plain is_sep_def)
  qed
  ultimately have "get_img r (app_fs a) = Inr (make_http_response k ''image/jpeg'')"
    using assms(7) by (simp add: get_img_def read_file_def)
  then show ?thesis using assms(1,3) by (simp add: respond_def serve_def app_fs_def)
qed

theorem private_key_served_witness:
  "respond browsing_env (''GET /imgs/'' @ newcomer @ ''/../../user_settings/ECC HTTP/1.1'' @ crlf @ crlf) (friendly_app 1)
    = (Inr (make_http_response (string_of (replicate 32 9)) ''image/jpeg''), friendly_app 1)"
proof -
  have "route_of (''GET /imgs/'' @ newcomer @ ''/../../user_settings/ECC HTTP/1.1'' @ crlf @ crlf) = Imgs" by code_simp
  from private_key_served [OF _ refl this] show ?thesis
    using keys_only(4) plain_newcomer by simp
qed

end
