(* ===== verification/UdpSteps.thy ===== *)
theory UdpSteps
  imports UdpFiles Machine
begin

text \<open>
  One \<open>udp_server\<close> over its whole life: the events that reach the object (datagrams, errors, timers,
  requests of the rest of the program), what each of them does, and the invariant every sequence of
  events keeps. From it: every datagram ever sent is well-formed, every transfer ends, and a
  connection whose receive failed stays deaf.
\<close>

section \<open>Events\<close>

datatype udp_event =
    Datagram "byte list"
  | ReceiveError
  | PunchTimer
  | TransmitTimer
  | SendText string
  | SendFile u32 "byte list" string
  | SendKey
  | Retarget int int string
  | Stop
  | Elsewhere world        \<comment> \<open>the rest of the process and the clock move on\<close>

text \<open>An event for which the object does not wait does nothing.\<close>

fun udp_step :: "evp \<Rightarrow> net \<Rightarrow> udp_event \<Rightarrow> conn \<Rightarrow> unit res \<times> conn" where
  "udp_step ev nt (Datagram d) (s, w) = (if us_receiving s then receive ev d (s, w) else (Inr (), (s, w)))"
| "udp_step ev nt ReceiveError (s, w) = (if us_receiving s then handle_receive ev True (s, w) else (Inr (), (s, w)))"
| "udp_step ev nt PunchTimer (s, w) = (if us_punching s then udp_punch (s, w) else (Inr (), (s, w)))"
| "udp_step ev nt TransmitTimer (s, w) = transmit_fires ev (s, w)"
| "udp_step ev nt (SendText msg) (s, w) = (Inr (), send_text ev msg (s, w))"
| "udp_step ev nt (SendFile mid data name) (s, w) = (Inr (), (send_file mid data name s, w))"
| "udp_step ev nt SendKey (s, w) = send_ECC_public_key (s, w)"
| "udp_step ev nt (Retarget i j ip) (s, w) = (case change_target nt i j ip s of (r, s') \<Rightarrow> (r, (s', w)))"
| "udp_step ev nt Stop (s, w) = (Inr (), (stop s, w))"
| "udp_step ev nt (Elsewhere w') (s, w) = (Inr (), (s, w'))"

text \<open>
  A sequence of events. Undefined behaviour ends the run; after an exception the run goes on from
  the state it left (the browser's requests catch it, elsewhere the process is over).
\<close>

fun udp_run :: "evp \<Rightarrow> net \<Rightarrow> udp_event list \<Rightarrow> conn \<Rightarrow> unit res \<times> conn" where
  "udp_run ev nt [] c = (Inr (), c)"
| "udp_run ev nt (e # es) c =
     (case udp_step ev nt e c of
        (Inl (UB what), c') \<Rightarrow> (Inl (UB what), c')
      | (_, c') \<Rightarrow> udp_run ev nt es c')"

section \<open>The invariant\<close>

text \<open>A name that cannot leave its directory: one path component, no reserved character.\<close>

definition safe_name :: "string \<Rightarrow> bool" where
  "safe_name n \<longleftrightarrow> plain_name n \<and> list_all (\<lambda>c. \<not> bad_name_char c) n"

definition file_ok :: "incoming_file \<Rightarrow> bool" where
  "file_ok f \<longleftrightarrow> safe_name (if_name f) \<and> distinct (map fst (if_chunks f))"

definition transfer_ok :: "transfer \<Rightarrow> bool" where
  "transfer_ok tr \<longleftrightarrow> tr_total tr = total_packets_of (tr_data tr)
     \<and> (tr_index tr = 0 \<or> tr_index tr < tr_total tr)"

definition datagram_ok :: "byte list \<Rightarrow> bool" where
  "datagram_ok d \<longleftrightarrow> length d = 512 \<and> accepts d"

definition udp_ok :: "udp_server \<Rightarrow> bool" where
  "udp_ok s \<longleftrightarrow> length (us_recv_buffer s) = 512
     \<and> (us_stopped s \<longrightarrow> \<not> us_receiving s \<and> \<not> us_punching s)
     \<and> (\<forall>d \<in> set (us_outbox s). datagram_ok d)
     \<and> (\<forall>tr. us_transfer s = Some tr \<longrightarrow> transfer_ok tr)
     \<and> distinct (map fst (us_incoming s)) \<and> (\<forall>(m, f) \<in> set (us_incoming s). file_ok f)"

text \<open>What the operations change, one lemma for each group of fields.\<close>

lemma udp_ok_other [simp]:
  "udp_ok (s\<lparr>us_uuid := u\<rparr>) = udp_ok s" "udp_ok (s\<lparr>us_username := n\<rparr>) = udp_ok s"
  "udp_ok (s\<lparr>us_open := b\<rparr>) = udp_ok s" "udp_ok (s\<lparr>us_port := p\<rparr>) = udp_ok s"
  "udp_ok (s\<lparr>us_target := t\<rparr>) = udp_ok s"
  by (simp_all add: udp_ok_def)

lemma udp_ok_receiving: "udp_ok s \<Longrightarrow> \<not> us_stopped s \<or> \<not> b \<Longrightarrow> udp_ok (s\<lparr>us_receiving := b\<rparr>)"
  by (auto simp: udp_ok_def)

lemma udp_ok_punching: "udp_ok s \<Longrightarrow> \<not> us_stopped s \<or> \<not> b \<Longrightarrow> udp_ok (s\<lparr>us_punching := b\<rparr>)"
  by (auto simp: udp_ok_def)

lemma udp_ok_buffer: "udp_ok s \<Longrightarrow> length b = 512 \<Longrightarrow> udp_ok (s\<lparr>us_recv_buffer := b\<rparr>)"
  by (simp add: udp_ok_def)

lemma udp_ok_transfer: "udp_ok s \<Longrightarrow> (\<And>tr. t = Some tr \<Longrightarrow> transfer_ok tr) \<Longrightarrow> udp_ok (s\<lparr>us_transfer := t\<rparr>)"
  by (simp add: udp_ok_def)

lemma udp_ok_incoming: "udp_ok s \<Longrightarrow> file_ok f \<Longrightarrow> udp_ok (s\<lparr>us_incoming := AList.update m f (us_incoming s)\<rparr>)"
  by (auto simp: udp_ok_def distinct_update dest!: in_set_update)

lemma udp_ok_incoming_delete: "udp_ok s \<Longrightarrow> udp_ok (s\<lparr>us_incoming := AList.delete m (us_incoming s)\<rparr>)"
  by (auto simp: udp_ok_def AList.delete_eq intro: distinct_map_filter)

lemma udp_ok_start_receive: "udp_ok s \<Longrightarrow> udp_ok (start_receive s)"
  by (simp add: start_receive_def udp_ok_receiving)

lemma udp_ok_fill: "udp_ok s \<Longrightarrow> n \<le> 512 \<Longrightarrow> udp_ok (fill_buffer n s)"
  by (simp add: fill_buffer_def udp_ok_buffer udp_ok_def)

lemma udp_ok_deliver: "udp_ok s \<Longrightarrow> udp_ok (deliver d s)"
  by (simp add: deliver_def udp_ok_buffer udp_ok_def)

text \<open>Everything that is sent is a packet some constructor built.\<close>

lemma udp_ok_send: "udp_ok s \<Longrightarrow> packet_ok p \<Longrightarrow> udp_ok (send_arr (get_bytes p) s)"
  using packet_fields [of p] by (auto simp: udp_ok_def send_arr_def datagram_ok_def)

lemmas udp_ok_intros = udp_ok_receiving udp_ok_punching udp_ok_buffer udp_ok_transfer udp_ok_incoming
  udp_ok_incoming_delete udp_ok_start_receive udp_ok_fill udp_ok_deliver udp_ok_send

section \<open>The invariant, operation by operation\<close>

lemma udp_ok_sel: "udp_ok s \<Longrightarrow> length (us_recv_buffer s) = 512"
  by (simp add: udp_ok_def)

lemma send_text_ok: "udp_ok s \<Longrightarrow> udp_ok (fst (send_text ev msg (s, w)))"
  by (auto simp: send_text_def Let_def intro!: udp_ok_send split: prod.split)

lemma length_file_header: "length (file_header n name) = 495"
  by (simp add: file_header_def length_content_array)

lemma send_file_ok: "udp_ok s \<Longrightarrow> udp_ok (send_file mid data name s)"
  by (auto simp: send_file_def Let_def transfer_ok_def length_file_header intro!: udp_ok_transfer udp_ok_send)

lemma send_ECC_public_key_ok:
  "udp_ok s \<Longrightarrow> send_ECC_public_key (s, w) = (r, (s', w')) \<Longrightarrow> udp_ok s'"
  by (auto simp: send_ECC_public_key_def Let_def length_content_array intro!: udp_ok_send
      split: sum.splits if_splits prod.splits)

lemma send_encrypted_AES_key_ok:
  "udp_ok s \<Longrightarrow> send_encrypted_AES_key ev pub (s, w) = (r, (s', w')) \<Longrightarrow> udp_ok s'"
  by (auto simp: send_encrypted_AES_key_def Let_def length_content_array intro!: udp_ok_send
      split: sum.splits if_splits prod.splits)

lemma piece_packet_ok: "piece_packet mid n i enc = Inr p \<Longrightarrow> packet_ok p"
  by (auto simp: piece_packet_def length_content_array split: if_splits)

lemma send_file_packet_ok:
  assumes "udp_ok s" "n = total_packets_of data" "send_file_packet ev mid data n i (s, w) = (r, (s', w'))"
  shows "udp_ok s'"
  using assms
  by (auto simp: send_file_packet_def Let_def transfer_ok_def intro!: udp_ok_transfer udp_ok_send
      dest: piece_packet_ok split: prod.splits sum.splits if_splits)

lemma transmit_fires_ok:
  assumes "udp_ok s" "transmit_fires ev (s, w) = (r, (s', w'))"
  shows "udp_ok s'"
proof (cases "us_transfer s")
  case (Some tr)
  then have "tr_total tr = total_packets_of (tr_data tr)" using assms(1) by (simp add: udp_ok_def transfer_ok_def)
  moreover have "udp_ok (s\<lparr>us_transfer := None\<rparr>)" by (rule udp_ok_transfer [OF assms(1)]) simp
  ultimately show ?thesis
    using assms(2) Some send_file_packet_ok by (auto simp: transmit_fires_def Let_def split: if_splits)
qed (use assms in \<open>simp add: transmit_fires_def\<close>)

lemma udp_punch_ok: "udp_ok s \<Longrightarrow> udp_punch (s, w) = (r, (s', w')) \<Longrightarrow> udp_ok s'"
  by (auto simp: udp_punch_def Let_def send_arr_def [symmetric] intro!: udp_ok_punching udp_ok_send
      split: sum.splits if_splits prod.splits) (auto simp: send_arr_def)

lemma change_target_ok: "udp_ok s \<Longrightarrow> change_target nt i j ip s = (r, s') \<Longrightarrow> udp_ok s'"
  by (auto simp: change_target_def Let_def intro!: udp_ok_start_receive udp_ok_fill udp_ok_receiving
      split: if_splits option.splits)

lemma stop_ok: "udp_ok s \<Longrightarrow> udp_ok (stop s)"
  by (simp add: stop_def udp_ok_def)

lemma handle_text_ok: "udp_ok s \<Longrightarrow> udp_ok (fst (handle_text ev actual (s, w)))"
  by (simp add: handle_text_def Let_def split: sum.split)

lemma handle_username_ok: "udp_ok s \<Longrightarrow> handle_username buf (s, w) = (r, (s', w')) \<Longrightarrow> udp_ok s'"
  by (auto simp: handle_username_def Let_def split: sum.splits if_splits)

lemma handle_key_ok: "udp_ok s \<Longrightarrow> handle_key ev actual (s, w) = (r, (s', w')) \<Longrightarrow> udp_ok s'"
  by (auto simp: handle_key_def Let_def split: sum.splits if_splits)

lemma handle_control_ok: "udp_ok s \<Longrightarrow> handle_control ev buf actual (s, w) = (r, (s', w')) \<Longrightarrow> udp_ok s'"
  by (auto simp: handle_control_def handle_public_key_def Let_def split: if_splits
      intro: handle_username_ok handle_key_ok send_encrypted_AES_key_ok)

text \<open>The name under which a file will be stored.\<close>

lemma digits_not_bad: "list_all (\<lambda>c. \<not> bad_name_char c) (show_nat n)"
proof -
  have "\<not> bad_name_char c" if "is_digit 10 c" for c
    using that by (auto simp: bad_name_char_def is_digit_def digit_val_def)
  then show ?thesis using show_nat_digits [of n] by (auto simp: list_all_iff)
qed

lemma header_name_not_bad: "list_all (\<lambda>c. \<not> bad_name_char c) (header_name MID actual)"
  using digits_not_bad by (auto simp: header_name_def Let_def)

lemma unique_name_not_bad:
  assumes "unique_name fs u name = Inr final" "list_all (\<lambda>c. \<not> bad_name_char c) name"
  shows "list_all (\<lambda>c. \<not> bad_name_char c) final"
proof -
  obtain b e where be: "split_ext name = (b, e)" by (cases "split_ext name")
  then have "list_all (\<lambda>c. \<not> bad_name_char c) (b @ e)" using assms(2) split_ext_append by simp
  moreover have "list_all (\<lambda>c. \<not> bad_name_char c) ''()''" by (simp add: bad_name_char_def)
  ultimately have "list_all (\<lambda>c. \<not> bad_name_char c) (numbered_name b e n)" for n
    using digits_not_bad [of n] by (simp add: numbered_name_def)
  then show ?thesis using assms be by (auto simp: unique_name_def split: if_splits option.splits)
qed

lemma handle_file_header_ok:
  assumes "udp_ok s" "handle_file_header MID actual (s, w) = (r, (s', w'))"
  shows "udp_ok s'"
proof (cases "create_directories (w_fs w) (resolve (received_dir (us_uuid s)))")
  case (Inl e)
  then show ?thesis using assms by (auto simp: handle_file_header_def Let_def)
next
  case (Inr fs)
  show ?thesis
  proof (rule handle_file_header_result [OF Inr, of MID actual], goal_cases)
    case (1 final)
    have "list_all (\<lambda>c. \<not> bad_name_char c) final"
      by (rule unique_name_not_bad [OF 1(2) header_name_not_bad])
    then show ?case
      using 1(1,3) assms by (auto simp: file_ok_def safe_name_def intro!: udp_ok_incoming)
  qed
qed

lemma udp_ok_file: "udp_ok s \<Longrightarrow> map_of (us_incoming s) m = Some f \<Longrightarrow> file_ok f"
  by (auto simp: udp_ok_def dest: map_of_SomeD)

lemma handle_file_data_ok:
  assumes "udp_ok s" "handle_file_data ev MID PID actual (s, w) = (r, (s', w'))"
  shows "udp_ok s'"
proof -
  have "file_ok (f\<lparr>if_chunks := AList.update PID d (if_chunks f)\<rparr>)"
    if "map_of (us_incoming s) MID = Some f" for f d
    using udp_ok_file [OF assms(1) that] by (simp add: file_ok_def distinct_update)
  then show ?thesis
    using assms by (auto simp: handle_file_data_def Let_def udp_ok_incoming udp_ok_incoming_delete
        split: option.splits if_splits sum.splits)
qed

lemma dispatch_ok:
  assumes "udp_ok s" "dispatch ev buf (s, w) = (r, (s', w'))"
  shows "udp_ok s'"
  using assms handle_text_ok [OF assms(1), of ev "actual_data buf" w]
  by (auto simp: dispatch_def handle_file_def Let_def split: if_splits
      intro: handle_control_ok handle_file_header_ok handle_file_data_ok)

lemma listen_again_ok: "udp_ok s \<Longrightarrow> listen_again (s, w) = (s', w') \<Longrightarrow> udp_ok s'"
  by (auto simp: listen_again_def udp_ok_start_receive udp_ok_fill)

lemma handle_receive_ok:
  assumes "udp_ok s0" "handle_receive ev error (s0, w) = (r, (s', w'))"
  shows "udp_ok s'"
proof -
  let ?s = "s0\<lparr>us_receiving := False\<rparr>"
  have ok: "udp_ok ?s" using assms(1) by (simp add: udp_ok_receiving)
  obtain r1 s1 w1 where d: "dispatch ev (us_recv_buffer s0) (?s, packet_seen (us_uuid s0) w) = (r1, (s1, w1))"
    by (metis prod.exhaust)
  have "udp_ok s1" by (rule dispatch_ok [OF ok d])
  then show ?thesis
    using assms(2) ok d listen_again_ok
    by (cases r1) (auto simp: handle_receive_def Let_def split: if_splits)
qed

lemma receive_ok: "udp_ok s \<Longrightarrow> receive ev d (s, w) = (r, (s', w')) \<Longrightarrow> udp_ok s'"
  by (simp add: receive_def) (rule handle_receive_ok [OF udp_ok_deliver])

lemma send_text_ok': "udp_ok s \<Longrightarrow> send_text ev msg (s, w) = (s', w') \<Longrightarrow> udp_ok s'"
  using send_text_ok [of s ev msg w] by simp

lemma udp_step_ok:
  assumes "udp_ok s" "udp_step ev nt e (s, w) = (r, (s', w'))"
  shows "udp_ok s'"
  using assms
  by (cases e) (auto split: if_splits prod.splits intro: receive_ok handle_receive_ok udp_punch_ok
      transmit_fires_ok send_text_ok' send_file_ok send_ECC_public_key_ok change_target_ok stop_ok)

text \<open>As a machine: an event, with whatever the process state is at that time.\<close>

definition udp_start :: "net \<Rightarrow> udp_server \<Rightarrow> bool" where
  "udp_start nt s \<longleftrightarrow> (\<exists>i j ip u garbage w w'. length garbage = 512
     \<and> new_udp_server nt i j ip u garbage w = (Inr s, w'))"

definition udp_moves :: "evp \<Rightarrow> net \<Rightarrow> udp_server \<Rightarrow> udp_server \<Rightarrow> bool" where
  "udp_moves ev nt s s' \<longleftrightarrow> (\<exists>e w r w'. udp_step ev nt e (s, w) = (r, (s', w')))"

text \<open>What each event leaves alone: the pending transfer, the receiving side.\<close>

lemma start_receive_sel [simp]:
  "us_transfer (start_receive s) = us_transfer s" "us_incoming (start_receive s) = us_incoming s"
  "us_username (start_receive s) = us_username s"
  by (simp_all add: start_receive_def)

lemma fill_deliver_sel [simp]:
  "us_transfer (fill_buffer n s) = us_transfer s" "us_transfer (deliver d s) = us_transfer s"
  by (simp_all add: fill_buffer_def deliver_def)

lemma send_arr_sel [simp]:
  "us_transfer (send_arr d s) = us_transfer s" "us_incoming (send_arr d s) = us_incoming s"
  "us_username (send_arr d s) = us_username s" "us_receiving (send_arr d s) = us_receiving s"
  by (simp_all add: send_arr_def)

lemma transfer_kept_send:
  "us_transfer (fst (send_text ev msg (s, w))) = us_transfer s"
  "us_transfer (fst (handle_text ev actual (s, w))) = us_transfer s"
  by (auto simp: send_text_def handle_text_def Let_def split: prod.split sum.split)

lemma transfer_kept:
  "us_transfer (fst (snd (send_ECC_public_key (s, w)))) = us_transfer s"
  "us_transfer (fst (snd (send_encrypted_AES_key ev pub (s, w)))) = us_transfer s"
  "us_transfer (fst (snd (udp_punch (s, w)))) = us_transfer s"
  "us_transfer (snd (change_target nt i j ip s)) = us_transfer s"
  "us_transfer (stop s) = us_transfer s"
  "us_transfer (fst (snd (handle_username buf (s, w)))) = us_transfer s"
  "us_transfer (fst (snd (handle_key ev actual (s, w)))) = us_transfer s"
  "us_transfer (fst (snd (handle_file_header MID actual (s, w)))) = us_transfer s"
  "us_transfer (fst (snd (handle_file_data ev MID PID actual (s, w)))) = us_transfer s"
  by (auto simp: send_ECC_public_key_def send_encrypted_AES_key_def udp_punch_def change_target_def stop_def
      handle_username_def handle_key_def handle_file_header_def handle_file_data_def Let_def
      split: prod.split sum.split option.split)

lemma receive_transfer:
  "us_transfer (fst (snd (dispatch ev buf (s, w)))) = us_transfer s"
  "us_transfer (fst (snd (handle_receive ev error (s, w)))) = us_transfer s"
  "us_transfer (fst (snd (receive ev d (s, w)))) = us_transfer s"
proof -
  show d: "us_transfer (fst (snd (dispatch ev buf (s, w)))) = us_transfer s" for buf s w
    by (simp add: dispatch_def handle_control_def handle_public_key_def handle_file_def Let_def
        transfer_kept transfer_kept_send)
  have "us_transfer (fst (snd (case dispatch ev b (t, v) of
      (Inl e, c2) \<Rightarrow> (Inl e, c2) | (Inr _, c2) \<Rightarrow> (Inr (), listen_again c2)))) = us_transfer t" for b t v
    using d [of b t v] by (auto simp: listen_again_def split: prod.split sum.split)
  then show h: "us_transfer (fst (snd (handle_receive ev error (s, w)))) = us_transfer s" for error s
    by (simp add: handle_receive_def listen_again_def Let_def)
  show "us_transfer (fst (snd (receive ev d (s, w)))) = us_transfer s"
    by (simp add: receive_def h)
qed

section \<open>Transfers end\<close>

text \<open>How often the transmit timer can still fire.\<close>

definition fires_left :: "udp_server \<Rightarrow> nat" where
  "fires_left s = (case us_transfer s of None \<Rightarrow> 0
     | Some tr \<Rightarrow> max 1 (unat (tr_total tr) - unat (tr_index tr)))"

fun new_transfer :: "udp_event \<Rightarrow> bool" where
  "new_transfer (SendFile _ _ _) = True"
| "new_transfer _ = False"

lemma fires_left_zero: "fires_left s = 0 \<longleftrightarrow> us_transfer s = None"
  by (simp add: fires_left_def split: option.split)

lemma Suc_unat_less: "(i :: u64) < n \<Longrightarrow> unat (i + 1) = Suc (unat i)"
  using unsigned_less [of n, where ?'a = nat] by (simp add: word_less_nat_alt unat_word_ariths)

lemma transmit_fires_less:
  assumes "udp_ok s" "transmit_fires ev (s, w) = (r, (s', w'))"
  shows "fires_left s' \<le> fires_left s - 1"
proof (cases "us_transfer s")
  case (Some tr)
  have "transfer_ok tr" using assms(1) Some by (simp add: udp_ok_def)
  then have "tr_index tr = 0 \<or> tr_index tr < tr_total tr" unfolding transfer_ok_def by blast
  then have "unat (tr_index tr + 1) = Suc (unat (tr_index tr))"
    by (auto simp: word_less_nat_alt intro: Suc_unat_less)
  then have "fires_left s' = 0 \<or> unat (tr_index tr + 1) = Suc (unat (tr_index tr))
      \<and> tr_index tr + 1 < tr_total tr \<and> fires_left s' = unat (tr_total tr) - unat (tr_index tr + 1)"
    using assms(2) Some
    by (auto simp: transmit_fires_def send_file_packet_def fires_left_def Let_def word_less_nat_alt
        split: if_splits prod.splits sum.splits)
  then show ?thesis using Some by (auto simp: fires_left_def)
qed (use assms in \<open>simp add: transmit_fires_def fires_left_def\<close>)

lemma udp_step_transfer:
  assumes "e \<noteq> TransmitTimer" "\<not> new_transfer e"
  shows "us_transfer (fst (snd (udp_step ev nt e (s, w)))) = us_transfer s"
  using assms receive_transfer transfer_kept transfer_kept_send
  by (cases e) (auto split: prod.split, metis snd_conv)

lemma fires_left_run:
  assumes "udp_ok s" "udp_run ev nt es (s, w) = (Inr (), (s', w'))"
    and "list_all (\<lambda>e. \<not> new_transfer e) es"
  shows "fires_left s' \<le> fires_left s - length (filter (\<lambda>e. e = TransmitTimer) es)"
  using assms
proof (induction es arbitrary: s w)
  case (Cons e es)
  obtain r1 s1 w1 where step: "udp_step ev nt e (s, w) = (r1, (s1, w1))" by (metis prod.exhaust)
  have "fires_left s1 \<le> fires_left s - length (filter (\<lambda>e. e = TransmitTimer) [e])"
  proof (cases "e = TransmitTimer")
    case True
    then show ?thesis using transmit_fires_less [OF Cons.prems(1)] step by simp
  next
    case False
    then show ?thesis using udp_step_transfer [of e ev nt s w] Cons.prems(3) step by (simp add: fires_left_def)
  qed
  moreover have "fires_left s' \<le> fires_left s1 - length (filter (\<lambda>e. e = TransmitTimer) es)"
    using Cons.IH [OF udp_step_ok [OF Cons.prems(1) step]] Cons.prems(2,3) step
    by (auto split: sum.splits failure.splits)
  ultimately show ?case by (cases "e = TransmitTimer") auto
qed simp

section \<open>Properties\<close>

lemma new_udp_server_ok:
  assumes "new_udp_server nt iport oport ip u garbage w = (Inr s, w1)" "length garbage = 512"
  shows "udp_ok s"
proof -
  obtain target where t: "net_resolve nt ip (show_int oport) = Some target"
    using assms(1) by (auto simp: new_udp_server_def Let_def split: if_splits option.splits)
  let ?s0 = "start_receive (blank_server u (word_of_int iport) target garbage)"
  obtain r s1 w2 where p: "udp_punch (?s0, w) = (r, (s1, w2))" by (metis prod.exhaust)
  have "udp_ok (blank_server u (word_of_int iport) target garbage)"
    using assms(2) by (simp add: udp_ok_def blank_server_def)
  then have "udp_ok s1" by (rule udp_punch_ok [OF udp_ok_start_receive p])
  then have "udp_ok ((fill_buffer 64 s1)\<lparr>us_username := name\<rparr>)" for name by (simp add: udp_ok_fill)
  moreover obtain name where "s = (fill_buffer 64 s1)\<lparr>us_username := name\<rparr>"
    using assms(1) unfolding new_udp_server_def Let_def by (auto simp: t p split: if_splits sum.splits)
  ultimately show ?thesis by simp
qed

interpretation connection: machine "udp_start nt" "udp_moves ev nt" udp_ok for ev nt
  by unfold_locales (auto simp: udp_start_def udp_moves_def intro: new_udp_server_ok udp_step_ok)

lemma udp_run_moves: "udp_run ev nt es (s, w) = (r, (s', w')) \<Longrightarrow> (udp_moves ev nt)\<^sup>*\<^sup>* s s'"
proof (induction es arbitrary: s w)
  case (Cons e es)
  obtain r1 s1 w1 where step: "udp_step ev nt e (s, w) = (r1, (s1, w1))" by (metis prod.exhaust)
  then have move: "udp_moves ev nt s s1" unfolding udp_moves_def by blast
  show ?case
  proof (cases "\<exists>what. r1 = Inl (UB what)")
    case True
    then show ?thesis using Cons.prems step move by auto
  next
    case False
    then have "udp_run ev nt es (s1, w1) = (r, (s', w'))"
      using Cons.prems step by (auto split: sum.splits failure.splits)
    then show ?thesis using Cons.IH move by (meson converse_rtranclp_into_rtranclp)
  qed
qed simp


definition open_net :: net where
  "open_net = \<lparr>net_bind = \<lambda>p. True, net_resolve = \<lambda>h p. Some (h, 9001)\<rparr>"

definition friend_fs :: filesys where
  "friend_fs = \<lparr>fs_files = [([''user_settings'', ''name.txt''], ''me''),
     ([''friends'', ''f'', ''username.txt''], ''you'')], fs_dirs = []\<rparr>"

lemma friend_fs_reads:
  "read_file friend_fs ''./user_settings/name.txt'' = Inr ''me''"
  "read_file friend_fs ''./friends/f/username.txt'' = Inr ''you''"
  by code_simp+

lemma new_sample:
  obtains s w1 where "new_udp_server open_net 9000 9001 ''10.0.0.2'' ''f'' g (sample_world friend_fs) = (Inr s, w1)"
  using friend_fs_reads
  by (simp add: new_udp_server_def open_net_def udp_punch_def start_receive_def blank_server_def next_rand_def)


text \<open>
  C17: every transfer ends. Whatever else happens to the connection meanwhile, errors and a stop
  included, once the transmit timer has fired once per packet of the file (once for an empty
  file) no transfer is pending, provided no new one was started.
\<close>

theorem transfer_ends:
  assumes "udp_ok s" "us_transfer s = Some tr" "list_all (\<lambda>e. \<not> new_transfer e) es"
    and "max 1 (unat (tr_total tr)) \<le> length (filter (\<lambda>e. e = TransmitTimer) es)"
    and "udp_run ev nt es (s, w) = (Inr (), (s', w'))"
  shows "us_transfer s' = None"
proof -
  have "fires_left s \<le> max 1 (unat (tr_total tr))" using assms(2) by (simp add: fires_left_def)
  then have "fires_left s' = 0" using fires_left_run [OF assms(1,5,3)] assms(4) by simp
  then show ?thesis by (simp add: fires_left_zero)
qed

definition sending_server :: udp_server where
  "sending_server = send_file 5 [1, 2] ''a'' (sample_server ''f'')"

lemma sending_server_facts:
  "udp_ok sending_server"
  "us_transfer sending_server = Some \<lparr>tr_messageID = 5, tr_data = [1, 2], tr_total = 1, tr_index = 0\<rparr>"
proof -
  have "udp_ok (sample_server ''f'')" by (simp add: udp_ok_def sample_server_def)
  then show "udp_ok sending_server" unfolding sending_server_def by (rule send_file_ok)
  show "us_transfer sending_server = Some \<lparr>tr_messageID = 5, tr_data = [1, 2], tr_total = 1, tr_index = 0\<rparr>"
    by (simp add: sending_server_def send_file_def Let_def total_packets_of_def)
qed

lemma friend_fs_no_key: "\<exists>e. load_key friend_fs (us_uuid sending_server) = Inl e"
proof -
  have "case load_key friend_fs ''f'' of Inl _ \<Rightarrow> True | Inr _ \<Rightarrow> False" by code_simp
  moreover have "us_uuid sending_server = ''f''"
    by (simp add: sending_server_def send_file_def send_arr_def Let_def)
  ultimately show ?thesis by (auto split: sum.splits)
qed

theorem transfer_ends_witness:
  "\<exists>s' w'. udp_run plain_evp open_net [TransmitTimer, Stop] (sending_server, sample_world friend_fs)
     = (Inr (), (s', w')) \<and> us_transfer s' = None"
proof -
  obtain e where "load_key friend_fs (us_uuid sending_server) = Inl e" using friend_fs_no_key by blast
  moreover have "\<not> us_stopped sending_server"
    by (simp add: sending_server_def send_file_def send_arr_def Let_def)
  ultimately have "\<exists>s' w'. udp_run plain_evp open_net [TransmitTimer, Stop] (sending_server, sample_world friend_fs)
      = (Inr (), (s', w'))"
    using sending_server_facts(2)
    by (auto simp: transmit_fires_def send_file_packet_def encrypt_piece_def Let_def)
  then obtain s' w' where run: "udp_run plain_evp open_net [TransmitTimer, Stop]
      (sending_server, sample_world friend_fs) = (Inr (), (s', w'))" by blast
  have "us_transfer s' = None" by (rule transfer_ends [OF sending_server_facts _ _ run]) simp_all
  then show ?thesis using run by blast
qed

section \<open>Deafness\<close>

text \<open>What is left of the receiving side while nothing is being received.\<close>

definition deaf_same :: "udp_server \<Rightarrow> udp_server \<Rightarrow> bool" where
  "deaf_same s s' \<longleftrightarrow> \<not> us_receiving s' \<and> us_incoming s' = us_incoming s \<and> us_username s' = us_username s"

fun retargets :: "udp_event \<Rightarrow> bool" where
  "retargets (Retarget _ _ _) = True"
| "retargets _ = False"

lemma deaf_sends:
  assumes "\<not> us_receiving s"
  shows "deaf_same s (fst (send_text ev msg (s, w)))"
    and "deaf_same s (send_file mid data name s)"
    and "deaf_same s (fst (snd (send_ECC_public_key (s, w))))"
    and "deaf_same s (fst (snd (udp_punch (s, w))))"
    and "deaf_same s (fst (snd (transmit_fires ev (s, w))))"
    and "deaf_same s (stop s)"
  using assms
  by (auto simp: deaf_same_def send_text_def send_file_def send_ECC_public_key_def udp_punch_def stop_def
      transmit_fires_def send_file_packet_def Let_def split: prod.split sum.split option.split)

lemma deaf_step:
  assumes "\<not> us_receiving s" "\<not> retargets e"
  shows "deaf_same s (fst (snd (udp_step ev nt e (s, w))))"
proof -
  have "deaf_same s s" using assms(1) by (simp add: deaf_same_def)
  then show ?thesis using deaf_sends [OF assms(1)] assms by (cases e) auto
qed

lemma deaf_run:
  assumes "\<not> us_receiving s" "list_all (\<lambda>e. \<not> retargets e) es" "udp_run ev nt es (s, w) = (r, (s', w'))"
  shows "deaf_same s s'"
  using assms
proof (induction es arbitrary: s w)
  case Nil
  then show ?case by (simp add: deaf_same_def)
next
  case (Cons e es)
  obtain r1 s1 w1 where step: "udp_step ev nt e (s, w) = (r1, (s1, w1))" by (metis prod.exhaust)
  have d: "deaf_same s s1" using deaf_step [of s e ev nt w] Cons.prems step by simp
  then have "r1 = Inr () \<or> (\<exists>x. r1 = Inl (Throw x)) \<Longrightarrow> deaf_same s1 s'"
    using Cons.IH [of s1 w1] Cons.prems step by (auto simp: deaf_same_def)
  then show ?case using d step Cons.prems(3) by (auto simp: deaf_same_def split: sum.splits failure.splits)
qed

text \<open>
  C37: a connection whose receive once failed (a reset by the peer, say) is deaf from then on:
  whatever datagrams come, whatever timers fire and whatever the user sends, nothing is received
  any more, neither file data nor a new name nor texts; only \<open>change_target\<close> makes it listen again.
\<close>

theorem deaf_after_error:
  assumes "us_receiving s" "list_all (\<lambda>e. \<not> retargets e) es"
    and "udp_run ev nt (ReceiveError # es) (s, w) = (r, (s', w'))"
  shows "\<not> us_receiving s' \<and> us_incoming s' = us_incoming s \<and> us_username s' = us_username s"
proof -
  let ?s = "s\<lparr>us_receiving := False\<rparr>"
  have "udp_run ev nt es (?s, w) = (r, (s', w'))"
    using assms(1,3) by (simp add: handle_receive_def Let_def)
  then have "deaf_same ?s s'" using deaf_run [of ?s es] assms(2) by simp
  then show ?thesis by (simp add: deaf_same_def)
qed

theorem deaf_after_error_witness:
  "\<exists>r s' w'. udp_run plain_evp open_net [ReceiveError, Datagram (replicate 512 70), SendText ''hi'']
       (sample_server ''f'', sample_world friend_fs) = (r, (s', w'))
     \<and> \<not> us_receiving s' \<and> us_incoming s' = us_incoming (sample_server ''f'')
     \<and> us_username s' = us_username (sample_server ''f'')"
proof -
  obtain r s' w' where run: "udp_run plain_evp open_net [ReceiveError, Datagram (replicate 512 70),
      SendText ''hi''] (sample_server ''f'', sample_world friend_fs) = (r, (s', w'))" by (metis prod.exhaust)
  show ?thesis using deaf_after_error [OF _ _ run] run by (simp add: sample_server_def)
qed

end
