(* ===== verification/Process.thy ===== *)
theory Process
  imports UdpSteps CoordSteps HttpRequests
begin

text \<open>
  The client process as a whole: the browser's connections, the peer connections and the
  coordinating client over the one state they share, as one step relation. A step is one completion
  handler; handlers never interleave, since everything runs on one thread. The invariant says that
  the components do not get into each other's way.
\<close>

section \<open>Events and steps\<close>

record process =
  pr_coord :: coord
  pr_app :: app
  pr_requests :: "string list"        \<comment> \<open>what each browser connection has read so far\<close>

text \<open>The events of a peer connection that come from the runtime; the others are calls.\<close>

fun from_runtime :: "udp_event \<Rightarrow> bool" where
  "from_runtime (Datagram _) = True"
| "from_runtime ReceiveError = True"
| "from_runtime PunchTimer = True"
| "from_runtime TransmitTimer = True"
| "from_runtime _ = False"

text \<open>What the environment may change: the clock, its texts, the sources of randomness.\<close>

definition time_passes :: "world \<Rightarrow> world \<Rightarrow> bool" where
  "time_passes w w' \<longleftrightarrow> (\<exists>n d t e r. w' = w\<lparr>w_now := n, w_date := d, w_time := t, w_entropy := e, w_rands := r\<rparr>
     \<and> w_now w \<le> n)"

inductive process_step :: "http_env \<Rightarrow> process \<Rightarrow> process \<Rightarrow> bool" for he where
  accepted: "process_step he p (p\<lparr>pr_requests := pr_requests p @ [[]]\<rparr>)"
| browser: "i < length (pr_requests p) \<Longrightarrow>
     handle_read he err chunk (pr_requests p ! i) (pr_app p) = (Inr what, full, a) \<Longrightarrow>
     process_step he p (p\<lparr>pr_app := a, pr_requests := (if what = ReadMore then (pr_requests p)[i := full]
       else take i (pr_requests p) @ drop (Suc i) (pr_requests p))\<rparr>)"
| peer: "map_of (ap_conns (pr_app p)) u = Some (Some s) \<Longrightarrow> from_runtime e \<Longrightarrow>
     udp_step (he_evp he) (he_net he) e (s, ap_world (pr_app p)) = (Inr (), (s', w')) \<Longrightarrow>
     process_step he p (p\<lparr>pr_app := \<lparr>ap_world = w', ap_conns = AList.update u (Some s') (ap_conns (pr_app p))\<rparr>\<rparr>)"
| coordinating: "cc_pending (pr_coord p) = xs @ op # ys \<Longrightarrow>
     completes (he_evp he) (he_net he) (he_garbage he) op
       ((pr_coord p)\<lparr>cc_pending := xs @ ys\<rparr>, pr_app p) (Inr (), (c, a)) \<Longrightarrow>
     process_step he p (p\<lparr>pr_coord := c, pr_app := a\<rparr>)"
| time: "time_passes (ap_world (pr_app p)) w \<Longrightarrow>
     process_step he p (p\<lparr>pr_app := (pr_app p)\<lparr>ap_world := w\<rparr>\<rparr>)"

inductive_cases process_stepE: "process_step he p p'"

definition process_start :: "http_env \<Rightarrow> process \<Rightarrow> bool" where
  "process_start he p \<longleftrightarrow> (\<exists>ip w hs c a.
     start_up (he_evp he) (he_net he) (he_garbage he) ip True w = Inr (hs, (c, a))
     \<and> p = \<lparr>pr_coord = c, pr_app = a, pr_requests = hs_full_requests hs\<rparr>)"

section \<open>The invariant\<close>

definition filed :: "string \<Rightarrow> udp_server \<Rightarrow> bool" where
  "filed u s \<longleftrightarrow> us_uuid s = u \<and> udp_ok s"

text \<open>In the table an object is also alive: not stopped, and its punch timer is running.\<close>

definition life :: "udp_server \<Rightarrow> bool \<times> bool" where
  "life s = (us_stopped s, us_punching s)"

abbreviation awake :: "udp_server \<Rightarrow> bool" where
  "awake s \<equiv> life s = (False, True)"

definition fit :: "string \<Rightarrow> udp_server \<Rightarrow> bool" where
  "fit u s \<longleftrightarrow> filed u s \<and> awake s"

definition app_ok :: "app \<Rightarrow> bool" where
  "app_ok a \<longleftrightarrow> each_connection fit (ap_conns a)"

definition process_ok :: "process \<Rightarrow> bool" where
  "process_ok p \<longleftrightarrow> app_ok (pr_app p) \<and> one_op (pr_coord p)"

text \<open>No operation of a peer connection changes its identifier.\<close>

lemma uuid_kept_helpers [simp]:
  "us_uuid (send_arr d s) = us_uuid s" "us_uuid (start_receive s) = us_uuid s"
  "us_uuid (fill_buffer n s) = us_uuid s" "us_uuid (deliver d s) = us_uuid s" "us_uuid (stop s) = us_uuid s"
  by (simp_all add: send_arr_def start_receive_def fill_buffer_def deliver_def stop_def)

lemma uuid_kept:
  "us_uuid (fst (send_text ev msg (s, w))) = us_uuid s"
  "us_uuid (send_file mid data name s) = us_uuid s"
  "us_uuid (fst (snd (send_ECC_public_key (s, w)))) = us_uuid s"
  "us_uuid (fst (snd (send_encrypted_AES_key ev pub (s, w)))) = us_uuid s"
  "us_uuid (fst (snd (udp_punch (s, w)))) = us_uuid s"
  "us_uuid (fst (snd (transmit_fires ev (s, w)))) = us_uuid s"
  "us_uuid (snd (change_target nt i j ip s)) = us_uuid s"
  "us_uuid (fst (handle_text ev actual (s, w))) = us_uuid s"
  "us_uuid (fst (snd (handle_username buf (s, w)))) = us_uuid s"
  "us_uuid (fst (snd (handle_key ev actual (s, w)))) = us_uuid s"
  "us_uuid (fst (snd (handle_file_header MID actual (s, w)))) = us_uuid s"
  "us_uuid (fst (snd (handle_file_data ev MID PID actual (s, w)))) = us_uuid s"
  by (auto simp: send_text_def send_file_def send_ECC_public_key_def send_encrypted_AES_key_def udp_punch_def
      transmit_fires_def send_file_packet_def change_target_def handle_text_def handle_username_def
      handle_key_def handle_file_header_def handle_file_data_def Let_def
      split: prod.split sum.split option.split)

lemma uuid_kept_receive:
  "us_uuid (fst (snd (handle_receive ev error (s, w)))) = us_uuid s"
  "us_uuid (fst (snd (receive ev d (s, w)))) = us_uuid s"
proof -
  have d: "us_uuid (fst (snd (dispatch ev buf (s, w)))) = us_uuid s" for buf s w
    by (simp add: dispatch_def handle_control_def handle_public_key_def handle_file_def Let_def uuid_kept)
  have "us_uuid (fst (snd (case dispatch ev b (t, v) of
      (Inl e, c2) \<Rightarrow> (Inl e, c2) | (Inr _, c2) \<Rightarrow> (Inr (), listen_again c2)))) = us_uuid t" for b t v
    using d [of b t v] by (auto simp: listen_again_def split: prod.split sum.split)
  then show h: "us_uuid (fst (snd (handle_receive ev error (s, w)))) = us_uuid s" for error s
    by (simp add: handle_receive_def listen_again_def Let_def)
  show "us_uuid (fst (snd (receive ev d (s, w)))) = us_uuid s"
    by (simp add: receive_def h)
qed

lemma udp_step_uuid:
  assumes "udp_step ev nt e (s, w) = (r, (s', w'))"
  shows "us_uuid s' = us_uuid s"
proof -
  have "us_uuid (fst (snd (udp_step ev nt e (s, w)))) = us_uuid s"
    by (cases e) (auto simp: uuid_kept uuid_kept_receive split: prod.split, metis uuid_kept(7) snd_conv)
  then show ?thesis using assms by simp
qed

text \<open>Only the punch timer and \<open>stop\<close> touch the two flags.\<close>

lemma life_kept_helpers [simp]:
  "life (send_arr d s) = life s" "life (start_receive s) = life s" "life (fill_buffer n s) = life s"
  "life (deliver d s) = life s"
  by (simp_all add: life_def send_arr_def start_receive_def fill_buffer_def deliver_def)

lemma life_kept:
  "life (fst (send_text ev msg (s, w))) = life s"
  "life (send_file mid data name s) = life s"
  "life (fst (snd (send_ECC_public_key (s, w)))) = life s"
  "life (fst (snd (send_encrypted_AES_key ev pub (s, w)))) = life s"
  "life (fst (snd (transmit_fires ev (s, w)))) = life s"
  "life (snd (change_target nt i j ip s)) = life s"
  "life (fst (handle_text ev actual (s, w))) = life s"
  "life (fst (snd (handle_username buf (s, w)))) = life s"
  "life (fst (snd (handle_key ev actual (s, w)))) = life s"
  "life (fst (snd (handle_file_header MID actual (s, w)))) = life s"
  "life (fst (snd (handle_file_data ev MID PID actual (s, w)))) = life s"
  by (auto simp: life_def send_text_def send_file_def send_ECC_public_key_def send_encrypted_AES_key_def
      transmit_fires_def send_file_packet_def change_target_def handle_text_def handle_username_def
      handle_key_def handle_file_header_def handle_file_data_def send_arr_def start_receive_def fill_buffer_def Let_def
      split: prod.split sum.split option.split)

lemma life_kept_receive:
  "life (fst (snd (handle_receive ev error (s, w)))) = life s"
  "life (fst (snd (receive ev d (s, w)))) = life s"
proof -
  have d: "life (fst (snd (dispatch ev buf (s, w)))) = life s" for buf s w
    by (simp add: dispatch_def handle_control_def handle_public_key_def handle_file_def Let_def life_kept)
  have "life (fst (snd (case dispatch ev b (t, v) of
      (Inl e, c2) \<Rightarrow> (Inl e, c2) | (Inr _, c2) \<Rightarrow> (Inr (), listen_again c2)))) = life t" for b t v
    using d [of b t v] by (auto simp: listen_again_def split: prod.split sum.split)
  moreover have "life (s\<lparr>us_receiving := b\<rparr>) = life s" for s b by (simp add: life_def)
  ultimately show h: "life (fst (snd (handle_receive ev error (s, w)))) = life s" for error s
    by (simp add: handle_receive_def listen_again_def Let_def)
  show "life (fst (snd (receive ev d (s, w)))) = life s"
    by (simp add: receive_def h)
qed

lemma udp_step_awake:
  assumes "awake s" "from_runtime e" "udp_step ev nt e (s, w) = (Inr (), (s', w'))"
  shows "awake s'"
proof (cases e)
  case PunchTimer
  then show ?thesis using assms
    by (auto simp: life_def udp_punch_def send_arr_def Let_def split: sum.splits prod.splits)
next
  case (Datagram d)
  then have "life s' = life s" using life_kept_receive(2) [of ev d s w] assms(3) by (auto split: if_splits)
  then show ?thesis using assms(1) by simp
next
  case ReceiveError
  then have "life s' = life s" using life_kept_receive(1) [of ev True s w] assms(3) by (auto split: if_splits)
  then show ?thesis using assms(1) by simp
next
  case TransmitTimer
  then have "life s' = life s" using life_kept(5) [of ev s w] assms(3) by simp
  then show ?thesis using assms(1) by simp
qed (use assms(2) in simp_all)

lemma filed_step: "filed u s \<Longrightarrow> udp_step ev nt e (s, w) = (r, (s', w')) \<Longrightarrow> filed u s'"
  using udp_step_uuid udp_step_ok by (metis filed_def)

lemma fit_step:
  "fit u s \<Longrightarrow> from_runtime e \<Longrightarrow> udp_step ev nt e (s, w) = (Inr (), (s', w')) \<Longrightarrow> fit u s'"
  using filed_step udp_step_awake by (metis fit_def)

text \<open>The constructor, for buffers of the right size.\<close>

interpretation fit: opened_connections nt garbage "\<lambda>u s. length garbage = 512 \<longrightarrow> fit u s" for nt garbage
proof unfold_locales
  fix i j ip u w s w' assume n: "new_udp_server nt i j ip u garbage w = (Inr s, w')"
  have "us_uuid s = u" "awake s" using new_udp_server_fresh [OF n] by (simp_all add: fresh_connection_def life_def)
  then show "length garbage = 512 \<longrightarrow> fit u s" using new_udp_server_ok [OF n] by (simp add: fit_def filed_def)
qed

section \<open>Requests of the browser\<close>

lemma app_ok_world [simp]:
  "app_ok (set_world f a) = app_ok a" "app_ok (a\<lparr>ap_world := w\<rparr>) = app_ok a"
  by (simp_all add: app_ok_def set_world_def)

lemma app_ok_update:
  "app_ok a \<Longrightarrow> (\<And>s. c = Some s \<Longrightarrow> fit u s) \<Longrightarrow> app_ok (a\<lparr>ap_conns := AList.update u c (ap_conns a)\<rparr>)"
  "app_ok a \<Longrightarrow> (\<And>s. c = Some s \<Longrightarrow> fit u s) \<Longrightarrow> app_ok \<lparr>ap_world = w, ap_conns = AList.update u c (ap_conns a)\<rparr>"
  by (simp_all add: app_ok_def each_connection_update)

lemma app_ok_Some:
  "app_ok a \<Longrightarrow> fit u s \<Longrightarrow> app_ok (a\<lparr>ap_conns := AList.update u (Some s) (ap_conns a)\<rparr>)"
  "app_ok a \<Longrightarrow> fit u s \<Longrightarrow> app_ok \<lparr>ap_world = w, ap_conns = AList.update u (Some s) (ap_conns a)\<rparr>"
  by (auto intro!: app_ok_update)

lemma app_okD: "app_ok a \<Longrightarrow> map_of (ap_conns a) u = Some (Some s) \<Longrightarrow> fit u s"
  unfolding app_ok_def by (rule each_connectionD)

lemma fit_calls:
  assumes "fit u s"
  shows "fit u (fst (send_text ev msg (s, w)))" "fit u (send_file mid data name s)"
    and "fit u (fst (snd (send_ECC_public_key (s, w))))" "fit u (snd (change_target nt i j ip s))"
  using assms uuid_kept life_kept
  by (auto simp: fit_def filed_def intro: send_text_ok send_file_ok)
    (metis send_ECC_public_key_ok change_target_ok prod.collapse)+

lemma with_connection_ok:
  assumes "app_ok a" "\<And>s w. fit u s \<Longrightarrow> fit u (fst (f (s, w)))"
  shows "app_ok (with_connection u f a)"
proof (cases "\<exists>s. map_of (ap_conns a) u = Some (Some s)")
  case True
  then obtain s where s: "map_of (ap_conns a) u = Some (Some s)" by blast
  obtain s1 w1 where f: "f (s, ap_world a) = (s1, w1)" by (metis prod.exhaust)
  have "fit u s1" using assms(2) [OF app_okD [OF assms(1) s], of "ap_world a"] f by simp
  then show ?thesis using s f assms(1) by (simp add: with_connection_def app_ok_Some)
qed (use assms(1) in \<open>auto simp: with_connection_def split: option.split\<close>)

lemma send_message_ok: "app_ok a \<Longrightarrow> app_ok (snd (send_message he request a))"
  by (auto simp: send_message_def Let_def split: sum.split intro!: with_connection_ok fit_calls)

lemma exchange_keys_ok:
  assumes "app_ok a"
  shows "app_ok (snd (exchange_keys request a))"
proof -
  have "app_ok (snd (case send_ECC_public_key (s, w) of (r, (s1, w1)) \<Rightarrow> (bind_res r (\<lambda>_. Inr ok_response),
      \<lparr>ap_world = w1, ap_conns = AList.update u (Some s1) (ap_conns a)\<rparr>)))"
    if "map_of (ap_conns a) u = Some (Some s)" for u s w
    using fit_calls(3) [OF app_okD [OF assms that], of w] assms
    by (auto simp: app_ok_Some split: prod.split)
  then show ?thesis using assms by (simp add: exchange_keys_def split: sum.split option.split)
qed

lemma add_friend_ok: "app_ok a \<Longrightarrow> app_ok (snd (add_friend request a))"
  by (auto simp: add_friend_def Let_def split: sum.split intro!: app_ok_update)

lemma remove_friend_ok: "app_ok a \<Longrightarrow> app_ok (snd (remove_friend request a))"
  by (auto simp: remove_friend_def Let_def app_ok_def each_connection_def set_world_def AList.delete_eq
      distinct_map_filter split: sum.split)

lemma upload_pfp_ok: "app_ok a \<Longrightarrow> app_ok (snd (upload_pfp request a))"
  by (auto simp: upload_pfp_def Let_def app_ok_def each_connection_def set_world_def comp_def case_prod_beta
      fit_calls split: prod.split)

lemma upload_file_ok: "app_ok a \<Longrightarrow> app_ok (snd (upload_file request a))"
  by (auto simp: upload_file_def Let_def split: sum.split prod.split intro!: with_connection_ok fit_calls)

lemma upload_name_ok: "app_ok a \<Longrightarrow> app_ok (snd (upload_name request a))"
  by (simp add: upload_name_def split: sum.split)

lemma set_connection_ok: "app_ok a \<Longrightarrow> app_ok (snd (set_connection request a))"
  by (simp add: set_connection_def Let_def split: sum.split)

lemma select_user_ok: "app_ok a \<Longrightarrow> app_ok (snd (select_user request a))"
  by (simp add: select_user_def split: sum.split)

lemma opened_ok:
  "app_ok a \<Longrightarrow> new_udp_server nt i j ip u garbage w = (Inr s, w1) \<Longrightarrow> length garbage = 512 \<Longrightarrow>
     app_ok \<lparr>ap_world = w2, ap_conns = AList.update u (Some s) (ap_conns a)\<rparr>"
  using fit.new_fine [of nt i j ip u garbage w s w1] by (simp add: app_ok_Some)

lemma retargeted_ok:
  "app_ok a \<Longrightarrow> map_of (ap_conns a) u = Some (Some s) \<Longrightarrow> change_target nt i j ip s = (r, s1) \<Longrightarrow>
     app_ok (a\<lparr>ap_conns := AList.update u (Some s1) (ap_conns a)\<rparr>)"
  using fit_calls(4) [OF app_okD, of a u s nt i j ip] by (simp add: app_ok_Some)

lemma apply_ip_data_ok:
  "app_ok a \<Longrightarrow> length (he_garbage he) = 512 \<Longrightarrow> app_ok (snd (apply_ip_data he u ip i j a))"
  by (simp add: apply_ip_data_def opened_ok retargeted_ok split: option.split sum.split prod.split failure.split)

lemma update_ip_data_ok:
  "app_ok a \<Longrightarrow> length (he_garbage he) = 512 \<Longrightarrow> app_ok (snd (update_ip_data he request a))"
  by (auto simp: update_ip_data_def split: sum.split prod.split intro!: apply_ip_data_ok)

lemma serve_ok:
  assumes "app_ok a" "length (he_garbage he) = 512"
  shows "app_ok (snd (serve he r request a))"
  using assms
  by (cases r) (simp_all add: serve_def Let_def select_user_ok exchange_keys_ok add_friend_ok remove_friend_ok
      send_message_ok upload_pfp_ok upload_file_ok upload_name_ok set_connection_ok update_ip_data_ok)

lemma handle_read_ok:
  assumes "app_ok a" "length (he_garbage he) = 512" "handle_read he err chunk full a = (r, full1, a1)"
  shows "app_ok a1"
proof -
  have "app_ok (snd (respond he q a))" for q
    using assms(1,2) serve_ok [OF assms(1,2)] by (simp add: respond_def split: prod.split) (metis snd_conv)
  then show ?thesis
    using assms(1,3) by (auto simp: handle_read_def Let_def split: if_splits sum.splits prod.splits) (metis snd_conv)
qed

section \<open>Completions of the coordinating client\<close>

text \<open>Everything but the application of an answer leaves the connections alone.\<close>

lemma apply_peer_ok:
  "app_ok a \<Longrightarrow> length garbage = 512 \<Longrightarrow> app_ok (snd (apply_peer nt garbage p a))"
proof -
  assume a: "app_ok a" and g: "length garbage = 512"
  have conns: "ap_conns (set_world f b) = ap_conns b" for f b by (simp add: set_world_def)
  have "app_ok (set_world f (set_world f' a))" for f f' using a by simp
  from opened_ok [OF this _ g] retargeted_ok [OF this] show ?thesis
    using a by (simp add: apply_peer_def Let_def conns split: option.split sum.split prod.split)
qed

lemma apply_peers_ok:
  "app_ok a \<Longrightarrow> length garbage = 512 \<Longrightarrow> app_ok (snd (apply_peers nt garbage ps a))"
proof (induction ps arbitrary: a)
  case (Cons p ps)
  have "app_ok (snd (apply_peer nt garbage p a))" by (rule apply_peer_ok [OF Cons.prems])
  then show ?case using Cons.IH Cons.prems(2) by (auto split: prod.split sum.split) 
qed simp

lemma schedule_retry_ok [simp]: "snd (schedule_retry n (c, a)) = a"
  using schedule_retry_snd [of n "(c, a)"] by simp

lemma reconnect_ok [simp]: "snd (reconnect (c, a)) = a"
  by (simp add: reconnect_def)

lemma do_connect_app [simp]: "snd (do_connect (c, a)) = a"
  by (simp add: do_connect_def)

lemma do_register_app [simp]: "snd (snd (do_register (c, a))) = a"
  by (simp add: do_register_def split: sum.split)

lemma do_routine_app: "app_ok a \<Longrightarrow> app_ok (snd (snd (do_routine ev (c, a))))"
  by (simp add: do_routine_def Let_def split: sum.split prod.split)

lemma register_response_app: "app_ok a \<Longrightarrow> app_ok (snd (snd (handle_register_response ev payload (c, a))))"
  by (simp add: handle_register_response_def Let_def do_routine_app split: sum.split failure.split)

lemma routine_response_app:
  assumes "app_ok a" "length garbage = 512"
  shows "app_ok (snd (snd (handle_routine_response ev nt garbage payload (c, a))))"
proof -
  have "app_ok (snd (apply_peers nt garbage ps (set_world f a)))" for ps f
    using assms by (intro apply_peers_ok) simp_all
  then have "app_ok (snd (snd (case apply_peers nt garbage ps (set_world f a) of
      (Inl e, a2) \<Rightarrow> (Inl e, (c, a2)) | (Inr _, a2) \<Rightarrow> (Inr (), schedule_retry 2 (c, a2)))))" for ps f
    by (auto split: prod.split sum.split) (metis snd_conv)+
  then show ?thesis using assms(1) by (simp add: handle_routine_response_def Let_def split: sum.split failure.split)
qed

lemma completes_ok:
  "completes ev nt garbage op ca res \<Longrightarrow> app_ok (snd ca) \<Longrightarrow> length garbage = 512 \<Longrightarrow> app_ok (snd (snd res))"
proof (induction rule: completes.induct)
  case (connect ca ok ip)
  then show ?case by (cases ca) (simp add: connected_def do_routine_app Let_def)
next
  case (wrote f k ca ok)
  then show ?case by (cases ca) (simp add: frame_written_def)
next
  case (header hdr k ca ok)
  then show ?case by (cases ca) (simp add: header_read_def)
next
  case (payload data n k ca ok)
  then show ?case
    by (cases ca) (simp add: payload_read_def register_response_app routine_response_app split: continuation.split)
next
  case (timer secs ca)
  then show ?case by (cases ca) (simp add: timer_fires_def do_routine_app)
qed

section \<open>The invariant holds\<close>

lemma process_step_ok:
  assumes "process_step he p p'" "length (he_garbage he) = 512" "process_ok p"
  shows "process_ok p'"
  using assms
proof (induction rule: process_step.induct)
  case (browser i p err chunk what full a)
  then show ?case using handle_read_ok by (auto simp: process_ok_def)
next
  case (peer p u s e s' w')
  then have "fit u s'" using fit_step app_okD by (metis process_ok_def)
  then show ?case using peer.prems by (simp add: process_ok_def app_ok_Some)
next
  case (coordinating p xs op ys c a)
  have "app_ok a" using completes_ok [OF coordinating.hyps(2)] coordinating.prems by (simp add: process_ok_def)
  moreover have "coord_step (he_evp he) (he_net he) (he_garbage he) (pr_coord p, pr_app p) (c, a)"
    by (rule coord_step.complete [OF coordinating.hyps])
  then have "one_op c" using coord_step_one coordinating.prems(2) by (fastforce simp: process_ok_def)
  ultimately show ?case by (simp add: process_ok_def)
next
  case (time p w)
  then show ?case by (simp add: process_ok_def)
qed (simp_all add: process_ok_def)

lemma process_start_ok:
  assumes "process_start he p" "length (he_garbage he) = 512"
  shows "process_ok p"
proof -
  obtain ip w hs c a where s: "start_up (he_evp he) (he_net he) (he_garbage he) ip True w = Inr (hs, (c, a))"
    "p = \<lparr>pr_coord = c, pr_app = a, pr_requests = hs_full_requests hs\<rparr>"
    using assms(1) unfolding process_start_def by blast
  then obtain w1 where ca: "start_client (new_coord (load_connections (he_net he) (he_garbage he) w1)) = (c, a)"
    by (auto simp: start_up_def bind_res_Inr_iff Let_def split: prod.splits if_splits)
  have "app_ok (load_connections (he_net he) (he_garbage he) w1)"
    using fit.loaded_fine [where nt = "he_net he" and garbage = "he_garbage he" and w = w1] assms(2) by (simp add: app_ok_def)
  then have "app_ok (snd (start_client (new_coord (load_connections (he_net he) (he_garbage he) w1))))"
    by (simp add: start_client_def new_coord_def Let_def)
  then have "app_ok a" using ca by (metis snd_conv)
  moreover have "coord_start (c, a)" unfolding coord_start_def by (rule exI) (rule ca [symmetric])
  then have "one_op c" using coord_start_one by fastforce
  ultimately show ?thesis using s(2) by (simp add: process_ok_def)
qed

interpretation program: machine "process_start he" "process_step he"
    "\<lambda>p. length (he_garbage he) = 512 \<longrightarrow> process_ok p" for he
  by unfold_locales (auto intro: process_start_ok process_step_ok)

text \<open>
  C15: the invariant of the whole client. From start-up on and through every sequence of browser
  requests, datagrams, errors, timers and answers of the coordinating server, in any order: the
  table of connections has one entry per identifier, each object in it is the one for that
  identifier and satisfies the invariant of a connection, and the coordinating client has exactly
  one operation pending.
\<close>

theorem client_invariant:
  assumes "process_start he p" "(process_step he)\<^sup>*\<^sup>* p p'" "length (he_garbage he) = 512"
  shows "distinct (map fst (ap_conns (pr_app p')))
    \<and> (\<forall>u s. map_of (ap_conns (pr_app p')) u = Some (Some s) \<longrightarrow> us_uuid s = u \<and> udp_ok s)
    \<and> (\<exists>op. cc_pending (pr_coord p') = [op])"
  using program.reached_good [OF assms(1,2)] assms(3)
  by (auto simp: process_ok_def app_ok_def each_connection_def fit_def filed_def one_op_def dest!: map_of_SomeD)

definition settled_fs :: filesys where
  "settled_fs = \<lparr>fs_files = ([''user_settings'', ''server.txt''], ''off'') # fs_files sample_keys,
     fs_dirs = fs_dirs sample_keys\<rparr>"

lemma settled_starts: "\<exists>p. process_start browsing_env p"
proof -
  have e: "fs_exists settled_fs ecc_file" "fs_read settled_fs ecc_file = Some (string_of (replicate 32 9))"
    "resolve server_state_file = [''user_settings'', ''server.txt'']" "ecc_pub_file = [''user_settings'', ''ECC_PUB'']"
    by (simp_all add: settled_fs_def sample_keys_def fs_exists_def fs_read_def is_directory_def ecc_file_def
        ecc_pub_file_def server_state_file_def resolve_def resolve_step_def is_sep_def)
  have k: "generate_or_load_ecc_keys plain_evp settled_fs plain_entropy
      = (Inr (fs_write settled_fs ecc_pub_file (string_of (replicate 32 9))), plain_entropy)"
    using e by (simp add: generate_or_load_ecc_keys_def plain_evp_def)
  have "fs_read (fs_write settled_fs ecc_pub_file (string_of (replicate 32 9))) (resolve server_state_file) = Some ''off''"
    unfolding e by (simp add: fs_read_simps) (simp add: settled_fs_def sample_keys_def fs_read_def is_directory_def)
  then have r: "read_file (fs_write settled_fs ecc_pub_file (string_of (replicate 32 9))) server_state_file = Inr ''off''"
    by (simp add: read_file_def)
  obtain hs c a where "start_up plain_evp (he_net browsing_env) (he_garbage browsing_env) None True (sample_world settled_fs)
      = Inr (hs, (c, a))"
    using k r by (simp add: start_up_def Let_def) (metis prod.exhaust)
  then show ?thesis unfolding process_start_def by fastforce
qed

theorem client_invariant_witness:
  "\<exists>p p'. process_start browsing_env p \<and> process_step browsing_env p p'
     \<and> distinct (map fst (ap_conns (pr_app p'))) \<and> (\<exists>op. cc_pending (pr_coord p') = [op])"
proof -
  obtain p where p: "process_start browsing_env p" using settled_starts by blast
  have step: "process_step browsing_env p (p\<lparr>pr_requests := pr_requests p @ [[]]\<rparr>)" by (rule process_step.accepted)
  have "length (he_garbage browsing_env) = 512" by (simp add: browsing_env_def)
  from client_invariant [OF p r_into_rtranclp [where r = "process_step browsing_env", OF step] this] show ?thesis
    using p step by blast
qed

end
