(* ===== verification/Rendezvous.thy ===== *)
theory Rendezvous
  imports Coordination
begin

text \<open>
  Two clients and the coordinating server: a whole round trip of the polling protocol as one
  function, and what it is for. Two friends that poll the server in turn end with connections aimed
  at each other.
\<close>

section \<open>One round trip\<close>

text \<open>
  The retry timer of a client expires and everything that follows until it waits again, with a
  network that delivers what is sent and nothing else going on in between. \<open>None\<close>: the round trip
  does not come to an end that way.
\<close>

definition answer_read ::
  "evp \<Rightarrow> net \<Rightarrow> byte list \<Rightarrow> byte list \<Rightarrow> continuation \<Rightarrow> coordinating \<Rightarrow> coordinating option" where
  "answer_read ev nt garbage g k ca = (case ca of (c, a) \<Rightarrow>
     case header_read True (take 5 g) k (c\<lparr>cc_pending := []\<rparr>, a) of (c1, a1) \<Rightarrow>
       (case cc_pending c1 of
          [ReadingPayload n k'] \<Rightarrow>
            if n = length (drop 5 g) then
              (case payload_read ev nt garbage True (drop 5 g) k' (c1\<lparr>cc_pending := []\<rparr>, a1) of
                 (Inr _, ca2) \<Rightarrow> Some ca2 | (Inl _, _) \<Rightarrow> None)
            else None
        | _ \<Rightarrow> None))"

text \<open>The length of the payload a session waits for.\<close>

definition awaited :: "session \<Rightarrow> nat option" where
  "awaited s = (case ss_pending s of ReadPayload _ n \<Rightarrow> Some n | _ \<Rightarrow> None)"

definition poll ::
  "evp \<Rightarrow> net \<Rightarrow> byte list \<Rightarrow> coordinating \<Rightarrow> session \<Rightarrow> intro \<Rightarrow> (coordinating \<times> session \<times> intro) option" where
  "poll ev nt garbage ca s sv = (case ca of (c, a) \<Rightarrow>
     case timer_fires ev (c\<lparr>cc_pending := []\<rparr>, a) of
       (Inl _, _) \<Rightarrow> None
     | (Inr _, (c1, a1)) \<Rightarrow>
         (case cc_pending c1 of
            [Writing f k] \<Rightarrow>
              if length f < 5 \<or> awaited (header_arrives (take 5 f) s) \<noteq> Some (length (drop 5 f)) then None else
              (case payload_arrives ev (drop 5 f) (header_arrives (take 5 f) s) sv of
                 (Inl _, _) \<Rightarrow> None
               | (Inr _, s1, sv1) \<Rightarrow>
                   (case ss_pending s1 of
                      WriteFrame g \<Rightarrow>
                        if length g < 5 then None else
                        (case answer_read ev nt garbage g k (frame_written True k (c1\<lparr>cc_pending := []\<rparr>, a1)) of
                           None \<Rightarrow> None | Some ca2 \<Rightarrow> Some (ca2, write_done s1, sv1))
                    | _ \<Rightarrow> None))
          | _ \<Rightarrow> None))"

text \<open>A client about to poll, a session that waits for a request, a server that knows the client.\<close>

definition may_poll :: "coordinating \<Rightarrow> session \<Rightarrow> intro \<Rightarrow> bool" where
  "may_poll ca s sv \<longleftrightarrow> (case ca of (c, a) \<Rightarrow>
     cc_open c \<and> server_on a \<and> entropy_ok (w_entropy (ap_world a))
     \<and> length (cc_uuid c) = 36 \<and> length (cc_aes_key c) = 32 \<and> client_key sv (cc_uuid c) = Inr (cc_aes_key c)
     \<and> length (cc_cached_ip c) \<le> 255 \<and> length (busy_ports a) \<le> 100
     \<and> length (wanted_friends a) \<le> 32 \<and> (\<forall>t \<in> set (wanted_friends a). length t = 36)
     \<and> length (ss_remote_ip s) \<le> 255 \<and> ss_pending s = ReadHeader)"

lemma poll_result:
  assumes "evp_laws ev" "entropy_ok (sv_entropy sv)" "addresses_ok (active_sessions sv)" "may_poll (c, a) s sv"
    and "sessions = AList.update (cc_uuid c) (polled_info c a s sv) (active_sessions sv)"
  obtains e1 e2 where "poll ev nt garbage (c, a) s sv =
     (case apply_peers nt garbage (due_peers c a s sessions)
         (set_world (\<lambda>w. w\<lparr>g_my_local_ip := cc_cached_ip c, w_entropy := e1, g_found_peers := []\<rparr>) a) of
        (Inl _, _) \<Rightarrow> None
      | (Inr _, a2) \<Rightarrow> Some (schedule_retry 2 (c\<lparr>cc_pending := []\<rparr>, a2),
          s\<lparr>ss_associated_uuid := cc_uuid c\<rparr>, sv\<lparr>active_sessions := sessions, sv_entropy := e2\<rparr>))"
    "entropy_ok e1" "entropy_ok e2" "addresses_ok sessions"
proof -
  let ?c = "c\<lparr>cc_pending := []\<rparr>"
  note m = assms(4) [unfolded may_poll_def prod.case]
  have same: "polled_info ?c a s sv = polled_info c a s sv" "due_peers ?c a s = due_peers c a s"
    by (simp_all add: polled_info_def due_peers_def fun_eq_iff)
  obtain f g e1 e2 where core:
    "do_routine ev (?c, a) = (Inr (), (start_op (Writing f AfterRoutine) ?c,
       set_world (\<lambda>w. w\<lparr>g_my_local_ip := cc_cached_ip ?c, w_entropy := e1\<rparr>) a))"
    "payload_arrives ev (drop 5 f) (header_arrives (take 5 f) s) sv = (Inr (),
       s\<lparr>ss_associated_uuid := cc_uuid ?c, ss_pending := WriteFrame g\<rparr>,
       sv\<lparr>active_sessions := sessions, sv_entropy := e2\<rparr>)"
    "\<And>c' a'. header_read True (take 5 g) AfterRoutine (c', a')
       = (start_op (ReadingPayload (length (drop 5 g)) AfterRoutine) c', a')"
    "\<And>c' a'. cc_aes_key c' = cc_aes_key ?c \<Longrightarrow> handle_routine_response ev nt garbage (drop 5 g) (c', a') =
       (case apply_peers nt garbage (due_peers ?c a s sessions) (set_world (\<lambda>w. w\<lparr>g_found_peers := []\<rparr>) a') of
          (Inl e, a2) \<Rightarrow> (Inl e, (c', a2)) | (Inr _, a2) \<Rightarrow> (Inr (), schedule_retry 2 (c', a2)))"
    "entropy_ok e1" "entropy_ok e2" "5 \<le> length f" "5 \<le> length g" "addresses_ok sessions"
    "header_arrives (take 5 f) s = s\<lparr>ss_pending := ReadPayload 0x03 (length (drop 5 f))\<rparr>"
    by (rule routine_core [of ev a sv ?c s sessions nt garbage]) (use assms(1-3,5) m in \<open>simp_all add: same\<close>)
  have wait: "awaited (s\<lparr>ss_pending := ReadPayload 0x03 n\<rparr>) = Some n" for n by (simp add: awaited_def)
  have "timer_fires ev (?c, a) = do_routine ev (?c, a)"
    using m by (simp add: timer_fires_def)
  then have "poll ev nt garbage (c, a) s sv =
     (case apply_peers nt garbage (due_peers c a s sessions)
         (set_world (\<lambda>w. w\<lparr>g_my_local_ip := cc_cached_ip c, w_entropy := e1, g_found_peers := []\<rparr>) a) of
        (Inl _, _) \<Rightarrow> None
      | (Inr _, a2) \<Rightarrow> Some (schedule_retry 2 (?c, a2),
          s\<lparr>ss_associated_uuid := cc_uuid c\<rparr>, sv\<lparr>active_sessions := sessions, sv_entropy := e2\<rparr>))"
    using core m wait
    by (simp add: poll_def answer_read_def start_op_def frame_written_def payload_read_def write_done_def
        set_world_def same split: prod.split sum.split)
  then show thesis by (rule that [OF _ core(5,6,9)])
qed

text \<open>The round trip is a sequence of steps of the two state machines.\<close>

lemma complete_single:
  "cc_pending c = [op] \<Longrightarrow> completes ev nt garbage op (c\<lparr>cc_pending := []\<rparr>, a) (Inr (), ca') \<Longrightarrow>
     coord_step ev nt garbage (c, a) ca'"
  using coord_step.complete [of c "[]" op "[]"] by simp


lemma answer_read_steps:
  assumes "cc_pending c = [ReadingHeader k]" "5 \<le> length g" "answer_read ev nt garbage g k (c, a) = Some ca'"
  shows "(coord_step ev nt garbage)\<^sup>*\<^sup>* (c, a) ca'"
proof -
  obtain c1 where h: "header_read True (take 5 g) k (c\<lparr>cc_pending := []\<rparr>, a) = (c1, a)"
    by (simp add: header_read_def)
  then obtain n k' x where p: "cc_pending c1 = [ReadingPayload n k']" "n = length (drop 5 g)"
    "payload_read ev nt garbage True (drop 5 g) k' (c1\<lparr>cc_pending := []\<rparr>, a) = (Inr x, ca')"
    using assms(3) by (auto simp: answer_read_def split: list.splits operation.splits if_splits prod.splits sum.splits)
  have "length (take 5 g) = 5" using assms(2) by simp
  from complete_single [OF assms(1) completes.header [OF this, of ev nt garbage k "(c\<lparr>cc_pending := []\<rparr>, a)" True]]
  have "coord_step ev nt garbage (c, a) (c1, a)" unfolding h by simp
  moreover have "coord_step ev nt garbage (c1, a) ca'"
    using complete_single [OF p(1) , of ev nt garbage a ca'] completes.payload [of "drop 5 g" n ev nt garbage k'] p(2,3)
    by (metis (full_types) old.unit.exhaust)
  ultimately show ?thesis by (meson r_into_rtranclp rtranclp_trans)
qed

lemma poll_steps:
  assumes "cc_pending c = [Waiting n]" "ss_pending s = ReadHeader" "poll ev nt garbage (c, a) s sv = Some (ca', s', sv')"
  shows "(coord_step ev nt garbage)\<^sup>*\<^sup>* (c, a) ca' \<and> (intro_step ev)\<^sup>*\<^sup>* (sv, [s]) (sv', [s'])"
proof -
  obtain c1 a1 f k s1 g x y where p:
    "timer_fires ev (c\<lparr>cc_pending := []\<rparr>, a) = (Inr x, (c1, a1))" "cc_pending c1 = [Writing f k]"
    "5 \<le> length f" "awaited (header_arrives (take 5 f) s) = Some (length (drop 5 f))"
    "payload_arrives ev (drop 5 f) (header_arrives (take 5 f) s) sv = (Inr y, s1, sv')"
    "ss_pending s1 = WriteFrame g" "5 \<le> length g" "s' = write_done s1"
    "answer_read ev nt garbage g k (frame_written True k (c1\<lparr>cc_pending := []\<rparr>, a1)) = Some ca'"
    using assms(3) by (auto simp: poll_def split: prod.splits sum.splits list.splits operation.splits
        if_splits pending.splits option.splits)
  let ?h = "header_arrives (take 5 f) s"
  obtain t where h: "ss_pending ?h = ReadPayload t (length (drop 5 f))"
    using p(4) by (auto simp: awaited_def split: pending.splits)
  have five: "length (take 5 f) = 5" using p(3) by simp
  have "intro_step ev (sv, [s]) (sv, [?h])"
    using intro_step.header [of 0 "[s]" "take 5 f" ev sv] assms(2) five by simp
  moreover have "intro_step ev (sv, [?h]) (sv', [s1])"
    using intro_step.payload [of 0 "[?h]" t _ "drop 5 f" ev sv s1 sv'] h p(5) by simp
  moreover have "intro_step ev (sv', [s1]) (sv', [s'])"
    using intro_step.written [of 0 "[s1]" g ev sv'] p(6,8) by simp
  moreover have "coord_step ev nt garbage (c, a) (c1, a1)"
    using complete_single [OF assms(1), of ev nt garbage a "(c1, a1)"] completes.timer [of ev nt garbage n] p(1)
    by (metis (full_types) old.unit.exhaust)
  moreover have "coord_step ev nt garbage (c1, a1) (start_op (ReadingHeader k) (c1\<lparr>cc_pending := []\<rparr>), a1)"
    using complete_single [OF p(2), of ev nt garbage a1] completes.wrote [of ev nt garbage f k "(c1\<lparr>cc_pending := []\<rparr>, a1)" True]
    by (simp add: frame_written_def)
  moreover have "(coord_step ev nt garbage)\<^sup>*\<^sup>* (start_op (ReadingHeader k) (c1\<lparr>cc_pending := []\<rparr>), a1) ca'"
    using p(7,9) by (intro answer_read_steps [of _ k g]) (simp_all add: start_op_def frame_written_def)
  ultimately show ?thesis by (meson converse_rtranclp_into_rtranclp rtranclp.rtrancl_refl)
qed

section \<open>Redirecting a connection\<close>

definition aimed :: "u16 \<Rightarrow> string \<times> nat \<Rightarrow> udp_server \<Rightarrow> udp_server" where
  "aimed port target s = start_receive (fill_buffer 64
     (s\<lparr>us_receiving := False, us_port := port, us_open := True, us_target := target\<rparr>))"

lemma aimed_sel [simp]:
  "us_port (aimed port target s) = port" "us_target (aimed port target s) = target"
  "us_open (aimed port target s)" "us_stopped (aimed port target s) = us_stopped s"
  "us_receiving (aimed port target s) = (\<not> us_stopped s)"
  by (simp_all add: aimed_def start_receive_def fill_buffer_def)

lemma change_target_aims:
  "net_bind nt port \<Longrightarrow> net_resolve nt ip (show_int j) = Some t \<Longrightarrow> i = int (unat port) \<Longrightarrow>
     change_target nt i j ip s = (Inr (), aimed port t s)"
  by (simp add: change_target_def aimed_def Let_def)

text \<open>What an introduction changes besides the connection: the file with the friend's address.\<close>

definition introduced :: "app \<Rightarrow> string \<Rightarrow> app \<Rightarrow> bool" where
  "introduced a b a' \<longleftrightarrow> (\<exists>t. app_fs a' = fs_write (app_fs a) (ip_io_file b) t)
     \<and> w_now (ap_world a') = w_now (ap_world a)
     \<and> g_last_packets_times (ap_world a') = g_last_packets_times (ap_world a)"

lemma apply_peer_aims:
  assumes "map_of (ap_conns a) (pi_uuid p) = Some (Some s)" "net_bind nt (pi_iport p)"
    and "net_resolve nt (pi_ip p) (show_int (int (unat (pi_oport p)))) = Some t"
  shows "\<exists>t'. apply_peer nt garbage p a = (Inr (), a\<lparr>
      ap_world := (ap_world a)\<lparr>g_found_peers := g_found_peers (ap_world a) @ [p],
        w_fs := fs_write (app_fs a) (ip_io_file (pi_uuid p)) t'\<rparr>,
      ap_conns := AList.update (pi_uuid p) (Some (aimed (pi_iport p) t s)) (ap_conns a)\<rparr>)"
  using assms change_target_aims [OF assms(2,3) refl]
  by (auto simp: apply_peer_def set_world_def app_fs_def Let_def)

lemma map_filter_none: "(\<And>z. z \<in> set xs \<Longrightarrow> f z = None) \<Longrightarrow> List.map_filter f xs = []"
  by (induction xs) (simp_all add: List.map_filter_simps)

lemma map_filter_single:
  "distinct xs \<Longrightarrow> x \<in> set xs \<Longrightarrow> f x = Some y \<Longrightarrow> (\<And>z. z \<in> set xs \<Longrightarrow> z \<noteq> x \<Longrightarrow> f z = None) \<Longrightarrow>
     List.map_filter f xs = [y]"
proof (induction xs)
  case (Cons z xs)
  show ?case
  proof (cases "z = x")
    case True
    then have "\<And>v. v \<in> set xs \<Longrightarrow> f v = None" using Cons.prems by auto
    then show ?thesis using map_filter_none [of xs f] True Cons.prems(3) by (simp add: List.map_filter_simps)
  next
    case False
    then have "f z = None" using Cons.prems by simp
    then show ?thesis using Cons False by (simp add: List.map_filter_simps)
  qed
qed simp

lemma no_match: "map_of sessions t = None \<Longrightarrow> match_target sessions u ip unavail t = None"
  by (simp add: match_target_def)

section \<open>What is due\<close>

lemma due_none:
  "(\<And>t. t \<in> set (wanted_friends a) \<Longrightarrow> map_of sessions t = None) \<Longrightarrow> due_peers c a s sessions = []"
  unfolding due_peers_def matches_def by (simp add: map_filter_none no_match)

lemma due_one:
  assumes "distinct (wanted_friends a)" "b \<in> set (wanted_friends a)" "map_of sessions b = Some ib"
    and "cc_uuid c \<in> set (si_desired_uuids ib)" "si_uuid ib = b"
    and "find_available_ports (set (busy_ports a)) (si_unavailable_ports ib) = (p, q)"
    and "\<And>t. t \<in> set (wanted_friends a) \<Longrightarrow> t \<noteq> b \<Longrightarrow> map_of sessions t = None"
  shows "due_peers c a s sessions = [\<lparr>pi_uuid = b,
    pi_ip = (if ss_remote_ip s = si_public_ip ib then si_local_ip ib else si_public_ip ib),
    pi_iport = (if string_less (cc_uuid c) b then q else p), pi_oport = (if string_less (cc_uuid c) b then p else q)\<rparr>]"
  unfolding due_peers_def matches_def
  using map_filter_single [where f = "match_target sessions (cc_uuid c) (ss_remote_ip s) (set (busy_ports a))",
      OF assms(1,2) match_target_entry [OF assms(3-6), of "ss_remote_ip s"]] assms(7) no_match
  by (simp add: peer_of_def)

text \<open>The clients' side of a round trip that introduces nobody, and of one that introduces a friend.\<close>

definition waits_again :: "coord \<Rightarrow> coord" where
  "waits_again c = c\<lparr>cc_pending := [Waiting 2]\<rparr>"

lemma waits_again_sel [simp]:
  "cc_uuid (waits_again c) = cc_uuid c" "cc_aes_key (waits_again c) = cc_aes_key c"
  "cc_cached_ip (waits_again c) = cc_cached_ip c" "cc_open (waits_again c) = cc_open c"
  by (simp_all add: waits_again_def)

lemma schedule_retry_waits: "server_on a \<Longrightarrow> schedule_retry 2 (c\<lparr>cc_pending := []\<rparr>, a) = (waits_again c, a)"
  by (simp add: schedule_retry_def start_op_def waits_again_def)

definition polled_world :: "coord \<Rightarrow> entropy \<Rightarrow> world \<Rightarrow> world" where
  "polled_world c e w = w\<lparr>g_my_local_ip := cc_cached_ip c, w_entropy := e, g_found_peers := []\<rparr>"

lemma polled_world_app [simp]:
  "server_on (set_world (polled_world c e) a) = server_on a"
  "busy_ports (set_world (polled_world c e) a) = busy_ports a"
  "wanted_friends (set_world (polled_world c e) a) = wanted_friends a"
  "ap_conns (set_world (polled_world c e) a) = ap_conns a"
  "w_entropy (ap_world (set_world (polled_world c e) a)) = e"
  by (simp_all add: server_on_def busy_ports_def wanted_friends_def set_world_def polled_world_def check_activity_def
      cong: option.case_cong)

lemma poll_nobody:
  assumes "evp_laws ev" "entropy_ok (sv_entropy sv)" "addresses_ok (active_sessions sv)" "may_poll (c, a) s sv"
    and "sessions = AList.update (cc_uuid c) (polled_info c a s sv) (active_sessions sv)"
    and "due_peers c a s sessions = []"
  obtains e1 e2 where "poll ev nt garbage (c, a) s sv = Some ((waits_again c, set_world (polled_world c e1) a),
      s\<lparr>ss_associated_uuid := cc_uuid c\<rparr>, sv\<lparr>active_sessions := sessions, sv_entropy := e2\<rparr>)"
    "entropy_ok e1" "entropy_ok e2" "addresses_ok sessions"
proof -
  have "server_on a" using assms(4) by (simp add: may_poll_def)
  then have "schedule_retry 2 (c\<lparr>cc_pending := []\<rparr>, set_world (polled_world c e) a)
      = (waits_again c, set_world (polled_world c e) a)" for e
    by (simp add: schedule_retry_waits)
  then show thesis
    using poll_result [OF assms(1-5), of nt garbage] that
    by (auto simp: assms(6) polled_world_def [abs_def])
qed

text \<open>A network in which free ports can be bound and numeric addresses resolve to themselves.\<close>

definition plain_net :: "net \<Rightarrow> app \<Rightarrow> bool" where
  "plain_net nt a \<longleftrightarrow> (\<forall>p. p \<noteq> 0 \<and> p \<notin> set (busy_ports a) \<longrightarrow> net_bind nt p)
     \<and> (\<forall>h (p :: u16). net_resolve nt h (show_int (int (unat p))) = Some (h, unat p))"

lemma poll_aims:
  assumes "evp_laws ev" "entropy_ok (sv_entropy sv)" "addresses_ok (active_sessions sv)" "may_poll (c, a) s sv"
    and "sessions = AList.update (cc_uuid c) (polled_info c a s sv) (active_sessions sv)"
    and "due_peers c a s sessions = [\<lparr>pi_uuid = b, pi_ip = ip, pi_iport = i, pi_oport = j\<rparr>]"
    and "map_of (ap_conns a) b = Some (Some x)" "plain_net nt a" "i \<noteq> 0" "i \<notin> set (busy_ports a)"
  obtains a2 e2 where "poll ev nt garbage (c, a) s sv = Some ((waits_again c, a2),
      s\<lparr>ss_associated_uuid := cc_uuid c\<rparr>, sv\<lparr>active_sessions := sessions, sv_entropy := e2\<rparr>)"
    "ap_conns a2 = AList.update b (Some (aimed i (ip, unat j) x)) (ap_conns a)"
    "entropy_ok e2" "addresses_ok sessions" "introduced a b a2"
proof -
  obtain e1 e2 where poll: "poll ev nt garbage (c, a) s sv =
     (case apply_peers nt garbage (due_peers c a s sessions) (set_world (polled_world c e1) a) of
        (Inl _, _) \<Rightarrow> None
      | (Inr _, a2) \<Rightarrow> Some (schedule_retry 2 (c\<lparr>cc_pending := []\<rparr>, a2),
          s\<lparr>ss_associated_uuid := cc_uuid c\<rparr>, sv\<lparr>active_sessions := sessions, sv_entropy := e2\<rparr>))"
    "entropy_ok e2" "addresses_ok sessions"
    using poll_result [OF assms(1-5), of nt garbage] unfolding polled_world_def [abs_def] by metis
  have nt: "net_bind nt i" "net_resolve nt ip (show_int (int (unat j))) = Some (ip, unat j)"
    using assms(8-10) by (simp_all add: plain_net_def)
  let ?p = "\<lparr>pi_uuid = b, pi_ip = ip, pi_iport = i, pi_oport = j\<rparr>" and ?a1 = "set_world (polled_world c e1) a"
  obtain t where ap: "apply_peer nt garbage ?p ?a1 = (Inr (), ?a1\<lparr>
      ap_world := (ap_world ?a1)\<lparr>g_found_peers := g_found_peers (ap_world ?a1) @ [?p],
        w_fs := fs_write (app_fs ?a1) (ip_io_file b) t\<rparr>,
      ap_conns := AList.update b (Some (aimed i (ip, unat j) x)) (ap_conns a)\<rparr>)" (is "_ = (Inr (), ?a2)")
    using apply_peer_aims [of ?a1 ?p x nt "(ip, unat j)" garbage] assms(7) nt by auto
  have "server_on a" using assms(4) by (simp add: may_poll_def)
  then have "server_on ?a2" by (simp add: server_on_def set_world_def polled_world_def)
  then have "poll ev nt garbage (c, a) s sv = Some ((waits_again c, ?a2),
      s\<lparr>ss_associated_uuid := cc_uuid c\<rparr>, sv\<lparr>active_sessions := sessions, sv_entropy := e2\<rparr>)"
    using poll(1) ap by (simp add: assms(6) schedule_retry_waits)
  moreover have "introduced a b ?a2" by (auto simp: introduced_def app_fs_def set_world_def polled_world_def)
  ultimately show thesis by (intro that [of ?a2 e2]) (use poll(2,3) in simp_all)
qed

section \<open>The rendezvous\<close>

lemma map_of_update: "map_of (AList.update k v al) x = (if x = k then Some v else map_of al x)"
  by (simp add: update_conv')

text \<open>The two hosts as they are before they find each other.\<close>

definition before_rendezvous :: "app \<Rightarrow> string \<Rightarrow> string \<Rightarrow> udp_server \<Rightarrow> bool" where
  "before_rendezvous a me friend x \<longleftrightarrow> distinct (map fst (ap_conns a))
     \<and> map_of (ap_conns a) friend = Some (Some x) \<and> \<not> us_stopped x
     \<and> friend \<in> set (wanted_friends a) \<and> me \<notin> set (wanted_friends a)"

lemma distinct_wanted: "distinct (map fst (ap_conns a)) \<Longrightarrow> distinct (wanted_friends a)"
  by (simp add: wanted_friends_def)

lemma ports_both_ways:
  assumes "length ps \<le> 100" "length qs \<le> 100"
  obtains p q where "find_available_ports (set ps) (set qs) = (p, q)" "find_available_ports (set qs) (set ps) = (p, q)"
    "p \<noteq> q" "p \<noteq> 0" "q \<noteq> 0" "{p, q} \<inter> (set ps \<union> set qs) = {}"
proof -
  have c: "card (set ps) \<le> 100" "card (set qs) \<le> 100"
    using assms card_length [of ps] card_length [of qs] by linarith+
  obtain m n where f: "find_available_ports (set ps) (set qs) = (word_of_nat m, word_of_nat n)" "m < n"
    "8888 \<le> m" "n \<le> 30000" "word_of_nat m \<notin> set ps \<union> set qs" "word_of_nat n \<notin> set ps \<union> set qs"
    by (rule ports_found [OF c])
  have "unat (word_of_nat m :: u16) = m" "unat (word_of_nat n :: u16) = n"
    using f(2-4) by (simp_all add: unat_of_nat)
  then have "(word_of_nat m :: u16) \<noteq> 0" "(word_of_nat n :: u16) \<noteq> 0" using f(2,3) by auto
  then show thesis
    using that [of "word_of_nat m" "word_of_nat n"] f ports_differ [OF f(2,4)]
    by (simp add: find_available_ports_commute)
qed

lemma polled_info_app [simp]:
  "polled_info (waits_again c) (set_world (polled_world c' e) a) (s\<lparr>ss_associated_uuid := u\<rparr>) sv = polled_info c a s sv"
  by (simp add: polled_info_def)

lemma polled_info_sel [simp]:
  "si_uuid (polled_info c a s sv) = cc_uuid c" "si_aes_key (polled_info c a s sv) = cc_aes_key c"
  "si_desired_uuids (polled_info c a s sv) = wanted_friends a" "si_public_ip (polled_info c a s sv) = ss_remote_ip s"
  "si_local_ip (polled_info c a s sv) = cc_cached_ip c" "si_unavailable_ports (polled_info c a s sv) = set (busy_ports a)"
  by (simp_all add: polled_info_def)

text \<open>A poll leaves the client able to poll again, with its key in the server's table.\<close>

lemma may_poll_again:
  assumes "may_poll (c, a) s sv" "entropy_ok e" "client_key sv' (cc_uuid c) = Inr (cc_aes_key c)"
  shows "may_poll (waits_again c, set_world (polled_world c e) a) (s\<lparr>ss_associated_uuid := u\<rparr>) sv'"
  using assms by (simp add: may_poll_def)

lemma may_poll_other:
  "may_poll ca s sv \<Longrightarrow> client_key sv' (cc_uuid (fst ca)) = client_key sv (cc_uuid (fst ca)) \<Longrightarrow> may_poll ca s sv'"
  by (cases ca) (simp add: may_poll_def)

text \<open>The address under which one side learns the other.\<close>

definition address_seen :: "session \<Rightarrow> session \<Rightarrow> coord \<Rightarrow> string" where
  "address_seen s peer_session peer =
     (if ss_remote_ip s = ss_remote_ip peer_session then cc_cached_ip peer else ss_remote_ip peer_session)"

text \<open>A poll that finds the friend's session.\<close>

lemma poll_meets:
  assumes "evp_laws ev" "entropy_ok (sv_entropy sv)" "addresses_ok (active_sessions sv)" "may_poll (c, a) s sv"
    and "sessions = AList.update (cc_uuid c) (polled_info c a s sv) (active_sessions sv)"
    and "before_rendezvous a (cc_uuid c) b x" "plain_net nt a" "b \<noteq> cc_uuid c"
    and "map_of (active_sessions sv) b = Some ib" "cc_uuid c \<in> set (si_desired_uuids ib)" "si_uuid ib = b"
    and "\<And>t. t \<in> set (wanted_friends a) \<Longrightarrow> t \<noteq> b \<Longrightarrow> map_of (active_sessions sv) t = None"
    and "find_available_ports (set (busy_ports a)) (si_unavailable_ports ib) = (p, q)"
    and "p \<noteq> 0" "q \<noteq> 0" "{p, q} \<inter> set (busy_ports a) = {}"
  obtains a2 e2 where "poll ev nt garbage (c, a) s sv = Some ((waits_again c, a2),
      s\<lparr>ss_associated_uuid := cc_uuid c\<rparr>, sv\<lparr>active_sessions := sessions, sv_entropy := e2\<rparr>)"
    "map_of (ap_conns a2) b = Some (Some (aimed (if string_less (cc_uuid c) b then q else p)
       (if ss_remote_ip s = si_public_ip ib then si_local_ip ib else si_public_ip ib,
        unat (if string_less (cc_uuid c) b then p else q)) x))"
    "entropy_ok e2" "addresses_ok sessions" "introduced a b a2"
proof -
  note r = assms(6) [unfolded before_rendezvous_def]
  have "due_peers c a s sessions = [\<lparr>pi_uuid = b,
      pi_ip = (if ss_remote_ip s = si_public_ip ib then si_local_ip ib else si_public_ip ib),
      pi_iport = (if string_less (cc_uuid c) b then q else p),
      pi_oport = (if string_less (cc_uuid c) b then p else q)\<rparr>]"
  proof (rule due_one)
    show "map_of sessions b = Some ib" using assms(5,8,9) by (simp add: map_of_update)
    fix t assume "t \<in> set (wanted_friends a)" "t \<noteq> b"
    moreover from this(1) r have "t \<noteq> cc_uuid c" by auto
    ultimately show "map_of sessions t = None" using assms(5,12) by (simp add: map_of_update)
  qed (use r assms(10,11,13) distinct_wanted in simp_all)
  then obtain a2 e2 where p: "poll ev nt garbage (c, a) s sv = Some ((waits_again c, a2),
      s\<lparr>ss_associated_uuid := cc_uuid c\<rparr>, sv\<lparr>active_sessions := sessions, sv_entropy := e2\<rparr>)"
    "ap_conns a2 = AList.update b (Some (aimed (if string_less (cc_uuid c) b then q else p)
       (if ss_remote_ip s = si_public_ip ib then si_local_ip ib else si_public_ip ib,
        unat (if string_less (cc_uuid c) b then p else q)) x)) (ap_conns a)"
    "entropy_ok e2" "addresses_ok sessions" "introduced a b a2"
  proof (rule poll_aims [OF assms(1-5) _ _ assms(7), where garbage = garbage])
    show "map_of (ap_conns a) b = Some (Some x)" using r by simp
    show "(if string_less (cc_uuid c) b then q else p) \<noteq> 0" using assms(14,15) by simp
    show "(if string_less (cc_uuid c) b then q else p) \<notin> set (busy_ports a)" using assms(16) by simp
  qed
  show thesis by (rule that [OF p(1) _ p(3-5)]) (simp add: p(2) map_of_update)
qed

text \<open>The same in terms of what the friend polled with.\<close>

lemma poll_meets_peer:
  assumes "evp_laws ev" "entropy_ok (sv_entropy sv)" "addresses_ok (active_sessions sv)" "may_poll (c, a) s sv"
    and "before_rendezvous a (cc_uuid c) (cc_uuid cb) x" "plain_net nt a" "cc_uuid cb \<noteq> cc_uuid c"
    and "map_of (active_sessions sv) (cc_uuid cb) = Some (polled_info cb ab sb sv0)"
    and "cc_uuid c \<in> set (wanted_friends ab)"
    and "\<forall>t \<in> set (wanted_friends a). t \<noteq> cc_uuid cb \<longrightarrow> map_of (active_sessions sv) t = None"
    and "find_available_ports (set (busy_ports a)) (set (busy_ports ab)) = (p, q)"
    and "p \<noteq> 0" "q \<noteq> 0" "{p, q} \<inter> set (busy_ports a) = {}"
  obtains a2 e2 where "poll ev nt garbage (c, a) s sv = Some ((waits_again c, a2), s\<lparr>ss_associated_uuid := cc_uuid c\<rparr>,
      sv\<lparr>active_sessions := AList.update (cc_uuid c) (polled_info c a s sv) (active_sessions sv), sv_entropy := e2\<rparr>)"
    "map_of (ap_conns a2) (cc_uuid cb) = Some (Some (aimed (if string_less (cc_uuid c) (cc_uuid cb) then q else p)
       (address_seen s sb cb, unat (if string_less (cc_uuid c) (cc_uuid cb) then p else q)) x))"
    "entropy_ok e2" "addresses_ok (AList.update (cc_uuid c) (polled_info c a s sv) (active_sessions sv))"
    "introduced a (cc_uuid cb) a2"
  by (rule poll_meets [OF assms(1-4) refl assms(5-8), where garbage = garbage],
      (use assms(9-14) in \<open>simp; fail\<close>)+, rule that, assumption,
      simp add: address_seen_def polled_info_def, assumption+)

lemma friends_meet:
  assumes "evp_laws ev" "entropy_ok (sv_entropy sv)" "addresses_ok (active_sessions sv)"
    and "may_poll (ca, aa) sa sv" "may_poll (cb, ab) sb sv" "cc_uuid ca \<noteq> cc_uuid cb"
    and "before_rendezvous aa (cc_uuid ca) (cc_uuid cb) xa" "before_rendezvous ab (cc_uuid cb) (cc_uuid ca) xb"
    and "\<forall>t \<in> set (wanted_friends aa) \<union> set (wanted_friends ab). map_of (active_sessions sv) t = None"
    and "plain_net na aa" "plain_net nb ab"
  shows "\<exists>ca1 aa1 sa1 sv1 cb1 ab1 sb1 sv2 ca2 aa2 sa2 sv3 ya yb.
    poll ev na ga (ca, aa) sa sv = Some ((ca1, aa1), sa1, sv1)
    \<and> poll ev nb gb (cb, ab) sb sv1 = Some ((cb1, ab1), sb1, sv2)
    \<and> poll ev na ga (ca1, aa1) sa1 sv2 = Some ((ca2, aa2), sa2, sv3)
    \<and> map_of (ap_conns aa2) (cc_uuid cb) = Some (Some ya) \<and> map_of (ap_conns ab1) (cc_uuid ca) = Some (Some yb)
    \<and> us_open ya \<and> us_receiving ya \<and> us_open yb \<and> us_receiving yb
    \<and> us_target ya = (address_seen sa sb cb, unat (us_port yb))
    \<and> us_target yb = (address_seen sb sa ca, unat (us_port ya))
    \<and> us_port ya \<noteq> us_port yb
    \<and> {us_port ya, us_port yb} \<inter> (set (busy_ports aa) \<union> set (busy_ports ab)) = {}
    \<and> ya = aimed (us_port ya) (us_target ya) xa \<and> yb = aimed (us_port yb) (us_target yb) xb
    \<and> introduced aa (cc_uuid cb) aa2 \<and> introduced ab (cc_uuid ca) ab1"
proof -
  let ?ua = "cc_uuid ca" and ?ub = "cc_uuid cb"
  note a = assms(7) [unfolded before_rendezvous_def] and b = assms(8) [unfolded before_rendezvous_def]
  have new: "map_of (active_sessions sv) ?ua = None" "map_of (active_sessions sv) ?ub = None"
    using assms(9) a b by simp_all
  obtain p q where pq: "find_available_ports (set (busy_ports aa)) (set (busy_ports ab)) = (p, q)"
    "find_available_ports (set (busy_ports ab)) (set (busy_ports aa)) = (p, q)" "p \<noteq> q" "p \<noteq> 0" "q \<noteq> 0"
    "{p, q} \<inter> (set (busy_ports aa) \<union> set (busy_ports ab)) = {}"
    using ports_both_ways [of "busy_ports aa" "busy_ports ab"] assms(4,5) by (auto simp: may_poll_def)
  have free: "{p, q} \<inter> set (busy_ports aa) = {}" "{p, q} \<inter> set (busy_ports ab) = {}" using pq(6) by auto
  define t1 where "t1 = AList.update ?ua (polled_info ca aa sa sv) (active_sessions sv)"
  have "due_peers ca aa sa t1 = []"
    unfolding t1_def using assms(9) a by (intro due_none) (auto simp: map_of_update)
  from poll_nobody [OF assms(1-4) t1_def this, of na ga]
  obtain e1 f1 where p1: "poll ev na ga (ca, aa) sa sv = Some ((waits_again ca, set_world (polled_world ca e1) aa),
      sa\<lparr>ss_associated_uuid := ?ua\<rparr>, sv\<lparr>active_sessions := t1, sv_entropy := f1\<rparr>)"
    "entropy_ok e1" "entropy_ok f1" "addresses_ok t1" by blast
  let ?sv1 = "sv\<lparr>active_sessions := t1, sv_entropy := f1\<rparr>"
  have poll_b: "may_poll (cb, ab) sb ?sv1"
    using assms(6) new by (intro may_poll_other [OF assms(5)]) (simp add: client_key_def t1_def map_of_update)
  define t2 where "t2 = AList.update ?ub (polled_info cb ab sb ?sv1) t1"
  obtain ab1 f2 where p2: "poll ev nb gb (cb, ab) sb ?sv1 = Some ((waits_again cb, ab1),
      sb\<lparr>ss_associated_uuid := ?ub\<rparr>, ?sv1\<lparr>active_sessions := t2, sv_entropy := f2\<rparr>)"
    "map_of (ap_conns ab1) ?ua = Some (Some (aimed (if string_less ?ub ?ua then q else p)
       (address_seen sb sa ca, unat (if string_less ?ub ?ua then p else q)) xb))"
    "entropy_ok f2" "addresses_ok t2" "introduced ab ?ua ab1"
    by (rule poll_meets_peer [OF assms(1) _ _ poll_b assms(8,11,6) _ _ _ pq(2,4,5) free(2),
          where sb = sa and ?sv0.0 = sv and garbage = gb])
      (use assms(9) a p1 in \<open>simp_all add: t1_def t2_def map_of_update\<close>)
  let ?sv2 = "?sv1\<lparr>active_sessions := t2, sv_entropy := f2\<rparr>" and ?c1 = "waits_again ca"
  let ?aa1 = "set_world (polled_world ca e1) aa" and ?sa1 = "sa\<lparr>ss_associated_uuid := ?ua\<rparr>"
  have again: "may_poll (?c1, ?aa1) ?sa1 ?sv2"
    using assms(6) by (intro may_poll_again [OF assms(4) p1(2)]) (simp add: client_key_def t2_def t1_def map_of_update)
  have again_before: "before_rendezvous ?aa1 (cc_uuid ?c1) ?ub xa" "plain_net na ?aa1" "?ub \<noteq> cc_uuid ?c1"
    using assms(6,7,10) by (simp_all add: before_rendezvous_def plain_net_def)
  obtain aa2 sa3 sv3 where p3: "poll ev na ga (?c1, ?aa1) ?sa1 ?sv2 = Some ((waits_again ?c1, aa2), sa3, sv3)"
    "map_of (ap_conns aa2) ?ub = Some (Some (aimed (if string_less ?ua ?ub then q else p)
       (address_seen sa sb cb, unat (if string_less ?ua ?ub then p else q)) xa))"
    "introduced ?aa1 ?ub aa2"
    by (rule poll_meets_peer [OF assms(1) _ _ again again_before _ _ _ _ pq(4,5), of ab sb ?sv1 ga],
        (use assms(9) a b p2(3,4) pq(1) free(1) in \<open>(simp add: t1_def t2_def map_of_update; fail)
           | (auto simp: t1_def t2_def map_of_update; fail)\<close>)+, rule that, assumption, simp add: address_seen_def, assumption)
  have "string_less ?ua ?ub \<longleftrightarrow> \<not> string_less ?ub ?ua" by (rule string_less_total [OF assms(6)])
  moreover have "introduced aa ?ub aa2"
    using p3(3) by (simp add: introduced_def app_fs_def set_world_def polled_world_def)
  ultimately show ?thesis using p1(1) p2(1,2,5) p3(1,2) a b pq(3,6) by (auto simp: insert_commute)
qed


text \<open>Two users whose keys the server has on file, each with a connection object for the other.\<close>

definition lone_client :: "char \<Rightarrow> coord" where
  "lone_client ch = known_client\<lparr>cc_uuid := replicate 36 ch, cc_pending := [Waiting 2]\<rparr>"

definition friend_app :: "char \<Rightarrow> app" where
  "friend_app ch = (idle_app True sample_keys)
     \<lparr>ap_conns := [(replicate 36 ch, Some (sample_server (replicate 36 ch)))]\<rparr>"

definition filed_server :: intro where
  "filed_server = \<lparr>active_sessions = [], sv_fs = \<lparr>fs_files =
       [(user_key_file (replicate 36 (CHR ''a'')), hex_string (replicate 32 7)),
        (user_key_file (replicate 36 (CHR ''b'')), hex_string (replicate 32 7))], fs_dirs = []\<rparr>,
     sv_now = 0, sv_entropy = plain_entropy\<rparr>"

definition numeric_net :: net where
  "numeric_net = \<lparr>net_bind = \<lambda>p. True, net_resolve = \<lambda>h service. Some (h, digits_val 10 service)\<rparr>"

lemma friend_app_simps:
  "server_on (friend_app ch)" "w_entropy (ap_world (friend_app ch)) = plain_entropy"
  "busy_ports (friend_app ch) = [9000]" "wanted_friends (friend_app ch) = [replicate 36 ch]"
  "map_of (ap_conns (friend_app ch)) (replicate 36 ch) = Some (Some (sample_server (replicate 36 ch)))"
  "distinct (map fst (ap_conns (friend_app ch)))"
proof -
  have "\<not> check_activity (ap_world (friend_app ch)) u" for u
    by (simp add: friend_app_def idle_app_def check_activity_def sample_world_def)
  then show "wanted_friends (friend_app ch) = [replicate 36 ch]"
    by (simp add: wanted_friends_def) (simp add: friend_app_def)
qed (simp_all add: friend_app_def idle_app_def server_on_def sample_world_def busy_ports_def sample_server_def
    List.map_filter_simps)

lemma key_files:
  "user_key_file (replicate 36 (CHR ''a'')) = [''users'', replicate 36 (CHR ''a''), ''AES'']"
  "user_key_file (replicate 36 (CHR ''b'')) = [''users'', replicate 36 (CHR ''b''), ''AES'']"
  by code_simp+

lemma no_sessions: "active_sessions filed_server = []"
  by (simp add: filed_server_def)

lemma filed_keys:
  "client_key filed_server (replicate 36 (CHR ''a'')) = Inr (replicate 32 7)"
  "client_key filed_server (replicate 36 (CHR ''b'')) = Inr (replicate 32 7)"
proof -
  have "fs_read (sv_fs filed_server) (user_key_file (replicate 36 ch)) = Some (hex_string (replicate 32 7))"
    if "ch = CHR ''a'' \<or> ch = CHR ''b''" for ch
    using that key_files by (auto simp: filed_server_def fs_read_def is_directory_def)
  then show "client_key filed_server (replicate 36 (CHR ''a'')) = Inr (replicate 32 7)"
    "client_key filed_server (replicate 36 (CHR ''b'')) = Inr (replicate 32 7)"
    using load_hex_key_of_hex [of "replicate 32 7"]
    by (simp_all add: client_key_def load_aes_key_def no_sessions)
qed


end
