(* ===== verification/Contact.thy ===== *)
theory Contact
  imports Rendezvous
begin

text \<open>
  After the rendezvous: the two mechanisms that keep a connection stable once packets flow. Any
  datagram makes its sender count as online for two seconds, and polling the coordinating server
  leaves the connections to friends that are online alone.
\<close>

section \<open>A sign of life\<close>

text \<open>No handler touches the clock or the times of the last packets.\<close>

definition same_clock :: "world \<Rightarrow> world \<Rightarrow> bool" where
  "same_clock w w' \<longleftrightarrow> w_now w' = w_now w \<and> g_last_packets_times w' = g_last_packets_times w"

lemma clock_kept:
  "same_clock w (snd (handle_text ev actual (s, w)))"
  "same_clock w (snd (snd (send_encrypted_AES_key ev pub (s, w))))"
  "same_clock w (snd (snd (handle_username buf (s, w))))"
  "same_clock w (snd (snd (handle_key ev actual (s, w))))"
  "same_clock w (snd (snd (handle_file_header MID actual (s, w))))"
  "same_clock w (snd (snd (handle_file_data ev MID PID actual (s, w))))"
  by (auto simp: same_clock_def send_encrypted_AES_key_def next_rand_def handle_text_def save_message_now_def
      handle_username_def handle_key_def handle_file_header_def handle_file_data_def Let_def
      split: prod.split sum.split option.split)

lemma dispatch_clock: "same_clock w (snd (snd (dispatch ev buf (s, w))))"
proof -
  have "same_clock w w" by (simp add: same_clock_def)
  then show ?thesis using clock_kept
    by (simp add: dispatch_def handle_control_def handle_public_key_def handle_file_def Let_def)
qed

lemma receive_clock:
  assumes "\<not> us_stopped s" "receive ev d (s, w) = (r, (s', w'))"
  shows "same_clock (packet_seen (us_uuid s) w) w'"
proof -
  let ?s = "(deliver d s)\<lparr>us_receiving := False\<rparr>" and ?w = "packet_seen (us_uuid s) w"
  obtain r1 s1 w1 where c: "dispatch ev (us_recv_buffer (deliver d s)) (?s, ?w) = (r1, (s1, w1))"
    by (metis prod.exhaust)
  then have "same_clock ?w w1" using dispatch_clock [of ?w ev _ ?s] by (metis snd_conv)
  moreover have "same_clock ?w ?w" by (simp add: same_clock_def)
  ultimately show ?thesis
    using assms c by (cases r1) (auto simp: receive_def handle_receive_def listen_again_def deliver_def Let_def
        split: if_splits)
qed

lemma check_activity_same:
  "same_clock w w' \<Longrightarrow> check_activity (w'\<lparr>w_now := n\<rparr>) u = check_activity (w\<lparr>w_now := n\<rparr>) u"
  by (simp add: same_clock_def check_activity_def cong: option.case_cong)

section \<open>Friends that are online\<close>

text \<open>The server's table is keyed by identifiers (part of its invariant).\<close>

definition keyed :: "(string \<times> session_info) list \<Rightarrow> bool" where
  "keyed sessions \<longleftrightarrow> (\<forall>(u, info) \<in> set sessions. si_uuid info = u)"

lemma keyed_table: "table_ok sv \<Longrightarrow> keyed (active_sessions sv)"
  by (auto simp: table_ok_def keyed_def info_ok_def)

lemma keyed_update: "keyed sessions \<Longrightarrow> si_uuid info = u \<Longrightarrow> keyed (AList.update u info sessions)"
  unfolding keyed_def by (induction sessions) auto

lemma due_peers_wanted:
  assumes "keyed sessions" "p \<in> set (due_peers c a s sessions)"
  shows "pi_uuid p \<in> set (wanted_friends a)"
proof -
  obtain t m where t: "t \<in> set (wanted_friends a)" "p = peer_of m"
    "match_target sessions (cc_uuid c) (ss_remote_ip s) (set (busy_ports a)) t = Some m"
    using assms(2) by (auto simp: due_peers_def matches_def List.map_filter_def)
  then obtain info where "map_of sessions t = Some info" "md_uuid m = si_uuid info"
    by (auto simp: match_target_def Let_def split: option.splits prod.splits if_splits)
  then show ?thesis using assms(1) t by (auto simp: keyed_def peer_of_def dest: map_of_SomeD)
qed

lemma apply_peer_others:
  "pi_uuid p \<noteq> u \<Longrightarrow> map_of (ap_conns (snd (apply_peer nt garbage p a))) u = map_of (ap_conns a) u"
  by (auto simp: apply_peer_def set_world_def map_of_update Let_def split: option.split prod.split sum.split)

lemma apply_peers_others:
  "u \<notin> pi_uuid ` set ps \<Longrightarrow> map_of (ap_conns (snd (apply_peers nt garbage ps a))) u = map_of (ap_conns a) u"
proof (induction ps arbitrary: a)
  case (Cons p ps)
  then show ?case using apply_peer_others [of p u nt garbage a] by (auto split: prod.split sum.split)
qed simp

lemma schedule_retry_app: "schedule_retry n (c, a) = (c', a') \<Longrightarrow> a' = a"
  using schedule_retry_snd [of n "(c, a)"] by simp

text \<open>A round trip keeps the invariants of both machines.\<close>

lemma poll_keeps:
  assumes "cc_pending c = [Waiting n]" "ss_pending s = ReadHeader" "one_op c" "table_ok sv"
    and "poll ev nt garbage (c, a) s sv = Some ((c', a'), s', sv')"
  shows "one_op c' \<and> table_ok sv'"
proof -
  note steps = poll_steps [OF assms(1,2,5)]
  have "one_op c'" using client.steps_good [OF steps [THEN conjunct1]] assms(3) by simp
  moreover have "running_ok (sv, [s])" using assms(2,4) by (simp add: running_ok_def sessions_ok_def)
  with server.steps_good [OF steps [THEN conjunct2]] have "running_ok (sv', [s'])" .
  ultimately show ?thesis by (simp add: running_ok_def)
qed

section \<open>Properties\<close>

text \<open>
  C22: any datagram is a sign of life. Whatever it contains, the friend whose object receives it is
  online for the next two seconds, and the client will not ask the server for that friend.
\<close>

theorem contact_seen:
  assumes "listening s" "receive ev d (s, w) = (r, (s', w'))" "0 \<le> t" "t \<le> seconds 2"
  shows "us_uuid s \<notin> set (wanted_friends \<lparr>ap_world = w'\<lparr>w_now := w_now w + t\<rparr>, ap_conns = cs\<rparr>)"
proof -
  have "same_clock (packet_seen (us_uuid s) w) w'"
    using receive_clock [OF _ assms(2)] assms(1) by (simp add: listening_def)
  from check_activity_same [OF this]
  have "check_activity (w'\<lparr>w_now := w_now w + t\<rparr>) (us_uuid s)"
    using assms(4) by (simp add: check_activity_def packet_seen_def map_of_update)
  then show ?thesis by (simp add: wanted_friends_def)
qed

theorem contact_seen_witness:
  "\<exists>r s' w'. receive plain_evp (replicate 512 70) (sample_server ''f'', sample_world (sample_fs [])) = (r, (s', w'))
     \<and> ''f'' \<notin> set (wanted_friends \<lparr>ap_world = w'\<lparr>w_now := 1000000000\<rparr>, ap_conns = [(''f'', Some s')]\<rparr>)"
proof -
  obtain r s' w' where r: "receive plain_evp (replicate 512 70) (sample_server ''f'', sample_world (sample_fs []))
      = (r, (s', w'))" by (metis prod.exhaust)
  have "w_now (sample_world (sample_fs [])) = 0" by (simp add: sample_world_def)
  then show ?thesis
    using contact_seen [OF _ r, of 1000000000 "[(''f'', Some s')]"] r by (simp add: seconds_def)
qed

text \<open>
  Polling does not disturb a friend who is online. Whatever the server's table holds, a round
  trip that ends leaves the connection object of such a friend exactly as it was; only friends that
  were asked for are redirected.
\<close>

lemma online_untouched:
  assumes "evp_laws ev" "entropy_ok (sv_entropy sv)" "addresses_ok (active_sessions sv)" "table_ok sv"
    and "may_poll (c, a) s sv" "check_activity (ap_world a) u"
    and "poll ev nt garbage (c, a) s sv = Some ((c', a'), s', sv')"
  shows "map_of (ap_conns a') u = map_of (ap_conns a) u"
proof -
  define sessions where "sessions = AList.update (cc_uuid c) (polled_info c a s sv) (active_sessions sv)"
  obtain e1 e2 where poll: "poll ev nt garbage (c, a) s sv =
     (case apply_peers nt garbage (due_peers c a s sessions) (set_world (polled_world c e1) a) of
        (Inl _, _) \<Rightarrow> None
      | (Inr _, a2) \<Rightarrow> Some (schedule_retry 2 (c\<lparr>cc_pending := []\<rparr>, a2),
          s\<lparr>ss_associated_uuid := cc_uuid c\<rparr>, sv\<lparr>active_sessions := sessions, sv_entropy := e2\<rparr>))"
    using poll_result [OF assms(1-3,5) sessions_def, of nt garbage] unfolding polled_world_def [abs_def] by metis
  have "keyed sessions"
    unfolding sessions_def by (rule keyed_update [OF keyed_table [OF assms(4)]]) simp
  moreover have "u \<notin> set (wanted_friends a)" using assms(6) by (simp add: wanted_friends_def)
  ultimately have "u \<notin> pi_uuid ` set (due_peers c a s sessions)" using due_peers_wanted by blast
  from apply_peers_others [OF this, of nt garbage "set_world (polled_world c e1) a"]
  show ?thesis using poll assms(7)
    by (auto split: prod.splits sum.splits dest!: schedule_retry_app [OF sym])
qed

definition live_app :: app where
  "live_app = (friend_app CHR ''b'')\<lparr>ap_world := packet_seen (replicate 36 (CHR ''b'')) (ap_world (friend_app CHR ''b''))\<rparr>"

lemma live_app_simps:
  "server_on live_app" "w_entropy (ap_world live_app) = plain_entropy" "busy_ports live_app = [9000]"
  "wanted_friends live_app = []" "check_activity (ap_world live_app) (replicate 36 (CHR ''b''))"
proof -
  show "check_activity (ap_world live_app) (replicate 36 (CHR ''b''))" by (simp add: live_app_def check_activity_seen)
  then show "wanted_friends live_app = []" by (simp add: wanted_friends_def) (simp add: live_app_def friend_app_def)
  show "server_on live_app" using friend_app_simps(1) by (simp add: live_app_def server_on_def packet_seen_def)
  show "busy_ports live_app = [9000]" using friend_app_simps(3) by (simp add: live_app_def busy_ports_def)
qed (simp add: live_app_def friend_app_simps)

lemma online_untouched_witness:
  "\<exists>c' a' s' sv'. poll plain_evp numeric_net [] (lone_client CHR ''a'', live_app) (session_start None) filed_server
       = Some ((c', a'), s', sv')
     \<and> map_of (ap_conns a') (replicate 36 (CHR ''b'')) = map_of (ap_conns live_app) (replicate 36 (CHR ''b''))"
proof -
  have m: "may_poll (lone_client CHR ''a'', live_app) (session_start None) filed_server"
    using filed_keys live_app_simps
    by (simp add: may_poll_def lone_client_def known_client_def plain_entropy_ok session_start_def)
  have sv: "entropy_ok (sv_entropy filed_server)" "addresses_ok (active_sessions filed_server)" "table_ok filed_server"
    by (simp_all add: filed_server_def plain_entropy_ok addresses_ok_def table_ok_def)
  have due: "due_peers (lone_client CHR ''a'') live_app (session_start None) sessions = []" for sessions
    using live_app_simps by (intro due_none) simp
  obtain e1 e2 where p: "poll plain_evp numeric_net [] (lone_client CHR ''a'', live_app) (session_start None) filed_server
      = Some ((waits_again (lone_client CHR ''a''), set_world (polled_world (lone_client CHR ''a'') e1) live_app),
          (session_start None)\<lparr>ss_associated_uuid := cc_uuid (lone_client CHR ''a'')\<rparr>,
          filed_server\<lparr>active_sessions := AList.update (cc_uuid (lone_client CHR ''a''))
             (polled_info (lone_client CHR ''a'') live_app (session_start None) filed_server)
             (active_sessions filed_server), sv_entropy := e2\<rparr>)"
    by (rule poll_nobody [OF plain_evp_laws sv(1,2) m refl due])
  from online_untouched [OF plain_evp_laws sv m live_app_simps(5) p] p show ?thesis by blast
qed

section \<open>Introductions that come too often\<close>

lemma busy_ports_open:
  assumes "map_of (ap_conns a) b = Some (Some x)" "us_open x"
  shows "us_port x \<in> set (busy_ports a)"
  using map_of_SomeD [OF assms(1)] assms(2)
  by (force simp: busy_ports_def List.map_filter_def)

lemma some_ports:
  assumes "length ps \<le> 100" "card B \<le> 100"
  obtains p q where "find_available_ports (set ps) B = (p, q)" "p \<noteq> 0" "q \<noteq> 0" "{p, q} \<inter> set ps = {}"
proof -
  have "card (set ps) \<le> 100" using assms(1) card_length [of ps] by linarith
  from ports_found [OF this assms(2)] obtain m n where f:
    "find_available_ports (set ps) B = (word_of_nat m, word_of_nat n)" "m < n" "8888 \<le> m" "n \<le> 30000"
    "word_of_nat m \<notin> set ps \<union> B" "word_of_nat n \<notin> set ps \<union> B" by blast
  have "unat (word_of_nat m :: u16) = m" "unat (word_of_nat n :: u16) = n"
    using f(2-4) by (simp_all add: unat_of_nat)
  then have "(word_of_nat m :: u16) \<noteq> 0" "(word_of_nat n :: u16) \<noteq> 0" using f(2,3) by auto
  then show thesis using that [of "word_of_nat m" "word_of_nat n"] f by simp
qed


definition waiting_server :: intro where
  "waiting_server = filed_server\<lparr>active_sessions := [(replicate 36 (CHR ''b''),
     \<lparr>si_uuid = replicate 36 (CHR ''b''), si_public_ip = ''0.0.0.0'', si_local_ip = ''10.0.0.2'',
      si_unavailable_ports = {}, si_desired_uuids = [replicate 36 (CHR ''a'')], si_last_seen = 0,
      si_aes_key = replicate 32 7\<rparr>)]\<rparr>"


end
