(* ===== verification/Network.thy ===== *)
theory Network
  imports Process HttpEffects UdpTransfer
begin

text \<open>
  Several clients and the datagrams between them. The network keeps every datagram ever sent; it
  may lose, repeat, delay and misdirect them, but it does not invent any. In such a network the two
  overreads of \<open>handle_receive\<close> (UdpFiles) cannot be provoked, as long as no user has a name of 494
  characters or more.
\<close>

section \<open>What the steps of a connection leave alone\<close>

definition settings_kept :: "world \<Rightarrow> world \<Rightarrow> bool" where
  "settings_kept w w' \<longleftrightarrow> (\<forall>f. fs_read (w_fs w') [''user_settings'', f] = fs_read (w_fs w) [''user_settings'', f])
     \<and> (entropy_ok (w_entropy w) \<longrightarrow> entropy_ok (w_entropy w'))"

lemma settings_kept_refl: "settings_kept w w"
  by (simp add: settings_kept_def)

lemma settings_kept_trans: "settings_kept w w1 \<Longrightarrow> settings_kept w1 w2 \<Longrightarrow> settings_kept w w2"
  by (simp add: settings_kept_def)

lemma settings_kept_fields [simp]:
  "settings_kept w (w1\<lparr>w_rands := x\<rparr>) = settings_kept w w1"
  "settings_kept w (w1\<lparr>g_last_packets_times := l\<rparr>) = settings_kept w w1"
  "settings_kept w (w1\<lparr>g_notifications_count := n\<rparr>) = settings_kept w w1"
  "settings_kept w (snd (next_rand w1)) = settings_kept w w1"
  "settings_kept w (packet_seen u w1) = settings_kept w w1"
  by (simp_all add: settings_kept_def next_rand_def packet_seen_def)

text \<open>Files outside of \<open>user_settings\<close>.\<close>

lemma settings_write:
  "(\<And>f. p \<noteq> [''user_settings'', f]) \<Longrightarrow> settings_kept w (w\<lparr>w_fs := fs_write (w_fs w) p s\<rparr>)"
  "(\<And>f. p \<noteq> [''user_settings'', f]) \<Longrightarrow> settings_kept w (w\<lparr>w_fs := fs_append (w_fs w) p s\<rparr>)"
  by (auto simp: settings_kept_def fs_read_simps)

lemma fs_remove_other: "fs_remove fs p = Inr fs' \<Longrightarrow> q \<noteq> p \<Longrightarrow> fs_read fs' q = fs_read fs q"
  by (auto simp: fs_remove_def fs_read_def is_directory_def delete_conv' split: if_splits)

lemma received_paths:
  assumes "plain_name u"
  shows "resolve (received_dir u) = [''received'', u]"
    and "plain_name n \<Longrightarrow> resolve (received_dir u @ n) = [''received'', u, n]"
  using assms
  by (simp_all add: received_dir_def resolve_def plain_name_def split_path_plain split_path_name resolve_step_def is_sep_def)

lemma history_path:
  assumes "plain_name u"
  shows "resolve (''friends/'' @ u @ ''/messages.txt'') = [''friends'', u, ''messages.txt'']"
  using assms
  by (simp add: resolve_def plain_name_def split_path_plain split_path_name resolve_step_def is_sep_def)

text \<open>The sources of randomness never run dry.\<close>

lemma entropy_kept_aes: "entropy_ok e \<Longrightarrow> aes_encrypt ev p k e = (r, e') \<Longrightarrow> entropy_ok e'"
  using entropy_okD by (fastforce simp: aes_encrypt_def Let_def split: prod.splits option.splits)

lemma entropy_kept_keygen: "entropy_ok e \<Longrightarrow> keygen e = (r, e') \<Longrightarrow> entropy_ok e'"
  using entropy_okD by (fastforce simp: keygen_def Let_def split: prod.splits)

lemma entropy_kept_ECC: "entropy_ok e \<Longrightarrow> encrypt_ECC ev k pub e = (r, e') \<Longrightarrow> entropy_ok e'"
  by (auto simp: encrypt_ECC_def Let_def split: prod.splits option.splits dest: entropy_kept_aes entropy_kept_keygen)

lemma entropy_kept_AES: "entropy_ok e \<Longrightarrow> generate_AES fs u e = (k, fs', e') \<Longrightarrow> entropy_ok e'"
  using entropy_okD by (fastforce simp: generate_AES_def Let_def split: prod.splits)

lemma entropy_kept_piece:
  "entropy_ok (w_entropy w) \<Longrightarrow> encrypt_piece ev chunk (s, w) = (r, e') \<Longrightarrow> entropy_ok e'"
  by (auto simp: encrypt_piece_def dest: entropy_kept_aes split: sum.splits)

section \<open>Settings, operation by operation\<close>

lemma send_text_settings: "settings_kept w (snd (send_text ev msg (s, w)))"
proof -
  obtain x e' where x: "(case load_key (w_fs w) (us_uuid s) of Inl err \<Rightarrow> (Inl err, w_entropy w)
      | Inr key \<Rightarrow> aes_encrypt ev (if length msg > 477 then take 477 msg else msg) key (w_entropy w)) = (x, e')"
    by (metis prod.exhaust)
  have "entropy_ok (w_entropy w) \<Longrightarrow> entropy_ok e'"
    using x by (auto split: sum.splits dest: entropy_kept_aes)
  then show ?thesis using x
    by (simp add: send_text_def Let_def settings_kept_def next_rand_def split: prod.splits)
qed

lemma send_file_packet_settings:
  assumes "send_file_packet ev mid data n i (s, w) = (r, (s', w'))"
  shows "settings_kept w w'"
proof -
  obtain x e' where x: "encrypt_piece ev (file_piece data (unat (i * 461))) (s, w) = (x, e')" by (metis prod.exhaust)
  then have "settings_kept w (w\<lparr>w_entropy := e'\<rparr>)"
    using entropy_kept_piece [OF _ x] by (simp add: settings_kept_def)
  moreover have "w' = w \<or> w' = w\<lparr>w_entropy := e'\<rparr>"
    using assms x by (auto simp: send_file_packet_def Let_def split: if_splits sum.splits)
  ultimately show ?thesis using settings_kept_refl by auto
qed

lemma transmit_settings: "transmit_fires ev (s, w) = (r, (s', w')) \<Longrightarrow> settings_kept w w'"
  by (auto simp: transmit_fires_def Let_def settings_kept_refl split: option.splits if_splits
      dest: send_file_packet_settings)

lemma send_ECC_settings: "send_ECC_public_key (s, w) = (r, (s', w')) \<Longrightarrow> settings_kept w w'"
  by (auto simp: send_ECC_public_key_def Let_def next_rand_def settings_kept_def split: sum.splits if_splits)

lemma punch_settings: "udp_punch (s, w) = (r, (s', w')) \<Longrightarrow> settings_kept w w'"
  by (auto simp: udp_punch_def Let_def next_rand_def settings_kept_def split: sum.splits if_splits)

lemma send_AES_settings:
  assumes "plain_name (us_uuid s)" "send_encrypted_AES_key ev pub (s, w) = (r, (s', w'))"
  shows "settings_kept w w'"
proof -
  obtain key fs1 e1 where g: "generate_AES (w_fs w) (us_uuid s) (w_entropy w) = (key, fs1, e1)" by (metis prod.exhaust)
  obtain x e2 where x: "encrypt_ECC ev key pub e1 = (x, e2)" by (metis prod.exhaust)
  have "fs1 = fs_write (w_fs w) (friend_file (us_uuid s) ''AES'') (hex_string key)"
    using g by (auto simp: generate_AES_def Let_def split: prod.splits)
  then have "settings_kept w (w\<lparr>w_fs := fs1, w_entropy := e2\<rparr>)"
    using entropy_kept_AES [OF _ g] entropy_kept_ECC [OF _ x] friend_file_eq(3) [OF assms(1)]
    by (simp add: settings_kept_def fs_read_simps)
  moreover have "w' = w\<lparr>w_fs := fs1, w_entropy := e2\<rparr> \<or> (\<exists>l. w' = w\<lparr>w_fs := fs1, w_entropy := e2, w_rands := l\<rparr>)"
    using assms(2) g x
    by (auto simp: send_encrypted_AES_key_def Let_def next_rand_def split: sum.splits if_splits)
  ultimately show ?thesis by auto
qed

lemma handle_text_settings:
  assumes "plain_name (us_uuid s)"
  shows "settings_kept w (snd (handle_text ev actual (s, w)))"
proof -
  have "settings_kept w (save_message_now (us_uuid s) m who w)" for m who
    using history_path [OF assms] by (simp add: save_message_now_def save_message_def settings_write)
  then show ?thesis
    by (auto simp: handle_text_def Let_def settings_kept_refl split: sum.split)
qed

lemma handle_username_settings:
  assumes "plain_name (us_uuid s)" "handle_username buf (s, w) = (r, (s', w'))"
  shows "settings_kept w w'"
proof -
  let ?p = "friend_file (us_uuid s) ''username.txt''"
  have p: "?p = [''friends'', us_uuid s, ''username.txt'']" by (rule friend_file_eq(4) [OF assms(1)])
  have "settings_kept w (w\<lparr>w_fs := fs_write fs ?p x\<rparr>)" if "fs_remove (w_fs w) ?p = Inr fs" for fs x
    using fs_remove_other [OF that] p by (auto simp: settings_kept_def fs_read_simps)
  then show ?thesis
    using assms(2) by (auto simp: handle_username_def Let_def settings_kept_refl split: sum.splits if_splits)
qed

lemma handle_key_settings:
  assumes "plain_name (us_uuid s)" "handle_key ev actual (s, w) = (r, (s', w'))"
  shows "settings_kept w w'"
proof -
  have "settings_kept w (w\<lparr>w_fs := fs_write (w_fs w) (friend_file (us_uuid s) ''AES'') x\<rparr>)" for x
    using friend_file_eq(3) [OF assms(1)] by (simp add: settings_write)
  then show ?thesis using assms(2)
    by (auto simp: handle_key_def Let_def settings_kept_refl split: sum.splits if_splits)
qed

lemma received_dir_settings:
  assumes "create_directories (w_fs w) (resolve (received_dir u)) = Inr fs"
  shows "settings_kept w (w\<lparr>w_fs := fs\<rparr>)"
  using create_directories_made(3) [OF assms] by (simp add: settings_kept_def)

lemma handle_file_header_settings:
  assumes "plain_name (us_uuid s)" "handle_file_header MID actual (s, w) = (r, (s', w'))"
  shows "settings_kept w w'"
  using assms received_dir_settings
  by (auto simp: handle_file_header_def Let_def settings_kept_refl split: sum.splits)

lemma handle_file_data_settings:
  assumes "plain_name (us_uuid s)" "udp_ok s" "handle_file_data ev MID PID actual (s, w) = (r, (s', w'))"
  shows "settings_kept w w'"
proof -
  have "settings_kept w (w\<lparr>w_fs := fs_write fs (resolve (received_dir (us_uuid s) @ if_name f)) x\<rparr>)"
    if "map_of (us_incoming s) MID = Some f" "create_directories (w_fs w) (resolve (received_dir (us_uuid s))) = Inr fs"
    for f fs x
  proof -
    have "plain_name (if_name f)"
      using that(1) assms(2) by (auto simp: udp_ok_def file_ok_def safe_name_def dest!: map_of_SomeD)
    then have "settings_kept (w\<lparr>w_fs := fs\<rparr>) (w\<lparr>w_fs := fs_write fs (resolve (received_dir (us_uuid s) @ if_name f)) x\<rparr>)"
      using settings_write(1) [of "resolve (received_dir (us_uuid s) @ if_name f)" "w\<lparr>w_fs := fs\<rparr>"]
        received_paths(2) [OF assms(1)] by simp
    then show ?thesis by (rule settings_kept_trans [OF received_dir_settings [OF that(2)]])
  qed
  then show ?thesis
    using assms(3) by (auto simp: handle_file_data_def Let_def settings_kept_refl split: option.splits sum.splits if_splits)
qed

lemma dispatch_settings:
  assumes "plain_name (us_uuid s)" "udp_ok s" "dispatch ev buf (s, w) = (r, (s', w'))"
  shows "settings_kept w w'"
  using assms handle_text_settings [OF assms(1), of w ev "actual_data buf"]
  by (auto simp: dispatch_def handle_control_def handle_public_key_def handle_file_def Let_def settings_kept_refl
      dest: handle_username_settings handle_key_settings send_AES_settings handle_file_header_settings
        handle_file_data_settings split: if_splits)

lemma receive_settings:
  assumes "plain_name (us_uuid s)" "udp_ok s" "handle_receive ev error (s, w) = (r, (s', w'))"
  shows "settings_kept w w'"
proof -
  let ?s = "s\<lparr>us_receiving := False\<rparr>" and ?w = "packet_seen (us_uuid s) w"
  have s: "plain_name (us_uuid ?s)" "udp_ok ?s" using assms(1,2) by (simp_all add: udp_ok_receiving)
  obtain r1 s1 w1 where d: "dispatch ev (us_recv_buffer s) (?s, ?w) = (r1, (s1, w1))" by (metis prod.exhaust)
  have "settings_kept ?w w1" by (rule dispatch_settings [OF s d])
  then have "settings_kept w w1" by (simp add: settings_kept_def packet_seen_def)
  then show ?thesis
    using assms(3) d
    by (auto simp: handle_receive_def listen_again_def Let_def settings_kept_refl split: if_splits sum.splits)
qed

fun own_event :: "udp_event \<Rightarrow> bool" where
  "own_event (Elsewhere _) = False"
| "own_event _ = True"

lemma step_settings:
  assumes "plain_name (us_uuid s)" "udp_ok s" "own_event e" "udp_step ev nt e (s, w) = (r, (s', w'))"
  shows "settings_kept w w'"
proof (cases e)
  case (Datagram d)
  have "plain_name (us_uuid (deliver d s))" "udp_ok (deliver d s)"
    using assms(1,2) by (simp_all add: udp_ok_deliver)
  then show ?thesis
    using assms(4) Datagram receive_settings [of "deliver d s" ev False w r s' w']
    by (auto simp: receive_def settings_kept_refl split: if_splits)
next
  case (SendText m)
  then show ?thesis using assms(4) send_text_settings [of w ev m s] by simp
qed (use assms in \<open>auto simp: settings_kept_refl split: if_splits prod.splits
      dest: receive_settings punch_settings transmit_settings send_ECC_settings\<close>)

section \<open>Genuine datagrams\<close>

definition genuine :: "byte list \<Rightarrow> bool" where
  "genuine d \<longleftrightarrow> length d = 512 \<and> \<not> overreads d"

definition settings_ok :: "filesys \<Rightarrow> bool" where
  "settings_ok fs \<longleftrightarrow>
     (\<forall>n. fs_read fs [''user_settings'', ''name.txt''] = Some n \<longrightarrow> length n < 494)
     \<and> (\<forall>k. fs_read fs [''user_settings'', ''ECC_PUB''] = Some k \<longrightarrow> 31 \<le> length k)"

lemma settings_paths:
  "resolve ''./user_settings/name.txt'' = [''user_settings'', ''name.txt'']"
  "resolve ''./user_settings/ECC_PUB'' = [''user_settings'', ''ECC_PUB'']"
  by code_simp+

lemma settings_read:
  "settings_ok (w_fs w) \<Longrightarrow> read_file (w_fs w) ''./user_settings/name.txt'' = Inr n \<Longrightarrow> length n < 494"
  "settings_ok (w_fs w) \<Longrightarrow> read_file (w_fs w) ''./user_settings/ECC_PUB'' = Inr k \<Longrightarrow> 31 \<le> length k"
  by (simp_all add: read_file_def settings_paths settings_ok_def split: option.splits)

lemma settings_ok_kept: "settings_ok (w_fs w) \<Longrightarrow> settings_kept w w' \<Longrightarrow> settings_ok (w_fs w')"
  by (simp add: settings_ok_def settings_kept_def)

lemma packet_nth: "packet_ok p \<Longrightarrow> i < 495 \<Longrightarrow> get_bytes p ! (13 + i) = pk_message p ! i"
  by (simp add: get_bytes_def nth_append packet_ok_def)

lemma packet_tail:
  "packet_ok p \<Longrightarrow> drop 14 (get_bytes p) = tl (pk_message p) @ put32 (pk_checksum p)"
  by (cases "pk_message p") (simp_all add: get_bytes_def packet_ok_def)

lemma overreads_packet:
  assumes "packet_ok p"
  shows "overreads (get_bytes p) \<longleftrightarrow> pk_type p = byte_of CHR ''O''
    \<and> (pk_message p ! 0 = byte_of CHR ''N'' \<and> 0 \<notin> set (tl (pk_message p) @ put32 (pk_checksum p))
       \<or> pk_message p ! 0 = byte_of CHR ''A'' \<and> get16 (pk_message p ! 1) (pk_message p ! 2) > 492)"
  using packet_fields [OF assms] packet_nth [OF assms, of 0] packet_nth [OF assms, of 1]
    packet_nth [OF assms, of 2] packet_tail [OF assms]
  by (simp add: overreads_def)

lemma genuine_packet:
  assumes "packet_ok p" "pk_type p = byte_of CHR ''O'' \<Longrightarrow>
      (pk_message p ! 0 = byte_of CHR ''N'' \<longrightarrow> 0 \<in> set (tl (pk_message p)))
      \<and> (pk_message p ! 0 = byte_of CHR ''A'' \<longrightarrow> get16 (pk_message p ! 1) (pk_message p ! 2) \<le> 492)"
  shows "genuine (get_bytes p)"
  using assms length_get_bytes [OF assms(1)] by (auto simp: genuine_def overreads_packet not_less)

lemma letters_differ:
  "byte_of CHR ''T'' \<noteq> byte_of CHR ''O''" "byte_of CHR ''F'' \<noteq> byte_of CHR ''O''"
  "byte_of CHR ''P'' \<noteq> byte_of CHR ''N''" "byte_of CHR ''P'' \<noteq> byte_of CHR ''A''"
  "byte_of CHR ''A'' \<noteq> byte_of CHR ''N''" "byte_of CHR ''N'' \<noteq> byte_of CHR ''A''"
  by (simp_all add: byte_of_def)

text \<open>The packet that announces a name reads past the buffer exactly when it is too long.\<close>

lemma name_packet_overreads:
  "overreads (get_bytes (packet_of_string (byte_of CHR ''O'') 0 mid pid (bytes_of (CHR ''N'' # name)))) \<longleftrightarrow>
     494 \<le> length name \<and> 0 \<notin> set (take 494 (bytes_of name))
     \<and> 0 \<notin> set (put32 (CRC32 (bytes_of (CHR ''N'' # take 494 name))))"
proof -
  let ?p = "packet_of_string (byte_of CHR ''O'') 0 mid pid (bytes_of (CHR ''N'' # name))"
  have m: "pk_message ?p = byte_of CHR ''N'' # take 494 (bytes_of name) @ replicate (494 - length name) 0"
    by (cases "494 \<le> length name") (simp_all add: pad495_def take_Cons' min_def)
  show ?thesis
  proof (cases "494 \<le> length name")
    case True
    then have "pk_message ?p = bytes_of (CHR ''N'' # take 494 name)" using m by (simp add: take_map)
    moreover have "pk_checksum ?p = CRC32 (pk_message ?p)" using packet_of_string_ok unfolding packet_ok_def by blast
    ultimately show ?thesis using True m letters_differ by (simp add: overreads_packet)
  next
    case False
    then have "0 \<in> set (replicate (494 - length name) (0 :: byte))" by simp
    then show ?thesis using False m letters_differ by (simp add: overreads_packet)
  qed
qed

section \<open>Clients send genuine datagrams only\<close>

definition outbox_ok :: "udp_server \<Rightarrow> bool" where
  "outbox_ok s \<longleftrightarrow> list_all genuine (us_outbox s)"

lemma outbox_ok_fields [simp]:
  "outbox_ok (s\<lparr>us_receiving := b\<rparr>) = outbox_ok s" "outbox_ok (s\<lparr>us_punching := b\<rparr>) = outbox_ok s"
  "outbox_ok (s\<lparr>us_recv_buffer := l\<rparr>) = outbox_ok s" "outbox_ok (s\<lparr>us_transfer := t\<rparr>) = outbox_ok s"
  "outbox_ok (s\<lparr>us_incoming := i\<rparr>) = outbox_ok s" "outbox_ok (s\<lparr>us_username := n\<rparr>) = outbox_ok s"
  "outbox_ok (s\<lparr>us_open := b\<rparr>) = outbox_ok s" "outbox_ok (s\<lparr>us_port := p\<rparr>) = outbox_ok s"
  "outbox_ok (s\<lparr>us_target := tg\<rparr>) = outbox_ok s" "outbox_ok (s\<lparr>us_stopped := b\<rparr>) = outbox_ok s"
  "outbox_ok (start_receive s) = outbox_ok s" "outbox_ok (fill_buffer k s) = outbox_ok s"
  "outbox_ok (deliver d s) = outbox_ok s"
  by (simp_all add: outbox_ok_def start_receive_def fill_buffer_def deliver_def)

lemma outbox_ok_send: "outbox_ok s \<Longrightarrow> genuine d \<Longrightarrow> outbox_ok (send_arr d s)"
  by (simp add: outbox_ok_def send_arr_def)

lemma text_packets_genuine:
  "genuine (get_bytes (packet_of_string (byte_of CHR ''T'') q mid pid payload))"
  "length a = 495 \<Longrightarrow> genuine (get_bytes (packet_of_array (byte_of CHR ''F'') q mid pid a))"
  using letters_differ by (auto intro!: genuine_packet)

lemma key_packets_genuine:
  "length ks \<le> 494 \<Longrightarrow>
     genuine (get_bytes (packet_of_array (byte_of CHR ''O'') 0 mid pid (content_array (byte_of CHR ''P'' # ks))))"
  "length enc \<le> 492 \<Longrightarrow> genuine (get_bytes (packet_of_array (byte_of CHR ''O'') 0 mid pid
     (content_array (byte_of CHR ''A'' # put16 (word_of_nat (length enc)) @ enc))))"
proof -
  show "genuine (get_bytes (packet_of_array (byte_of CHR ''O'') 0 mid pid (content_array (byte_of CHR ''P'' # ks))))"
    if "length ks \<le> 494"
    using that letters_differ by (intro genuine_packet) (auto simp: content_array_def)
  show "genuine (get_bytes (packet_of_array (byte_of CHR ''O'') 0 mid pid
     (content_array (byte_of CHR ''A'' # put16 (word_of_nat (length enc)) @ enc))))" if l: "length enc \<le> 492"
  proof (rule genuine_packet)
    let ?a = "content_array (byte_of CHR ''A'' # put16 (word_of_nat (length enc)) @ enc)"
    have "get16 (?a ! 1) (?a ! 2) = word_of_nat (length enc)"
      by (simp add: content_array_def put16_def get16_put)
    moreover have "(word_of_nat (length enc) :: u16) \<le> 492"
      using l by (simp add: word_le_nat_alt unat_of_nat take_bit_eq_mod)
    ultimately show "(pk_message (packet_of_array (byte_of CHR ''O'') 0 mid pid ?a) ! 0 = byte_of CHR ''N'' \<longrightarrow>
        0 \<in> set (tl (pk_message (packet_of_array (byte_of CHR ''O'') 0 mid pid ?a))))
      \<and> (pk_message (packet_of_array (byte_of CHR ''O'') 0 mid pid ?a) ! 0 = byte_of CHR ''A'' \<longrightarrow>
        get16 (pk_message (packet_of_array (byte_of CHR ''O'') 0 mid pid ?a) ! 1)
          (pk_message (packet_of_array (byte_of CHR ''O'') 0 mid pid ?a) ! 2) \<le> 492)"
      using letters_differ by (simp add: content_array_def)
  qed (use l in \<open>simp add: content_array_def\<close>)
qed

lemma send_text_outbox: "outbox_ok s \<Longrightarrow> outbox_ok (fst (send_text ev msg (s, w)))"
  by (auto simp: send_text_def Let_def intro!: outbox_ok_send text_packets_genuine split: prod.split)

lemma send_file_outbox: "outbox_ok s \<Longrightarrow> outbox_ok (send_file mid data name s)"
  by (auto simp: send_file_def Let_def length_file_header intro!: outbox_ok_send text_packets_genuine)

lemma piece_packet_genuine: "piece_packet mid n i enc = Inr p \<Longrightarrow> genuine (get_bytes p)"
  by (auto simp: piece_packet_def length_content_array intro!: text_packets_genuine split: if_splits)

lemma transmit_outbox:
  "outbox_ok s \<Longrightarrow> transmit_fires ev (s, w) = (r, (s', w')) \<Longrightarrow> outbox_ok s'"
  by (auto simp: transmit_fires_def send_file_packet_def Let_def intro!: outbox_ok_send
      dest: piece_packet_genuine split: option.splits if_splits prod.splits sum.splits)

lemma send_ECC_outbox: "outbox_ok s \<Longrightarrow> send_ECC_public_key (s, w) = (r, (s', w')) \<Longrightarrow> outbox_ok s'"
  by (auto simp: send_ECC_public_key_def Let_def intro!: outbox_ok_send key_packets_genuine
      split: sum.splits if_splits prod.splits)

lemma send_AES_outbox: "outbox_ok s \<Longrightarrow> send_encrypted_AES_key ev pub (s, w) = (r, (s', w')) \<Longrightarrow> outbox_ok s'"
  using key_packets_genuine(2) [of "bytes_of m" for m]
  by (auto simp: send_encrypted_AES_key_def Let_def intro!: outbox_ok_send
      split: sum.splits if_splits prod.splits)

lemma punch_outbox:
  assumes "outbox_ok s" "settings_ok (w_fs w)" "udp_punch (s, w) = (r, (s', w'))"
  shows "outbox_ok s'"
proof -
  have "genuine (get_bytes (packet_of_string (byte_of CHR ''O'') 0 mid pid (bytes_of (CHR ''N'' # name))))"
    if "read_file (w_fs w) ''./user_settings/name.txt'' = Inr name" for name mid pid
    using settings_read(1) [OF assms(2) that] name_packet_overreads [of mid pid name] length_get_bytes
    by (simp add: genuine_def)
  then show ?thesis
    using assms(1,3) by (auto simp: udp_punch_def Let_def intro!: outbox_ok_send split: sum.splits if_splits prod.splits)
qed

lemma handlers_outbox:
  "us_outbox (fst (handle_text ev actual (s, w))) = us_outbox s"
  "us_outbox (fst (snd (handle_username buf (s, w)))) = us_outbox s"
  "us_outbox (fst (snd (handle_key ev actual (s, w)))) = us_outbox s"
  "us_outbox (fst (snd (handle_file_header MID actual (s, w)))) = us_outbox s"
  "us_outbox (fst (snd (handle_file_data ev MID PID actual (s, w)))) = us_outbox s"
  "us_outbox (snd (change_target nt i j ip s)) = us_outbox s" "us_outbox (stop s) = us_outbox s"
  by (auto simp: handle_text_def handle_username_def handle_key_def handle_file_header_def handle_file_data_def
      change_target_def stop_def start_receive_def fill_buffer_def Let_def split: prod.split sum.split option.split)

lemma dispatch_outbox:
  assumes "outbox_ok s"
  shows "outbox_ok (fst (snd (dispatch ev buf (s, w))))"
proof -
  have "outbox_ok (fst (snd (send_encrypted_AES_key ev pub (s, w))))" for pub
    using send_AES_outbox [OF assms] by (metis prod.collapse)
  then show ?thesis
    using assms handlers_outbox
    by (simp add: dispatch_def handle_control_def handle_public_key_def handle_file_def Let_def outbox_ok_def)
qed

lemma receive_outbox:
  assumes "outbox_ok s" "handle_receive ev error (s, w) = (r, (s', w'))"
  shows "outbox_ok s'"
proof -
  let ?s = "s\<lparr>us_receiving := False\<rparr>" and ?w = "packet_seen (us_uuid s) w"
  obtain r1 s1 w1 where d: "dispatch ev (us_recv_buffer s) (?s, ?w) = (r1, (s1, w1))" by (metis prod.exhaust)
  have "outbox_ok s1" using dispatch_outbox [of ?s ev "us_recv_buffer s" ?w] assms(1) d by simp
  then show ?thesis
    using assms d by (auto simp: handle_receive_def listen_again_def Let_def split: if_splits sum.splits)
qed

lemma step_outbox:
  assumes "outbox_ok s" "settings_ok (w_fs w)" "udp_step ev nt e (s, w) = (r, (s', w'))"
  shows "outbox_ok s'"
proof (cases e)
  case (Datagram d)
  then show ?thesis
    using assms receive_outbox [of "deliver d s" ev False w r s' w'] by (auto simp: receive_def split: if_splits)
next
  case (Retarget i j ip)
  then show ?thesis using assms handlers_outbox(6) [of nt i j ip s] by (auto simp: outbox_ok_def split: prod.splits)
next
  case (SendText m)
  then show ?thesis using assms send_text_outbox [of s ev m w] by simp
next
  case (SendFile mid data name)
  then show ?thesis using assms send_file_outbox by auto
next
  case Stop
  then show ?thesis using assms by (auto simp: stop_def)
qed (use assms in \<open>auto split: if_splits dest: receive_outbox punch_outbox transmit_outbox send_ECC_outbox\<close>)

section \<open>No step has undefined behaviour\<close>

lemma transmit_not_ub:
  assumes "evp_laws ev" "entropy_ok (w_entropy w)"
  shows "\<not> is_ub (fst (transmit_fires ev (s, w)))"
proof -
  have "length enc \<le> 493" if e: "encrypt_piece ev (file_piece data k) (t, w) = (Inr enc, e')" for data k t enc e'
  proof -
    obtain key where key: "load_key (w_fs w) (us_uuid t) = Inr key"
      "aes_encrypt ev (string_of (file_piece data k)) key (w_entropy w) = (Inr enc, e')"
      using e by (auto simp: encrypt_piece_def split: sum.splits)
    have "length enc = 16 + 16 * (length (string_of (file_piece data k)) div 16 + 1)"
      using aes_encryptE [OF assms load_key_length [OF key(1)], of "string_of (file_piece data k)"] key(2) by force
    then show ?thesis using file_piece_length [of data k] by simp
  qed
  then show ?thesis
    by (auto simp: transmit_fires_def send_file_packet_def piece_packet_def Let_def is_ub_Inl
        split: option.split prod.split sum.split) (fastforce simp: not_less)+
qed

lemma step_not_ub:
  assumes "evp_laws ev" "entropy_ok (w_entropy w)" "settings_ok (w_fs w)" "udp_ok s"
    and "\<And>d. e = Datagram d \<Longrightarrow> genuine d"
  shows "\<not> is_ub (fst (udp_step ev nt e (s, w)))"
proof (cases e)
  case (Datagram d)
  have "listening s" if "us_receiving s" using assms(4) that by (auto simp: listening_def udp_ok_def)
  then show ?thesis
    using receive_ub_exactly [OF assms(1,2), of s d] assms(5) Datagram by (simp add: genuine_def)
next
  case SendKey
  have "31 \<le> length k" if "read_file (w_fs w) ''./user_settings/ECC_PUB'' = Inr k" for k
    by (rule settings_read(2) [OF assms(3) that])
  then show ?thesis using SendKey
    by (auto simp: send_ECC_public_key_def Let_def read_file_def throw_def is_ub_Inl split: sum.split option.splits prod.split)
next
  case TransmitTimer
  then show ?thesis using transmit_not_ub [OF assms(1,2)] by simp
qed (auto simp: handle_receive_def udp_punch_def change_target_def read_file_def throw_def Let_def split: option.split prod.split)

section \<open>The network\<close>

record network =
  nw_hosts :: "app list"
  nw_sent :: "byte list set"

definition known_event :: "byte list set \<Rightarrow> udp_event \<Rightarrow> bool" where
  "known_event sent e \<longleftrightarrow> own_event e \<and> (\<forall>d. e = Datagram d \<longrightarrow> d \<in> sent)"

text \<open>
  A connection is opened; something happens to one; time passes. Which connection gets which datagram
  is left open, since a socket takes datagrams from everybody.
\<close>

inductive net_step :: "evp \<Rightarrow> net \<Rightarrow> byte list \<Rightarrow> network \<Rightarrow> network \<Rightarrow> bool" for ev nt garbage where
  opened: "i < length (nw_hosts n) \<Longrightarrow> a = nw_hosts n ! i \<Longrightarrow> plain_name u \<Longrightarrow>
     new_udp_server nt ip op addr u garbage (ap_world a) = (Inr s, w) \<Longrightarrow>
     net_step ev nt garbage n \<lparr>nw_hosts = (nw_hosts n)[i := \<lparr>ap_world = w, ap_conns = AList.update u (Some s) (ap_conns a)\<rparr>],
       nw_sent = nw_sent n \<union> set (us_outbox s)\<rparr>"
| moved: "i < length (nw_hosts n) \<Longrightarrow> a = nw_hosts n ! i \<Longrightarrow> map_of (ap_conns a) u = Some (Some s) \<Longrightarrow>
     known_event (nw_sent n) e \<Longrightarrow> udp_step ev nt e (s, ap_world a) = (r, (s', w)) \<Longrightarrow>
     net_step ev nt garbage n \<lparr>nw_hosts = (nw_hosts n)[i := \<lparr>ap_world = w, ap_conns = AList.update u (Some s') (ap_conns a)\<rparr>],
       nw_sent = nw_sent n \<union> set (us_outbox s')\<rparr>"
| waited: "i < length (nw_hosts n) \<Longrightarrow> a = nw_hosts n ! i \<Longrightarrow> time_passes (ap_world a) w \<Longrightarrow> entropy_ok (w_entropy w) \<Longrightarrow>
     net_step ev nt garbage n \<lparr>nw_hosts = (nw_hosts n)[i := a\<lparr>ap_world := w\<rparr>], nw_sent = nw_sent n\<rparr>"

inductive_cases net_stepE: "net_step ev nt garbage n n'"

definition net_start :: "network \<Rightarrow> bool" where
  "net_start n \<longleftrightarrow> nw_sent n = {} \<and> (\<forall>a \<in> set (nw_hosts n).
     ap_conns a = [] \<and> settings_ok (app_fs a) \<and> entropy_ok (w_entropy (ap_world a)))"

definition peer_ok :: "string \<Rightarrow> udp_server \<Rightarrow> bool" where
  "peer_ok u s \<longleftrightarrow> filed u s \<and> plain_name u \<and> outbox_ok s"

definition host_ok :: "app \<Rightarrow> bool" where
  "host_ok a \<longleftrightarrow> each_connection peer_ok (ap_conns a) \<and> settings_ok (app_fs a) \<and> entropy_ok (w_entropy (ap_world a))"

definition net_ok :: "network \<Rightarrow> bool" where
  "net_ok n \<longleftrightarrow> (\<forall>a \<in> set (nw_hosts n). host_ok a) \<and> (\<forall>d \<in> nw_sent n. genuine d)"

lemma net_ok_change:
  assumes "net_ok n" "host_ok a" "\<And>d. d \<in> new \<Longrightarrow> genuine d"
  shows "net_ok \<lparr>nw_hosts = (nw_hosts n)[i := a], nw_sent = nw_sent n \<union> new\<rparr>"
  using assms set_update_subset_insert [of "nw_hosts n" i a] by (auto simp: net_ok_def)

lemma opened_peer:
  assumes "new_udp_server nt ip op addr u garbage w = (Inr s, w')" "length garbage = 512" "plain_name u" "settings_ok (w_fs w)"
  shows "peer_ok u s \<and> settings_kept w w'"
proof -
  obtain t s1 w1 x name where s0:
    "udp_punch (start_receive (blank_server u (word_of_int ip) t garbage), w) = (Inr x, (s1, w1))"
    "s = (fill_buffer 64 s1)\<lparr>us_username := name\<rparr>" "w' = w1"
    using assms(1) by (auto simp: new_udp_server_def Let_def split: if_splits option.splits sum.splits prod.splits)
  have "outbox_ok (start_receive (blank_server u (word_of_int ip) t garbage))"
    by simp (simp add: outbox_ok_def blank_server_def)
  then have "outbox_ok s1" by (rule punch_outbox [OF _ assms(4) s0(1)])
  then show ?thesis
    using fit.new_fine [OF assms(1)] assms(2,3) s0(2,3) punch_settings [OF s0(1)] by (simp add: peer_ok_def fit_def)
qed

lemma net_step_ok:
  assumes "net_step ev nt garbage n n'" "evp_laws ev" "length garbage = 512" "net_ok n"
  shows "net_ok n'"
  using assms
proof (induction rule: net_step.induct)
  case (opened i n a u ip op addr s w)
  have a: "host_ok a" using opened.hyps(1,2) opened.prems(3) by (auto simp: net_ok_def)
  have p: "peer_ok u s \<and> settings_kept (ap_world a) w"
    using opened_peer [OF opened.hyps(4) opened.prems(2) opened.hyps(3)] a by (simp add: host_ok_def app_fs_def)
  then have "host_ok \<lparr>ap_world = w, ap_conns = AList.update u (Some s) (ap_conns a)\<rparr>"
    using a settings_ok_kept [of "ap_world a" w]
    by (auto simp: host_ok_def app_fs_def settings_kept_def intro!: each_connection_update)
  then show ?case
    by (rule net_ok_change [OF opened.prems(3)]) (use p in \<open>auto simp: peer_ok_def outbox_ok_def list_all_iff\<close>)
next
  case (moved i n a u s e r s' w)
  have a: "host_ok a" using moved.hyps(1,2) moved.prems(3) by (auto simp: net_ok_def)
  then have s: "peer_ok u s" using each_connectionD moved.hyps(3) by (auto simp: host_ok_def)
  have kept: "settings_kept (ap_world a) w"
    by (rule step_settings [OF _ _ _ moved.hyps(5)])
      (use s moved.hyps(4) in \<open>simp_all add: peer_ok_def filed_def known_event_def\<close>)
  have "outbox_ok s'"
    by (rule step_outbox [OF _ _ moved.hyps(5)]) (use s a in \<open>simp_all add: peer_ok_def host_ok_def app_fs_def\<close>)
  then have p: "peer_ok u s'" using s filed_step [OF _ moved.hyps(5)] by (simp add: peer_ok_def)
  then have "host_ok \<lparr>ap_world = w, ap_conns = AList.update u (Some s') (ap_conns a)\<rparr>"
    using a kept settings_ok_kept [of "ap_world a" w]
    by (auto simp: host_ok_def app_fs_def settings_kept_def intro!: each_connection_update)
  then show ?case
    by (rule net_ok_change [OF moved.prems(3)]) (use p in \<open>auto simp: peer_ok_def outbox_ok_def list_all_iff\<close>)
next
  case (waited i n a w)
  have "host_ok (a\<lparr>ap_world := w\<rparr>)"
    using waited by (auto simp: net_ok_def host_ok_def app_fs_def time_passes_def)
  then show ?case using net_ok_change [OF waited.prems(3), of _ "{}" i] by simp
qed

lemma net_start_ok: "net_start n \<Longrightarrow> net_ok n"
  by (auto simp: net_start_def net_ok_def host_ok_def)

interpretation net: machine net_start "net_step ev nt garbage"
    "\<lambda>n. evp_laws ev \<longrightarrow> length garbage = 512 \<longrightarrow> net_ok n" for ev nt garbage
  by unfold_locales (auto intro: net_start_ok net_step_ok)


lemma friend_fs_settings: "settings_ok friend_fs"
  by (simp add: settings_ok_def friend_fs_def fs_read_def is_directory_def)

lemma plain_f: "plain_name ''f''"
  by (simp add: plain_name_def is_sep_def)


text \<open>
  A name of 494 characters or more. The packet that announces it has no room for a terminating
  zero byte, and the friend that receives it reads the name past the end of its buffer, unless one
  of the four bytes of the checksum behind it happens to be zero. Nothing limits the name
  when it is set.
\<close>

lemma long_name_overreads:
  assumes "evp_laws ev" "entropy_ok (w_entropy v)" "listening r" "\<not> us_stopped s"
    and "read_file (w_fs w) ''./user_settings/name.txt'' = Inr name" "494 \<le> length name" "0 \<notin> set (bytes_of name)"
  shows "\<exists>d. us_outbox (fst (snd (udp_punch (s, w)))) = us_outbox s @ [d]
    \<and> (is_ub (fst (receive ev d (r, v))) \<longleftrightarrow> 0 \<notin> set (put32 (CRC32 (bytes_of (CHR ''N'' # take 494 name)))))"
proof -
  obtain mid pid where p: "us_outbox (fst (snd (udp_punch (s, w)))) = us_outbox s @
      [get_bytes (packet_of_string (byte_of CHR ''O'') 0 mid pid (bytes_of (CHR ''N'' # name)))]"
    using assms(4,5) by (simp add: udp_punch_def Let_def next_rand_def send_arr_def)
  have "0 \<notin> set (take 494 (bytes_of name))" using assms(7) in_set_takeD by fastforce
  then show ?thesis
    using receive_ub_exactly [OF assms(1-3) length_get_bytes [OF packet_of_string_ok]]
      name_packet_overreads assms(6) by (intro exI [of _ "get_bytes (packet_of_string (byte_of CHR ''O'') 0 mid pid (bytes_of (CHR ''N'' # name)))"])
      (simp add: p)
qed

definition long_name_fs :: filesys where
  "long_name_fs = \<lparr>fs_files = [([''user_settings'', ''name.txt''], replicate 500 (CHR ''x''))], fs_dirs = []\<rparr>"

lemma long_name_overreads_witness:
  "\<exists>d. us_outbox (fst (snd (udp_punch (sample_server ''f'', sample_world long_name_fs)))) = [d]
    \<and> (is_ub (fst (receive plain_evp d (sample_server ''g'', sample_world (sample_fs [])))) \<longleftrightarrow>
         0 \<notin> set (put32 (CRC32 (bytes_of (CHR ''N'' # replicate 494 (CHR ''x''))))))"
proof -
  have "read_file (w_fs (sample_world long_name_fs)) ''./user_settings/name.txt'' = Inr (replicate 500 (CHR ''x''))"
    by (simp add: read_file_def settings_paths sample_world_def) (simp add: long_name_fs_def fs_read_def is_directory_def)
  from long_name_overreads [OF plain_evp_laws _ _ _ this, of "sample_world (sample_fs [])" "sample_server ''g''" "sample_server ''f''"]
  show ?thesis by (simp add: plain_entropy_ok byte_of_def)
qed

end
