(* ===== verification/Survival.thy ===== *)
theory Survival
  imports Network UdpKeys
begin

text \<open>
  What ends the client. \<open>main\<close> runs \<open>io.run()\<close> without a \<open>try\<close>, so an exception that leaves a completion handler ends the
  program, and so does, in the best case, undefined behaviour. For every handler that the runtime may run this
  theory says exactly when one of the two happens.
\<close>

section \<open>Datagrams\<close>

text \<open>The second draw of \<open>send_encrypted_AES_key\<close> is the ephemeral key; \<open>EVP_PKEY_derive\<close> refuses some peers' keys.\<close>

definition ephemeral :: "entropy \<Rightarrow> byte list" where
  "ephemeral e = snd (shd (stl e) 32)"

lemma wrapping_fails:
  assumes "evp_laws ev" "entropy_ok (w_entropy w)"
  shows "(\<exists>e. fst (send_encrypted_AES_key ev pub (s, w)) = Inl e)
    \<longleftrightarrow> x25519_derive ev (ephemeral (w_entropy w)) pub = None"
proof -
  let ?e = "stl (w_entropy w)" and ?k = "ephemeral (w_entropy w)"
  have h: "shd (w_entropy w) \<in> sset (w_entropy w)" "shd ?e \<in> sset (w_entropy w)"
    by (simp_all add: stl_sset shd_sset)
  have f: "fst (shd ?e 32)" "length ?k = 32" using assms(2) h by (auto simp: entropy_ok_def ephemeral_def)
  obtain p where p: "x25519_public ev ?k = Some p" "length p = 32" using assms(1) f(2) by (auto simp: evp_laws_def)
  have g: "generate_AES (w_fs w) (us_uuid s) (w_entropy w) = (snd (shd (w_entropy w) 32),
      fs_write (w_fs w) (friend_file (us_uuid s) ''AES'') (hex_string (snd (shd (w_entropy w) 32))), ?e)"
    by (simp add: generate_AES_def rand_bytes_def split: prod.split)
  have k: "keygen ?e = (Some ?k, stl ?e)" using f(1) by (cases "shd ?e 32") (simp add: keygen_def rand_bytes_def ephemeral_def)
  show ?thesis
  proof (cases "x25519_derive ev ?k pub")
    case None
    then show ?thesis using p by (simp add: send_encrypted_AES_key_def g encrypt_ECC_def k throw_def)
  next
    case (Some secret)
    let ?key = "snd (shd (w_entropy w) 32)"
    have key: "length ?key = 32" "entropy_ok ?e" using assms(2) h by (auto simp: entropy_ok_def dest: stl_sset)
    have "entropy_ok (stl ?e)" using key(2) by (auto simp: entropy_ok_def dest: stl_sset)
    moreover have "length (sha256 ev secret) = 32" using assms(1) by (simp add: evp_laws_def)
    ultimately obtain c e2 where c: "aes_encrypt ev (string_of ?key) (sha256 ev secret) (stl ?e) = (Inr c, e2)"
      using aes_encryptE [OF assms(1)] by metis
    then have m: "encrypt_ECC ev ?key pub ?e = (Inr (string_of p @ string_of c), e2)"
      using p Some by (simp add: encrypt_ECC_def k)
    from encrypt_ECC_length [OF assms(1) key(2,1) this] have "length p + length c = 96" by simp
    then show ?thesis using Some by (simp add: send_encrypted_AES_key_def g m next_rand_def)
  qed
qed

text \<open>A public key packet whose key is refused.\<close>

definition refused_key :: "evp \<Rightarrow> entropy \<Rightarrow> byte list \<Rightarrow> bool" where
  "refused_key ev e d \<longleftrightarrow> accepts d \<and> d ! 1 = byte_of CHR ''O'' \<and> d ! 13 = byte_of CHR ''P''
     \<and> (\<forall>i < 32. d ! (14 + i) = d ! (46 + i) \<and> d ! (46 + i) = d ! (78 + i))
     \<and> x25519_derive ev (ephemeral e) (take 32 (drop 14 d)) = None"

text \<open>The friend's directories can be made, and the name can be replaced.\<close>

definition disk_ready :: "filesys \<Rightarrow> string \<Rightarrow> bool" where
  "disk_ready fs u \<longleftrightarrow> (\<exists>fs'. create_directories fs (resolve (received_dir u)) = Inr fs')
     \<and> (\<exists>fs'. fs_remove fs (friend_file u ''username.txt'') = Inr fs')"

lemma handle_public_key_fails:
  assumes "evp_laws ev" "entropy_ok (w_entropy w)" "length d = 512" "CRC32 (actual_data d) = received_checksum d"
  shows "(\<exists>e. fst (handle_public_key ev d (actual_data d) (s, w)) = Inl e) \<longleftrightarrow>
    (\<forall>i < 32. d ! (14 + i) = d ! (46 + i) \<and> d ! (46 + i) = d ! (78 + i))
    \<and> x25519_derive ev (ephemeral (w_entropy w)) (take 32 (drop 14 d)) = None"
proof -
  have "take 32 (drop 1 (actual_data d)) = take 32 (drop 14 d)" using assms(3) by (simp add: actual_data_eq drop_take)
  moreover have "list_all (\<lambda>i. actual_data d ! (1 + i) = actual_data d ! (33 + i)
      \<and> actual_data d ! (33 + i) = actual_data d ! (65 + i)) [0..<32]
    \<longleftrightarrow> (\<forall>i < 32. d ! (14 + i) = d ! (46 + i) \<and> d ! (46 + i) = d ! (78 + i))"
    using assms(3) by (auto simp: list_all_iff actual_nth)
  ultimately show ?thesis
    using wrapping_fails [OF assms(1,2), of "take 32 (drop 14 d)" s] assms(4)
    by (simp add: handle_public_key_def Let_def)
qed

lemma handle_username_fails:
  assumes "disk_ready (w_fs w) (us_uuid s)"
  shows "(\<exists>e. fst (handle_username buf (s, w)) = Inl e) \<longleftrightarrow> 0 \<notin> set (drop 14 buf)"
  using assms by (auto simp: handle_username_def c_string_def disk_ready_def Let_def split: sum.split)

lemma handle_key_fails:
  assumes "length d = 512"
  shows "(\<exists>e. fst (handle_key ev (actual_data d) (s, w)) = Inl e) \<longleftrightarrow> get16 (d ! 14) (d ! 15) > 492"
proof -
  have n: "actual_data d ! 1 = d ! 14" "actual_data d ! 2 = d ! 15" "length (actual_data d) = 495"
    using assms by (simp_all add: actual_nth) (simp add: actual_data_eq)
  show ?thesis unfolding handle_key_def word16_gt n by (simp add: Let_def split: sum.split)
qed

lemma handle_file_header_fails:
  assumes "disk_ready (w_fs w) (us_uuid s)"
  shows "fst (handle_file_header MID actual (s, w)) \<noteq> Inl e"
proof -
  obtain fs where fs: "create_directories (w_fs w) (resolve (received_dir (us_uuid s))) = Inr fs"
    using assms by (auto simp: disk_ready_def)
  have "unique_name fs u name = Inl f \<Longrightarrow> is_ub (Inl f :: unit res)" for f u name
    by (auto simp: unique_name_def Let_def split: option.splits prod.splits if_splits)
  then show ?thesis
    using handle_file_header_safe [of MID actual s w] fs by (auto simp: handle_file_header_def Let_def split: sum.split)
qed

lemma handle_file_fails:
  assumes "disk_ready (w_fs w) (us_uuid s)"
  shows "fst (handle_file ev buf actual (s, w)) \<noteq> Inl e"
proof -
  obtain fs where fs: "create_directories (w_fs w) (resolve (received_dir (us_uuid s))) = Inr fs"
    using assms by (auto simp: disk_ready_def)
  have "fst (handle_file_data ev MID PID actual (s, w)) \<noteq> Inl e" for MID PID
    using fs by (auto simp: handle_file_data_def Let_def split: option.split sum.split)
  then show ?thesis using handle_file_header_fails [OF assms] by (simp add: handle_file_def)
qed

lemma dispatch_fails:
  assumes "evp_laws ev" "entropy_ok (w_entropy w)" "length d = 512" "disk_ready (w_fs w) (us_uuid s)" "accepts d"
  shows "(\<exists>e. fst (dispatch ev d (s, w)) = Inl e) \<longleftrightarrow> overreads d \<or> refused_key ev (w_entropy w) d"
proof -
  have a: "actual_data d ! 0 = d ! 13" "CRC32 (actual_data d) = received_checksum d"
    using assms(3,5) by (simp_all add: actual_nth accepts_def)
  have types: "byte_of CHR ''T'' \<noteq> byte_of CHR ''O''" "byte_of CHR ''N'' \<noteq> byte_of CHR ''P''"
    "byte_of CHR ''A'' \<noteq> byte_of CHR ''P''" "byte_of CHR ''N'' \<noteq> byte_of CHR ''A''"
    by (simp_all add: byte_of_def)
  note control = handle_public_key_fails [OF assms(1,2,3) a(2), of s] handle_username_fails [OF assms(4), of d]
    handle_key_fails [OF assms(3), of ev s w]
  have "(\<exists>e. fst (handle_control ev d (actual_data d) (s, w)) = Inl e) \<longleftrightarrow>
      d ! 13 = byte_of CHR ''N'' \<and> 0 \<notin> set (drop 14 d)
      \<or> d ! 13 = byte_of CHR ''P'' \<and> (\<forall>i < 32. d ! (14 + i) = d ! (46 + i) \<and> d ! (46 + i) = d ! (78 + i))
        \<and> x25519_derive ev (ephemeral (w_entropy w)) (take 32 (drop 14 d)) = None
      \<or> d ! 13 = byte_of CHR ''A'' \<and> get16 (d ! 14) (d ! 15) > 492"
    unfolding handle_control_def a(1) using control types by auto
  then show ?thesis
    using types(1) handle_file_fails [OF assms(4), of ev d "actual_data d"] assms(5)
    unfolding dispatch_def overreads_def refused_key_def by (simp add: Let_def) blast
qed

lemma receive_fails:
  assumes "evp_laws ev" "entropy_ok (w_entropy w)" "listening s" "length d = 512" "disk_ready (w_fs w) (us_uuid s)"
  shows "(\<exists>e. fst (receive ev d (s, w)) = Inl e) \<longleftrightarrow> overreads d \<or> refused_key ev (w_entropy w) d"
proof -
  let ?c = "(handling d s, packet_seen (us_uuid s) w)"
  have "(\<exists>e. fst (receive ev d (s, w)) = Inl e) \<longleftrightarrow> accepts d \<and> (\<exists>e. fst (dispatch ev d ?c) = Inl e)"
  proof -
    obtain r c where rc: "dispatch ev d ?c = (r, c)" by (cases "dispatch ev d ?c")
    have "receive ev d (s, w) = (if accepts d then
        (case dispatch ev d ?c of (Inl e, c2) \<Rightarrow> (Inl e, c2) | (Inr _, c2) \<Rightarrow> (Inr (), listen_again c2))
        else (Inr (), listen_again ?c))"
      using assms(3,4) by (simp add: receive_def handle_receive_def deliver_full handling_def listening_def Let_def)
    then show ?thesis using rc by (cases r) simp_all
  qed
  moreover have "accepts d \<Longrightarrow> (\<exists>e. fst (dispatch ev d ?c) = Inl e) \<longleftrightarrow> overreads d \<or> refused_key ev (w_entropy w) d"
    using dispatch_fails [OF assms(1) _ assms(4), of "packet_seen (us_uuid s) w" "handling d s"] assms(2,5) by simp
  ultimately show ?thesis by (auto simp: overreads_def refused_key_def)
qed

section \<open>Requests\<close>

text \<open>A friend without a connection; a public key file that is too short for the loop that copies it.\<close>

definition null_connection :: "string \<Rightarrow> app \<Rightarrow> bool" where
  "null_connection u a \<longleftrightarrow> (\<nexists>s. map_of (ap_conns a) u = Some (Some s))"

definition short_public_key :: "filesys \<Rightarrow> bool" where
  "short_public_key fs \<longleftrightarrow> (\<exists>k. read_file fs ''./user_settings/ECC_PUB'' = Inr k \<and> length k < 31)"

text \<open>Connection data of which a port is neither stored nor given.\<close>

definition ports_unset :: "filesys \<Rightarrow> string \<Rightarrow> bool" where
  "ports_unset fs u \<longleftrightarrow> (\<exists>c ip i j. fs_read fs (ip_io_file u) = Some c \<and> extract_ip_io c = (ip, i, j) \<and> (i = None \<or> j = None))"

definition update_unset :: "string \<Rightarrow> filesys \<Rightarrow> bool" where
  "update_unset request fs \<longleftrightarrow> (\<exists>u body field fvalue ip i j. path_uuid request ''POST /update_ip_data/'' = Inr u
     \<and> body_of request = Inr body \<and> quoted_after body (json_key ''field'') = Inr field
     \<and> quoted_after body (json_key ''value'') = Inr fvalue
     \<and> new_ip_data fs u field fvalue = Inr (ip, i, j) \<and> (i = None \<or> j = None))"

text \<open>The page of a selected friend shows the ports, once all of its parts have been read.\<close>

definition page_parts :: "string list" where
  "page_parts = [''./frontend/index.html'', ''./frontend/modules/javascript.js'', ''./frontend/modules/messages.html'',
     ''./frontend/modules/options.html'', ''./frontend/modules/input_bar.html'', ''./frontend/modules/chat_header.html'',
     ''./frontend/modules/friend_list.html'', ''./frontend/modules/top_bar.html'', ''./frontend/modules/settings_hidden.html'',
     ''./user_settings/name.txt'', ''./user_settings/server.txt'']"

definition page_unset :: "world \<Rightarrow> bool" where
  "page_unset w \<longleftrightarrow> g_selected_user w \<noteq> [] \<and> ports_unset (w_fs w) (g_selected_user w)
     \<and> list_all (\<lambda>f. fs_read (w_fs w) (resolve f) \<noteq> None) page_parts"

definition undefined_request :: "string \<Rightarrow> app \<Rightarrow> bool" where
  "undefined_request request a \<longleftrightarrow> (case route_of request of
     ExchangeKeys \<Rightarrow> (\<exists>u. path_uuid request ''GET /exchange_keys/'' = Inr u
       \<and> (null_connection u a \<or> short_public_key (app_fs a)))
   | IpData \<Rightarrow> (\<exists>u. path_tail request ''GET /ip_data/'' = Inr u \<and> u \<noteq> [] \<and> ports_unset (app_fs a) u)
   | UpdateIpData \<Rightarrow> update_unset request (app_fs a)
   | Index \<Rightarrow> page_unset (ap_world a)
   | _ \<Rightarrow> False)"

lemma read_not_ub [simp]:
  "\<not> is_ub (read_file fs f)" "\<not> is_ub (serve_file f ct fs)" "\<not> is_ub (file_size fs p)"
  by (simp_all add: read_file_def serve_file_def file_size_def is_ub_bind split: option.split)

lemma cut_not_ub [simp]:
  "\<not> is_ub (path_uuid request pat)" "\<not> is_ub (path_tail request pat)" "\<not> is_ub (img_name request pat)"
  "\<not> is_ub (body_of request)" "\<not> is_ub (quoted_after body key)" "\<not> is_ub (upload_file_name request mid)"
  by (simp_all add: path_uuid_def path_tail_def img_name_def body_of_def quoted_after_def upload_file_name_def is_ub_bind
      substr_not_ub Let_def)

lemma is_ub_case: "is_ub (fst (case r of Inl e \<Rightarrow> (Inl e, a) | Inr x \<Rightarrow> f x)) \<longleftrightarrow> is_ub r \<or> (\<exists>x. r = Inr x \<and> is_ub (fst (f x)))"
  for r :: "'a res" and f :: "'a \<Rightarrow> 'b res \<times> 'c"
  by (cases r) (auto simp: is_ub_def split: failure.split)

lemma exchange_keys_ub:
  "is_ub (fst (exchange_keys request a)) \<longleftrightarrow> (\<exists>u. path_uuid request ''GET /exchange_keys/'' = Inr u
     \<and> (null_connection u a \<or> short_public_key (app_fs a)))"
proof -
  have s: "is_ub (fst (send_ECC_public_key (s, ap_world a))) \<longleftrightarrow> short_public_key (app_fs a)" for s
    by (auto simp: send_ECC_public_key_def short_public_key_def app_fs_def read_file_def throw_def Let_def
        split: option.split prod.split)
  have "is_ub (fst (case map_of (ap_conns a) u of
        Some (Some s) \<Rightarrow> (case send_ECC_public_key (s, ap_world a) of (r, (s1, w1)) \<Rightarrow>
           (bind_res r (\<lambda>_. Inr ok_response), \<lparr>ap_world = w1, ap_conns = AList.update u (Some s1) (ap_conns a)\<rparr>))
      | _ \<Rightarrow> (Inl (UB ''member function of a null pointer''), a))) \<longleftrightarrow> null_connection u a \<or> short_public_key (app_fs a)" for u
  proof (cases "map_of (ap_conns a) u")
    case (Some c)
    show ?thesis
    proof (cases c)
      case (Some s)
      then show ?thesis using \<open>map_of (ap_conns a) u = Some c\<close> s [of s]
        by (cases "send_ECC_public_key (s, ap_world a)") (auto simp: null_connection_def is_ub_bind)
    qed (use Some in \<open>simp add: null_connection_def\<close>)
  qed (simp add: null_connection_def)
  then show ?thesis unfolding exchange_keys_def is_ub_case by simp
qed

lemma int_value_ub: "is_ub (int_value v) \<longleftrightarrow> v = None" "(\<exists>x. int_value v = Inr x) \<longleftrightarrow> v \<noteq> None"
  by (cases v; simp add: int_value_def)+

lemma get_ip_data_ub:
  "is_ub (get_ip_data request fs) \<longleftrightarrow> (\<exists>u. path_tail request ''GET /ip_data/'' = Inr u \<and> u \<noteq> [] \<and> ports_unset fs u)"
proof -
  have "is_ub (make_json_ip_ports fs u) \<longleftrightarrow> ports_unset fs u" for u
    using int_value_ub by (auto simp: make_json_ip_ports_def ports_unset_def is_ub_bind split: option.split prod.split)
  then show ?thesis by (auto simp: get_ip_data_def is_ub_bind)
qed

lemma replace_file_simps:
  "is_ub (replace_file fs p f html) \<longleftrightarrow> is_ub html"
  "(\<exists>h. replace_file fs p f html = Inr h) \<longleftrightarrow> (\<exists>h. html = Inr h) \<and> fs_read fs (resolve f) \<noteq> None"
  "is_ub (replace_text p v html) \<longleftrightarrow> is_ub html"
  "(\<exists>h. replace_text p v html = Inr h) \<longleftrightarrow> (\<exists>h. html = Inr h)"
  by (auto simp: replace_file_def replace_text_def is_ub_bind bind_res_Inr_iff read_file_def split: option.splits)

lemma friend_ports_ub:
  "(is_ub (friend_iport fs u) \<or> (\<exists>i. friend_iport fs u = Inr i) \<and> is_ub (friend_oport fs u)) \<longleftrightarrow> ports_unset fs u"
  by (cases "fs_read fs (ip_io_file u)")
    (auto simp: friend_iport_def friend_oport_def ports_unset_def int_value_ub prod_eq_iff)

lemma is_ub_bind_last: "(\<And>h. is_ub (f h) \<longleftrightarrow> B) \<Longrightarrow> is_ub (bind_res r f) \<longleftrightarrow> is_ub r \<or> (\<exists>h. r = Inr h) \<and> B"
  by (auto simp: is_ub_bind)

lemma prepare_html_ub:
  "is_ub (prepare_html w html) \<longleftrightarrow> g_selected_user w \<noteq> [] \<and> ports_unset (w_fs w) (g_selected_user w)
     \<and> list_all (\<lambda>f. fs_read (w_fs w) (resolve f) \<noteq> None) (tl page_parts)"
proof -
  let ?sel = "g_selected_user w" and ?fs = "w_fs w"
  have p: "is_ub (bind_res (if ?sel = [] then Inr (-1) else friend_iport ?fs ?sel) (\<lambda>i.
      bind_res (if ?sel = [] then Inr (-1) else friend_oport ?fs ?sel) (\<lambda>j.
      replace_text ''$$oport$$'' (port_text j) (replace_text ''$$iport$$'' (port_text i) (Inr h)))))
    \<longleftrightarrow> ?sel \<noteq> [] \<and> ports_unset ?fs ?sel" for h
    using friend_ports_ub [of ?fs ?sel] by (auto simp: is_ub_bind replace_file_simps)
  have n: "is_ub (bind_res r (\<lambda>h. bind_res (read_file ?fs f) (\<lambda>c. Inr (G h c)))) \<longleftrightarrow> is_ub r"
    "(\<exists>h. bind_res r (\<lambda>h. bind_res (read_file ?fs f) (\<lambda>c. Inr (G h c))) = Inr h)
      \<longleftrightarrow> (\<exists>h. r = Inr h) \<and> fs_read ?fs (resolve f) \<noteq> None" for r :: "string res" and f and G :: "string \<Rightarrow> string \<Rightarrow> string"
    by (auto simp: is_ub_bind bind_res_Inr_iff read_file_def split: option.splits)
  show ?thesis
    unfolding prepare_html_def Let_def is_ub_bind_last [OF p]
    by (simp only: replace_file_simps n fold.simps comp_def id_def prod.case is_ub_simps page_parts_def list.sel list.pred_inject)
      (auto simp: replace_file_simps n)
qed

lemma get_index_ub: "is_ub (get_index w) \<longleftrightarrow> page_unset w"
  by (auto simp: get_index_def is_ub_bind prepare_html_ub page_unset_def page_parts_def read_file_def throw_def split: option.splits)

lemma new_udp_server_not_ub: "\<not> is_ub (fst (new_udp_server nt i j ip u garbage w))"
proof (cases "net_resolve nt ip (show_int j)")
  case (Some target)
  let ?s = "start_receive (blank_server u (word_of_int i) target garbage)"
  obtain r s1 w1 where p: "udp_punch (?s, w) = (r, (s1, w1))" by (metis prod.exhaust)
  have "\<not> is_ub (fst (udp_punch (?s, w)))"
    by (auto simp: udp_punch_def read_file_def throw_def Let_def split: option.split prod.split)
  then have r: "\<not> is_ub r" using p by simp
  have n: "\<not> is_ub (read_file (w_fs w1) (''./friends/'' @ u @ ''/username.txt''))" by (rule read_not_ub)
  show ?thesis
    using Some p r n
    by (cases r; cases "read_file (w_fs w1) (''./friends/'' @ u @ ''/username.txt'')")
      (simp_all add: new_udp_server_def Let_def is_ub_def split: failure.splits)
qed (simp add: new_udp_server_def Let_def)

lemma apply_ip_data_not_ub: "\<not> is_ub (fst (apply_ip_data he u ip i j a))"
proof -
  have "\<not> is_ub (fst (change_target nt i j ip s))" for nt s
    by (simp add: change_target_def Let_def split: option.split)
  then have "\<not> is_ub (fst (case change_target nt i j ip s of (r, s1) \<Rightarrow> (bind_res r (\<lambda>_. Inr ok_response), f s1)))"
    for nt s and f :: "udp_server \<Rightarrow> app"
    by (auto simp: is_ub_bind split: prod.split) (metis fst_conv)
  then show ?thesis
    using new_udp_server_not_ub [of "he_net he" i j ip u "he_garbage he" "ap_world a"]
    by (auto simp: apply_ip_data_def split: option.split prod.split sum.split failure.split)
qed

lemma update_ip_data_ub: "is_ub (fst (update_ip_data he request a)) \<longleftrightarrow> update_unset request (app_fs a)"
proof -
  have "\<not> is_ub (new_ip_data fs u field fvalue)" for fs u field fvalue
    by (auto simp: new_ip_data_def is_ub_bind stoi_not_ub split: option.split prod.split)
  then show ?thesis
    unfolding update_ip_data_def is_ub_case
    using apply_ip_data_not_ub int_value_ub
    by (auto simp: is_ub_bind update_unset_def split: prod.splits)
qed

lemma serve_ub:
  "is_ub (fst (serve he (route_of request) request a)) \<longleftrightarrow> undefined_request request a"
proof (cases "route_of request")
  case AddFriend
  then show ?thesis
    by (auto simp: serve_def undefined_request_def add_friend_def Let_def create_directories_not_ub is_ub_case)
next
  case UploadFile
  then show ?thesis
    by (auto simp: serve_def undefined_request_def upload_file_def Let_def create_directories_not_ub is_ub_case
        split: prod.split)
next
  case UpdateIpData
  then show ?thesis by (simp add: serve_def undefined_request_def update_ip_data_ub)
next
  case ExchangeKeys
  then show ?thesis by (simp add: serve_def undefined_request_def exchange_keys_ub)
next
  case IpData
  then show ?thesis by (simp add: serve_def undefined_request_def get_ip_data_ub app_fs_def)
next
  case Index
  then show ?thesis by (simp add: serve_def undefined_request_def get_index_ub)
qed (auto simp: serve_def undefined_request_def get_pfp_def get_img_def get_img_exists_def head_def get_key_status_def
      get_messages_def get_check_activity_def select_user_def remove_friend_def send_message_def upload_pfp_def
      upload_name_def set_connection_def is_ub_bind is_ub_case Let_def split: sum.split prod.split)

lemma respond_fails:
  "(\<exists>e. fst (respond he request a) = Inl e) \<longleftrightarrow> he_endpoint_ok he \<and> undefined_request request a"
proof (cases "he_endpoint_ok he")
  case True
  then have "(\<exists>e. fst (respond he request a) = Inl e) \<longleftrightarrow> is_ub (fst (serve he (route_of request) request a))"
    by (auto simp: respond_def catch_res_def is_ub_def split: prod.split sum.split failure.split)
  then show ?thesis using True serve_ub by simp
qed (simp add: respond_def)

text \<open>A request as soon as all of it has been read.\<close>

definition request_complete :: "string \<Rightarrow> bool" where
  "request_complete r \<longleftrightarrow> (\<exists>n. content_length r = Inr n \<and> n \<le> length r - str_find r (crlf @ crlf) 0 - 4)"

definition request_fatal :: "http_env \<Rightarrow> string \<Rightarrow> app \<Rightarrow> bool" where
  "request_fatal he r a \<longleftrightarrow> str_find r (crlf @ crlf) 0 \<noteq> npos
     \<and> ((\<exists>e. content_length r = Inl e) \<or> request_complete r \<and> he_endpoint_ok he \<and> undefined_request r a)"

lemma handle_read_fails:
  "(\<exists>e. fst (handle_read he err chunk full a) = Inl e) \<longleftrightarrow> \<not> err \<and> request_fatal he (full @ chunk) a"
proof -
  let ?r = "full @ chunk"
  obtain r a1 where "respond he ?r a = (r, a1)" by (metis prod.exhaust)
  then have "(\<exists>e. r = Inl e) \<longleftrightarrow> he_endpoint_ok he \<and> undefined_request ?r a" using respond_fails [of he ?r a] by simp
  then show ?thesis
    using \<open>respond he ?r a = (r, a1)\<close>
    by (cases "content_length ?r"; cases r)
      (auto simp: handle_read_def request_fatal_def request_complete_def Let_def not_less)
qed

section \<open>Timers\<close>

lemma punch_fails:
  "(\<exists>e. fst (udp_punch (s, w)) = Inl e) \<longleftrightarrow> \<not> us_stopped s \<and> (\<exists>e. read_file (w_fs w) ''./user_settings/name.txt'' = Inl e)"
  by (auto simp: udp_punch_def Let_def split: sum.split prod.split)

lemma transmit_goes_on:
  assumes "evp_laws ev" "entropy_ok (w_entropy w)"
  shows "fst (transmit_fires ev (s, w)) \<noteq> Inl e"
proof
  assume f: "fst (transmit_fires ev (s, w)) = Inl e"
  then have "is_ub (Inl e :: unit res)"
    by (auto simp: transmit_fires_def send_file_packet_def piece_packet_def Let_def
        split: option.splits prod.splits sum.splits if_splits)
  then show False using transmit_not_ub [OF assms, of s] f by simp
qed

section \<open>The coordinating client\<close>

lemma do_routine_goes_on:
  assumes "evp_laws ev" "entropy_ok (w_entropy (ap_world a))" "length (cc_aes_key c) = 32"
  shows "fst (do_routine ev (c, a)) \<noteq> Inl e"
proof -
  let ?a = "set_world (\<lambda>w. w\<lparr>g_my_local_ip := cc_cached_ip c\<rparr>) a"
  have n: "w_entropy (ap_world ?a) = w_entropy (ap_world a)" by (simp add: set_world_def)
  obtain enc e' where "aes_encrypt ev (string_of (put_request (cc_cached_ip c) (busy_ports ?a) (wanted_friends ?a)))
      (cc_aes_key c) (w_entropy (ap_world a)) = (Inr enc, e')"
    using aes_encryptE [OF assms] by metis
  then show ?thesis by (simp add: do_routine_def Let_def n)
qed

text \<open>An address that the socket cannot be bound for or sent to.\<close>

definition unreachable :: "net \<Rightarrow> peer_info \<Rightarrow> bool" where
  "unreachable nt p \<longleftrightarrow> \<not> net_bind nt (pi_iport p) \<or> net_resolve nt (pi_ip p) (show_int (int (unat (pi_oport p)))) = None"

lemma change_target_fails:
  "fst (change_target nt (int (unat (pi_iport p))) (int (unat (pi_oport p))) (pi_ip p) s) =
     (if unreachable nt p then Inl (Throw SystemError) else Inr ())"
  by (simp add: change_target_def unreachable_def Let_def split: option.split)

lemma apply_peer_fails:
  "fst (apply_peer nt garbage p a) =
     (if unreachable nt p \<and> (\<exists>s. map_of (ap_conns a) (pi_uuid p) = Some (Some s)) then Inl (Throw SystemError) else Inr ())"
  using change_target_fails [of nt p]
  by (auto simp: apply_peer_def Let_def split: option.split prod.split sum.split) (metis fst_conv)+

text \<open>The loop stops at a friend with such an address who has a connection when it comes to him.\<close>

definition stops_loop :: "net \<Rightarrow> byte list \<Rightarrow> peer_info list \<Rightarrow> app \<Rightarrow> bool" where
  "stops_loop nt garbage ps a \<longleftrightarrow> (\<exists>qs q rs. ps = qs @ q # rs \<and> unreachable nt q
     \<and> (\<exists>s. map_of (ap_conns (snd (apply_peers nt garbage qs a))) (pi_uuid q) = Some (Some s)))"

lemma stops_loop_Cons:
  "stops_loop nt garbage (p # ps) a \<longleftrightarrow> unreachable nt p \<and> (\<exists>s. map_of (ap_conns a) (pi_uuid p) = Some (Some s))
     \<or> fst (apply_peer nt garbage p a) = Inr () \<and> stops_loop nt garbage ps (snd (apply_peer nt garbage p a))"
  (is "?l \<longleftrightarrow> ?r")
proof
  obtain r a1 where r: "apply_peer nt garbage p a = (r, a1)" by (metis prod.exhaust)
  note f = apply_peer_fails [of nt garbage p a]
  show ?r if l: ?l
  proof -
    obtain qs q rs where q: "p # ps = qs @ q # rs" "unreachable nt q"
      "\<exists>s. map_of (ap_conns (snd (apply_peers nt garbage qs a))) (pi_uuid q) = Some (Some s)"
      using l by (auto simp: stops_loop_def)
    show ?r
    proof (cases qs)
      case (Cons p' qs')
      then show ?thesis using q r f by (cases r) (auto simp: stops_loop_def split: if_splits)
    qed (use q in simp)
  qed
  show ?l if ?r
    using that
  proof
    assume "unreachable nt p \<and> (\<exists>s. map_of (ap_conns a) (pi_uuid p) = Some (Some s))"
    then show ?l unfolding stops_loop_def by (intro exI [of _ "[]"] exI [of _ p] exI [of _ ps]) simp
  next
    assume a: "fst (apply_peer nt garbage p a) = Inr () \<and> stops_loop nt garbage ps (snd (apply_peer nt garbage p a))"
    then obtain qs q rs where "ps = qs @ q # rs" "unreachable nt q"
      "\<exists>s. map_of (ap_conns (snd (apply_peers nt garbage qs a1))) (pi_uuid q) = Some (Some s)"
      using r by (auto simp: stops_loop_def)
    then show ?l using a r unfolding stops_loop_def by (intro exI [of _ "p # qs"] exI [of _ q] exI [of _ rs]) simp
  qed
qed

lemma apply_peers_fails: "(\<exists>e. fst (apply_peers nt garbage ps a) = Inl e) \<longleftrightarrow> stops_loop nt garbage ps a"
proof (induction ps arbitrary: a)
  case Nil
  then show ?case by (simp add: stops_loop_def)
next
  case (Cons p ps)
  obtain r a1 where r: "apply_peer nt garbage p a = (r, a1)" by (metis prod.exhaust)
  show ?case
    unfolding stops_loop_Cons using Cons.IH [of a1] apply_peer_fails [of nt garbage p a] r
    by (cases r) (auto split: if_splits)
qed

text \<open>The peers of an answer.\<close>

definition named_peers :: "string \<Rightarrow> peer_info list" where
  "named_peers answer = parse_peers answer (unat (get16 (byte_of (answer ! 0)) (byte_of (answer ! 1)))) 2"

lemma completion_fails:
  assumes "completes ev nt garbage op (c\<lparr>cc_pending := []\<rparr>, a) (Inl e, ca)"
    and "evp_laws ev" "entropy_ok (w_entropy (ap_world a))" "identity_ok c" "op_ok c op"
    and "read_file (app_fs a) ''./user_settings/ECC_PUB'' = Inr k"
  shows "\<exists>n data answer. op = ReadingPayload n AfterRoutine \<and> length data = n
    \<and> aes_decrypt ev data (cc_aes_key c) = Inr answer \<and> 2 \<le> length answer
    \<and> stops_loop nt garbage (named_peers answer) (set_world (\<lambda>w. w\<lparr>g_found_peers := []\<rparr>) a)"
  using assms(1)
proof (cases rule: completes.cases)
  case (connect ok ip)
  then have e: "fst (connected ev ok ip (c\<lparr>cc_pending := []\<rparr>, a)) = Inl e" by (metis fst_conv)
  show ?thesis
  proof (cases "cc_registered c")
    case True
    then have "length (cc_aes_key c) = 32" using assms(4) by (simp add: identity_ok_def)
    then show ?thesis using e True do_routine_goes_on [OF assms(2,3), of "c\<lparr>cc_pending := [], cc_cached_ip := x\<rparr>" for x]
      by (auto simp: connected_def Let_def split: if_splits)
  next
    case False
    then show ?thesis using e assms(6) by (auto simp: connected_def do_register_def Let_def split: if_splits)
  qed
next
  case (payload data n k ok)
  then have e: "fst (payload_read ev nt garbage ok data k (c\<lparr>cc_pending := []\<rparr>, a)) = Inl e" by (metis fst_conv)
  then have ok: "ok" by (auto simp: payload_read_def split: if_splits)
  show ?thesis
  proof (cases k)
    case AfterRegister
    let ?d = "decrypt_ECC ev (app_fs a) (string_of (drop 36 data))"
    have "\<not> is_ub ?d" by (rule decrypt_ECC_not_ub)
    then have "fst (handle_register_response ev data (c\<lparr>cc_pending := []\<rparr>, a)) \<noteq> Inl e"
    proof (cases ?d)
      case (Inr key)
      then show ?thesis
        using do_routine_goes_on [OF assms(2), of _ "_\<lparr>cc_aes_key := key, cc_registered := True\<rparr>"] assms(3) decrypt_ECC_length [OF Inr]
        by (simp add: handle_register_response_def set_world_def Let_def)
    qed (auto simp: handle_register_response_def Let_def split: failure.split)
    then show ?thesis using e ok AfterRegister by (simp add: payload_read_def)
  next
    case AfterRoutine
    have "\<not> is_ub (aes_decrypt ev data (cc_aes_key c))" by (rule aes_decrypt_not_ub)
    then obtain answer where d: "aes_decrypt ev data (cc_aes_key c) = Inr answer"
      using e ok AfterRoutine
      by (auto simp: payload_read_def handle_routine_response_def is_ub_def split: sum.splits failure.splits)
    have "\<exists>e. fst (apply_peers nt garbage (named_peers answer) (set_world (\<lambda>w. w\<lparr>g_found_peers := []\<rparr>) a)) = Inl e"
      and "2 \<le> length answer"
      using e ok AfterRoutine d
      by (auto simp: payload_read_def handle_routine_response_def named_peers_def Let_def split: if_splits prod.splits sum.splits)
    then show ?thesis using payload AfterRoutine d unfolding apply_peers_fails by auto
  qed
next
  case (timer secs)
  then have e: "fst (timer_fires ev (c\<lparr>cc_pending := []\<rparr>, a)) = Inl e" by (metis fst_conv)
  then have "cc_open c" "fst (do_routine ev (c\<lparr>cc_pending := []\<rparr>, a)) = Inl e"
    by (auto simp: timer_fires_def split: if_splits)
  moreover have "length (cc_aes_key c) = 32" using assms(4,5) timer \<open>cc_open c\<close> by (simp add: identity_ok_def)
  ultimately show ?thesis using do_routine_goes_on [OF assms(2,3), of "c\<lparr>cc_pending := []\<rparr>"] by simp
qed

section \<open>The whole client\<close>

text \<open>An event of the runtime, and the failure with which its handler is left.\<close>

datatype client_event = Chunk nat bool string | Peer string udp_event | Completion operation

inductive client_ends :: "http_env \<Rightarrow> process \<Rightarrow> client_event \<Rightarrow> failure \<Rightarrow> bool" for he p where
  chunk: "i < length (pr_requests p) \<Longrightarrow> handle_read he err bytes (pr_requests p ! i) (pr_app p) = (Inl e, c) \<Longrightarrow>
     client_ends he p (Chunk i err bytes) e"
| peer: "map_of (ap_conns (pr_app p)) u = Some (Some s) \<Longrightarrow> from_runtime ev \<Longrightarrow>
     udp_step (he_evp he) (he_net he) ev (s, ap_world (pr_app p)) = (Inl e, c) \<Longrightarrow> client_ends he p (Peer u ev) e"
| completion: "cc_pending (pr_coord p) = xs @ op # ys \<Longrightarrow>
     completes (he_evp he) (he_net he) (he_garbage he) op ((pr_coord p)\<lparr>cc_pending := xs @ ys\<rparr>, pr_app p) (Inl e, ca) \<Longrightarrow>
     client_ends he p (Completion op) e"

inductive_simps chunk_ends [simp]: "client_ends he p (Chunk i err bytes) e"
inductive_simps peer_ends [simp]: "client_ends he p (Peer u ev) e"
inductive_cases completion_endsE: "client_ends he p (Completion op) e"

text \<open>The causes. The answer of the coordinating server is any that its key opens.\<close>

fun fatal :: "http_env \<Rightarrow> process \<Rightarrow> client_event \<Rightarrow> bool" where
  "fatal he p (Chunk i err bytes) \<longleftrightarrow> i < length (pr_requests p) \<and> \<not> err
     \<and> request_fatal he (pr_requests p ! i @ bytes) (pr_app p)"
| "fatal he p (Peer u (Datagram d)) \<longleftrightarrow> (\<exists>s. map_of (ap_conns (pr_app p)) u = Some (Some s) \<and> us_receiving s
     \<and> (let b = us_recv_buffer (deliver d s) in overreads b \<or> refused_key (he_evp he) (w_entropy (ap_world (pr_app p))) b))"
| "fatal he p (Completion (ReadingPayload n AfterRoutine)) \<longleftrightarrow> cc_pending (pr_coord p) = [ReadingPayload n AfterRoutine]
     \<and> (\<exists>data answer. length data = n \<and> aes_decrypt (he_evp he) data (cc_aes_key (pr_coord p)) = Inr answer \<and> 2 \<le> length answer
       \<and> stops_loop (he_net he) (he_garbage he) (named_peers answer) (set_world (\<lambda>w. w\<lparr>g_found_peers := []\<rparr>) (pr_app p)))"
| "fatal he p _ \<longleftrightarrow> False"

definition host_ready :: "http_env \<Rightarrow> process \<Rightarrow> bool" where
  "host_ready he p \<longleftrightarrow> evp_laws (he_evp he) \<and> entropy_ok (w_entropy (ap_world (pr_app p)))
     \<and> (\<exists>n. read_file (app_fs (pr_app p)) ''./user_settings/name.txt'' = Inr n)
     \<and> (\<exists>k. read_file (app_fs (pr_app p)) ''./user_settings/ECC_PUB'' = Inr k)
     \<and> (\<forall>u s. map_of (ap_conns (pr_app p)) u = Some (Some s) \<longrightarrow> disk_ready (app_fs (pr_app p)) u)"

lemma receive_buffer:
  assumes "udp_ok s"
  shows "length (us_recv_buffer (deliver d s)) = 512" "receive ev d (s, w) = receive ev (us_recv_buffer (deliver d s)) (s, w)"
proof -
  show l: "length (us_recv_buffer (deliver d s)) = 512" using assms by (simp add: udp_ok_def deliver_def)
  have "deliver (us_recv_buffer (deliver d s)) s = s\<lparr>us_recv_buffer := us_recv_buffer (deliver d s)\<rparr>"
    using l assms by (intro deliver_full) (simp_all add: udp_ok_def)
  then show "receive ev d (s, w) = receive ev (us_recv_buffer (deliver d s)) (s, w)"
    by (simp add: receive_def) (simp add: deliver_def)
qed

lemma peer_event_fails:
  assumes "host_ready he p" "process_ok p" "map_of (ap_conns (pr_app p)) u = Some (Some s)" "from_runtime ev"
  shows "(\<exists>e. fst (udp_step (he_evp he) (he_net he) ev (s, ap_world (pr_app p))) = Inl e) \<longleftrightarrow> fatal he p (Peer u ev)"
proof -
  let ?w = "ap_world (pr_app p)" and ?ev = "he_evp he"
  have fit: "fit u s" using assms(2,3) each_connectionD by (auto simp: process_ok_def app_ok_def)
  then have s: "us_uuid s = u" "udp_ok s" by (simp_all add: fit_def filed_def)
  have h: "evp_laws ?ev" "entropy_ok (w_entropy ?w)" "disk_ready (w_fs ?w) (us_uuid s)"
    using assms(1,3) s(1) by (auto simp: host_ready_def app_fs_def)
  show ?thesis
  proof (cases ev)
    case (Datagram d)
    let ?b = "us_recv_buffer (deliver d s)"
    have "us_receiving s \<Longrightarrow> listening s" using s(2) by (auto simp: listening_def udp_ok_def)
    then have "us_receiving s \<Longrightarrow> (\<exists>e. fst (receive ?ev d (s, ?w)) = Inl e) \<longleftrightarrow> overreads ?b \<or> refused_key ?ev (w_entropy ?w) ?b"
      using receive_fails [OF h(1,2) _ receive_buffer(1) [OF s(2)] h(3)] receive_buffer(2) [OF s(2), of ?ev d ?w] by metis
    then show ?thesis using Datagram assms(3) by (auto simp: Let_def)
  next
    case ReceiveError
    then show ?thesis by (simp add: handle_receive_def Let_def)
  next
    case PunchTimer
    then show ?thesis using punch_fails [of s ?w] assms(1) by (auto simp: host_ready_def app_fs_def)
  next
    case TransmitTimer
    then show ?thesis using transmit_goes_on [OF h(1,2), of s] by simp
  qed (use assms(4) in simp_all)
qed

lemma routine_answer_ends:
  assumes "aes_decrypt ev data (cc_aes_key c) = Inr answer" "2 \<le> length answer"
    and "stops_loop nt garbage (named_peers answer) (set_world (\<lambda>w. w\<lparr>g_found_peers := []\<rparr>) a)"
  shows "\<exists>e ca. completes ev nt garbage (ReadingPayload (length data) AfterRoutine) (c, a) (Inl e, ca)"
proof -
  obtain e where "fst (apply_peers nt garbage (named_peers answer) (set_world (\<lambda>w. w\<lparr>g_found_peers := []\<rparr>) a)) = Inl e"
    using assms(3) unfolding apply_peers_fails [symmetric] by blast
  then have "\<exists>ca. payload_read ev nt garbage True data AfterRoutine (c, a) = (Inl e, ca)"
    using assms(1,2) by (auto simp: payload_read_def handle_routine_response_def named_peers_def Let_def split: prod.split sum.split)
  then show ?thesis using completes.payload [of data "length data" ev nt garbage AfterRoutine "(c, a)" True] by metis
qed

lemma event_ends:
  assumes "host_ready he p" "process_ok p"
  shows "(\<exists>e. client_ends he p ev e) \<longleftrightarrow> fatal he p ev"
proof (cases ev)
  case (Chunk i err bytes)
  then show ?thesis
    using handle_read_fails [of he err bytes "pr_requests p ! i" "pr_app p"] by (auto simp: prod_eq_iff)
next
  case (Peer u pe)
  show ?thesis
  proof (cases "\<exists>s. map_of (ap_conns (pr_app p)) u = Some (Some s) \<and> from_runtime pe")
    case True
    then obtain s where s: "map_of (ap_conns (pr_app p)) u = Some (Some s)" "from_runtime pe" by blast
    show ?thesis using peer_event_fails [OF assms s] s Peer by (auto simp: prod_eq_iff)
  next
    case False
    then show ?thesis using Peer by (cases pe) (auto simp: Let_def)
  qed
next
  case (Completion op)
  have c: "\<exists>o1. cc_pending (pr_coord p) = [o1] \<and> op_ok (pr_coord p) o1" "identity_ok (pr_coord p)"
    using assms(2) by (auto simp: process_ok_def one_op_def)
  obtain k where k: "read_file (app_fs (pr_app p)) ''./user_settings/ECC_PUB'' = Inr k" using assms(1) by (auto simp: host_ready_def)
  have h: "evp_laws (he_evp he)" "entropy_ok (w_entropy (ap_world (pr_app p)))" using assms(1) by (simp_all add: host_ready_def)
  have "fatal he p (Completion op)" if ends: "client_ends he p (Completion op) e" for e
  proof -
    obtain xs ys ca where 1: "cc_pending (pr_coord p) = xs @ op # ys"
      "completes (he_evp he) (he_net he) (he_garbage he) op ((pr_coord p)\<lparr>cc_pending := xs @ ys\<rparr>, pr_app p) (Inl e, ca)"
      using ends by (elim completion_endsE) blast
    then have op: "op_ok (pr_coord p) op" "xs = []" "ys = []" "cc_pending (pr_coord p) = [op]"
      using c(1) by (auto simp: append_eq_Cons_conv)
    from completion_fails [OF _ h c(2) op(1) k] 1(2) op(2-4) show ?thesis by fastforce
  qed
  moreover have "\<exists>e. client_ends he p (Completion op) e" if f: "fatal he p (Completion op)"
  proof -
    obtain n where n: "op = ReadingPayload n AfterRoutine" using f by (cases op; cases "case op of ReadingPayload _ k \<Rightarrow> k | _ \<Rightarrow> AfterRegister") auto
    obtain data answer where d: "length data = n" "aes_decrypt (he_evp he) data (cc_aes_key (pr_coord p)) = Inr answer" "2 \<le> length answer"
      "stops_loop (he_net he) (he_garbage he) (named_peers answer) (set_world (\<lambda>w. w\<lparr>g_found_peers := []\<rparr>) (pr_app p))"
      "cc_pending (pr_coord p) = [] @ op # []"
      using f n by auto
    have "aes_decrypt (he_evp he) data (cc_aes_key ((pr_coord p)\<lparr>cc_pending := [] @ []\<rparr>)) = Inr answer" using d(2) by simp
    from routine_answer_ends [OF this d(3,4)] show ?thesis using client_ends.completion [OF d(5)] d(1) n by blast
  qed
  ultimately show ?thesis using Completion by blast
qed


definition named_fs :: filesys where
  "named_fs = settled_fs\<lparr>fs_files := ([''user_settings'', ''name.txt''], ''me'') # fs_files settled_fs\<rparr>"

lemma friendless_start:
  assumes "generate_or_load_ecc_keys ev (w_fs w) (w_entropy w) = (Inr fs, e)" "read_file fs server_state_file = Inr state"
    and "\<not> is_directory fs friends_dir"
  shows "\<exists>hs c a. start_up ev nt g ip True w = Inr (hs, (c, a)) \<and> app_fs a = fs \<and> w_entropy (ap_world a) = e \<and> ap_conns a = []"
proof -
  let ?w = "w\<lparr>w_fs := fs, w_entropy := e, g_connection_to_server_active := (state = ''on'')\<rparr>"
  let ?v = "(case read_file fs ''./user_settings/uuid.txt'' of Inl _ \<Rightarrow> ?w | Inr u \<Rightarrow> ?w\<lparr>g_uuid := u\<rparr>)\<lparr>g_public_ip := detected_ip ip\<rparr>"
  have v: "w_fs ?v = fs" "w_entropy ?v = e" by (simp_all split: sum.split)
  then have l: "load_connections nt g (user_selection ?v) = \<lparr>ap_world = ?v, ap_conns = []\<rparr>"
    using assms(3) by (simp add: load_connections_def user_selection_def)
  obtain c a where ca: "start_client (new_coord \<lparr>ap_world = ?v, ap_conns = []\<rparr>) = (c, a)" by (metis prod.exhaust)
  have "snd (start_client x) = snd x" for x by (simp add: start_client_def do_connect_def split: prod.split)
  then have "a = snd (new_coord \<lparr>ap_world = ?v, ap_conns = []\<rparr>)" using ca by (metis snd_conv)
  then have "app_fs a = fs" "w_entropy (ap_world a) = e" "ap_conns a = []"
    using v by (simp_all add: new_coord_def set_world_def app_fs_def Let_def)
  moreover have "start_up ev nt g ip True w = Inr (start_accept \<lparr>hs_accepting = False, hs_full_requests = []\<rparr>, (c, a))"
    using assms(1,2) l ca by (simp add: start_up_def Let_def)
  ultimately show ?thesis by blast
qed

lemma named_starts: "\<exists>p. process_start browsing_env p \<and> host_ready browsing_env p"
proof -
  let ?fs = "fs_write named_fs ecc_pub_file (string_of (replicate 32 9))"
  have e: "resolve server_state_file = [''user_settings'', ''server.txt'']" "ecc_pub_file = [''user_settings'', ''ECC_PUB'']"
    "ecc_file = [''user_settings'', ''ECC'']" "resolve ''./user_settings/name.txt'' = [''user_settings'', ''name.txt'']"
    "resolve ''./user_settings/ECC_PUB'' = [''user_settings'', ''ECC_PUB'']"
    by (simp_all add: ecc_file_def ecc_pub_file_def server_state_file_def resolve_def resolve_step_def is_sep_def)
  have n: "fs_exists named_fs [''user_settings'', ''ECC'']"
    "fs_read named_fs [''user_settings'', ''ECC''] = Some (string_of (replicate 32 9))"
    "fs_read named_fs [''user_settings'', ''server.txt''] = Some ''off''"
    "fs_read named_fs [''user_settings'', ''name.txt''] = Some ''me''"
    "fs_read named_fs [''user_settings'', ''ECC_PUB''] = Some (string_of (replicate 32 9))"
    "\<not> is_directory named_fs friends_dir"
    by (simp_all add: named_fs_def settled_fs_def sample_keys_def fs_exists_def fs_read_def is_directory_def friends_dir_def)
  have k: "generate_or_load_ecc_keys plain_evp named_fs plain_entropy = (Inr ?fs, plain_entropy)"
    using n by (simp add: generate_or_load_ecc_keys_def plain_evp_def e)
  have r: "read_file ?fs server_state_file = Inr ''off''" "\<exists>t. read_file ?fs ''./user_settings/name.txt'' = Inr t"
    "\<exists>t. read_file ?fs ''./user_settings/ECC_PUB'' = Inr t" "\<not> is_directory ?fs friends_dir"
    unfolding read_file_def e using n(6) by (simp_all add: fs_read_simps n split: option.split)
  obtain hs c a where s: "start_up plain_evp (he_net browsing_env) (he_garbage browsing_env) None True (sample_world named_fs)
      = Inr (hs, (c, a))" "app_fs a = ?fs" "w_entropy (ap_world a) = plain_entropy" "ap_conns a = []"
    using friendless_start [of plain_evp "sample_world named_fs" ?fs plain_entropy, OF _ r(1,4)] k
    by (fastforce simp: sample_world_def)
  let ?p = "\<lparr>pr_coord = c, pr_app = a, pr_requests = hs_full_requests hs\<rparr>"
  have "process_start browsing_env ?p" unfolding process_start_def using s(1)
    by (intro exI [of _ None] exI [of _ "sample_world named_fs"] exI conjI) (auto simp: browsing_env_def)
  moreover have "host_ready browsing_env ?p"
    using r s(2-4) plain_entropy_ok by (simp add: host_ready_def browsing_env_def plain_evp_laws)
  ultimately show ?thesis by blast
qed


section \<open>A key with which nothing can be derived\<close>

text \<open>A sender of such a key needs no other knowledge.\<close>

definition weak_key :: "evp \<Rightarrow> byte list \<Rightarrow> bool" where
  "weak_key ev pub \<longleftrightarrow> length pub = 32 \<and> (\<forall>k. x25519_derive ev k pub = None)"

text \<open>
  C19: one datagram ends the client. X25519 refuses the public key zero (and the few others of small order): no secret can
  be derived with it. A key packet with such a key, from anybody who reaches the port, overwrites the
  friend's key file with a new key first; then the exception leaves the receive handler, and with it \<open>io.run()\<close> and
  the program.
\<close>

theorem weak_key_ends_client:
  assumes "evp_laws ev" "entropy_ok (w_entropy w)" "listening s" "weak_key ev pub"
    and "p = packet_of_array (byte_of CHR ''O'') 0 mid 0 (content_array ([byte_of CHR ''P''] @ pub @ pub @ pub))"
  shows "\<exists>s' w' key. receive ev (get_bytes p) (s, w) = (Inl (Throw (RuntimeError ''EVP_PKEY_derive failed'')), (s', w'))
    \<and> length key = 32 \<and> w_fs w' = fs_write (w_fs w) (friend_file (us_uuid s) ''AES'') (hex_string key)"
proof -
  let ?s = "handling (get_bytes p) s" and ?w = "packet_seen (us_uuid s) w"
  have k: "length pub = 32" "\<And>k. x25519_derive ev k pub = None" using assms(4) by (simp_all add: weak_key_def)
  have p: "packet_ok p" "pk_type p = byte_of CHR ''O''" "pk_message p = content_array ([byte_of CHR ''P''] @ pub @ pub @ pub)"
    using k(1) unfolding assms(5) by (simp_all add: length_content_array)
  obtain key fs1 e1 where g: "generate_AES (w_fs ?w) (us_uuid ?s) (w_entropy ?w) = (key, fs1, e1)" by (metis prod.exhaust)
  have "entropy_ok (w_entropy ?w)" using assms(2) by simp
  note gk = generate_AES_fresh [OF this g]
  obtain eph kpub e2 where "keygen e1 = (Some eph, e2)" "x25519_public ev eph = Some kpub" using keygenE [OF assms(1) gk(2)] by metis
  then have "send_encrypted_AES_key ev pub (?s, ?w)
      = (Inl (Throw (RuntimeError ''EVP_PKEY_derive failed'')), (?s, ?w\<lparr>w_fs := fs1, w_entropy := e2\<rparr>))"
    using g k(2) by (simp add: send_encrypted_AES_key_def encrypt_ECC_def throw_def)
  then have "handle_control ev (get_bytes p) (pk_message p) (?s, ?w)
      = (Inl (Throw (RuntimeError ''EVP_PKEY_derive failed'')), (?s, ?w\<lparr>w_fs := fs1, w_entropy := e2\<rparr>))"
    using announced_key [OF k(1) p(3)] packet_checksum [OF p(1)] by (simp add: handle_control_def handle_public_key_def)
  then have "receive ev (get_bytes p) (s, w)
      = (Inl (Throw (RuntimeError ''EVP_PKEY_derive failed'')), (?s, ?w\<lparr>w_fs := fs1, w_entropy := e2\<rparr>))"
    using assms(3) p(1,2) by (simp add: receive_packet dispatch_packet)
  then show ?thesis using gk by auto
qed

text \<open>Primitives that refuse the key zero, as X25519 does, whose own public keys are never zero.\<close>

definition careful_evp :: evp where
  "careful_evp = plain_evp\<lparr>x25519_public := (\<lambda>k. if length k = 32 then Some (k[31 := k ! 31 OR 0x40]) else None),
     x25519_derive := (\<lambda>a b. if b = replicate 32 0 then None else Some (map2 (XOR) (a[31 := a ! 31 OR 0x40]) b))\<rparr>"

lemma careful_evp_laws: "evp_laws careful_evp"
proof -
  have x: "map2 (XOR) a b = map2 (XOR) b a" for a b :: "byte list"
    by (rule nth_equalityI) (simp_all add: xor.commute min.commute)
  have z: "k[31 := k ! 31 OR 0x40] \<noteq> replicate 32 0" if "length k = 32" for k :: "byte list"
  proof
    assume e: "k[31 := k ! 31 OR 0x40] = replicate 32 0"
    have "k[31 := k ! 31 OR 0x40] ! 31 = k ! 31 OR 0x40" using that by simp
    then have "k ! 31 OR 0x40 = 0" using e by simp
    then have "bit (k ! 31 OR 0x40) 6 = False" by simp
    then show False by (simp add: bit_simps)
  qed
  have "length k = 32 \<Longrightarrow> x25519_public careful_evp k = Some p \<Longrightarrow> p = k[31 := k ! 31 OR 0x40]" for k p
    by (simp add: careful_evp_def)
  then show ?thesis
    using plain_evp_laws z x by (auto simp: evp_laws_def careful_evp_def plain_evp_def)
qed

theorem weak_key_ends_client_witness:
  "\<exists>s' w'. receive careful_evp (get_bytes (packet_of_array (byte_of CHR ''O'') 0 7 0
      (content_array ([byte_of CHR ''P''] @ replicate 32 0 @ replicate 32 0 @ replicate 32 0)))) (sample_server ''f'', sample_world (sample_fs []))
    = (Inl (Throw (RuntimeError ''EVP_PKEY_derive failed'')), (s', w'))"
proof -
  have "weak_key careful_evp (replicate 32 0)" by (simp add: weak_key_def careful_evp_def)
  from weak_key_ends_client [OF careful_evp_laws _ _ this refl, of "sample_world (sample_fs [])" "sample_server ''f''" 7]
  show ?thesis using plain_entropy_ok by simp blast
qed

end
