(* ===== verification/Conversation.thy ===== *)
theory Conversation
  imports Network UdpKeys
begin

text \<open>
  What two users get from the components together: the browsers, the peer connections, the key files
  and the histories of both machines, from a request on one side to the document the other side's
  browser reads.
\<close>

section \<open>Datagrams at a host\<close>

text \<open>The datagram \<open>d\<close> reaches the connection for the friend \<open>u\<close>; \<open>None\<close> when its handler fails.\<close>

definition arrives :: "evp \<Rightarrow> byte list \<Rightarrow> string \<Rightarrow> app \<Rightarrow> app option" where
  "arrives ev d u a = (case map_of (ap_conns a) u of
     Some (Some s) \<Rightarrow>
       (case receive ev d (s, ap_world a) of
          (Inr _, (s', w')) \<Rightarrow> Some \<lparr>ap_world = w', ap_conns = AList.update u (Some s') (ap_conns a)\<rparr>
        | (Inl _, _) \<Rightarrow> None)
   | _ \<Rightarrow> None)"

definition last_sent :: "string \<Rightarrow> app \<Rightarrow> byte list" where
  "last_sent u a = (case map_of (ap_conns a) u of Some (Some s) \<Rightarrow> last (us_outbox s) | _ \<Rightarrow> [])"

lemma arrives_step:
  assumes "arrives (he_evp he) d u (pr_app p) = Some b" "map_of (ap_conns (pr_app p)) u = Some (Some s)" "us_receiving s"
  shows "process_step he p (p\<lparr>pr_app := b\<rparr>)"
proof -
  obtain s' w' where r: "receive (he_evp he) d (s, ap_world (pr_app p)) = (Inr (), (s', w'))"
    "b = \<lparr>ap_world = w', ap_conns = AList.update u (Some s') (ap_conns (pr_app p))\<rparr>"
    using assms(1,2) by (auto simp: arrives_def split: prod.splits sum.splits)
  then show ?thesis
    using process_step.peer [OF assms(2), of "Datagram d" he s' w'] assms(3) by simp
qed

lemma arrives_eq:
  "map_of (ap_conns a) u = Some (Some s) \<Longrightarrow> receive ev d (s, ap_world a) = (Inr (), (s', w')) \<Longrightarrow>
     arrives ev d u a = Some \<lparr>ap_world = w', ap_conns = AList.update u (Some s') (ap_conns a)\<rparr>"
  by (simp add: arrives_def)

lemma last_sent_update [simp]:
  "last_sent u \<lparr>ap_world = w, ap_conns = AList.update u (Some s) cs\<rparr> = last (us_outbox s)"
  by (simp add: last_sent_def update_conv')

lemma last_send_arr [simp]: "last (us_outbox (send_arr d s)) = d"
  by (simp add: send_arr_def)

section \<open>The exchange of keys, from the browser\<close>

lemma exchange_request:
  assumes "he_endpoint_ok he" "length u = 36" "route_of (''GET /exchange_keys/'' @ u @ x) = ExchangeKeys"
    and "map_of (ap_conns a) u = Some (Some s)" "send_ECC_public_key (s, ap_world a) = (Inr (), (s1, w1))"
  shows "respond he (''GET /exchange_keys/'' @ u @ x) a
    = (Inr ok_response, \<lparr>ap_world = w1, ap_conns = AList.update u (Some s1) (ap_conns a)\<rparr>)"
proof -
  have "path_uuid (''GET /exchange_keys/'' @ u @ x) ''GET /exchange_keys/'' = Inr u"
    using path_uuid_start [of "''GET /exchange_keys/''" u x] assms(2) by simp
  then have "exchange_keys (''GET /exchange_keys/'' @ u @ x) a
      = (Inr ok_response, \<lparr>ap_world = w1, ap_conns = AList.update u (Some s1) (ap_conns a)\<rparr>)"
    using assms(4,5) by (simp add: exchange_keys_def)
  then show ?thesis using assms(1,3) by (simp add: respond_def serve_def)
qed

text \<open>A host with its key pair, and one with a working connection to the friend \<open>u\<close>.\<close>

definition has_keys :: "evp \<Rightarrow> filesys \<Rightarrow> bool" where
  "has_keys ev fs \<longleftrightarrow> (\<exists>priv pub. fs_read fs ecc_file = Some (string_of priv) \<and> length priv = 32
     \<and> x25519_public ev priv = Some pub \<and> fs_read fs ecc_pub_file = Some (string_of pub))"

definition talks_to :: "app \<Rightarrow> string \<Rightarrow> udp_server \<Rightarrow> bool" where
  "talks_to a u s \<longleftrightarrow> map_of (ap_conns a) u = Some (Some s) \<and> us_uuid s = u \<and> plain_name u \<and> listening s
     \<and> entropy_ok (w_entropy (ap_world a)) \<and> history_ok (app_fs a) u
     \<and> can_write (app_fs a) (friend_file u ''AES'')
     \<and> one_line (w_date (ap_world a)) \<and> one_line (w_time (ap_world a))"

text \<open>A key file does not get into the way of the history.\<close>

lemma history_beside_key:
  assumes "plain_name u"
  shows "history_ok (fs_write fs (friend_file u ''AES'') k) u = history_ok fs u"
    and "history_entries (fs_write fs (friend_file u ''AES'') k) u = history_entries fs u"
proof -
  have "friend_file u ''AES'' \<noteq> messages_file u"
    using friend_file_eq [OF assms] by (simp add: messages_file_def)
  then show "history_ok (fs_write fs (friend_file u ''AES'') k) u = history_ok fs u"
    "history_entries (fs_write fs (friend_file u ''AES'') k) u = history_entries fs u"
    by (simp_all add: history_ok_def history_entries_def fs_read_simps)
qed

lemma key_beside_history:
  "plain_name u \<Longrightarrow> load_key (save_message fs u m who d t) u = load_key fs u"
  using friend_file_eq [of u] by (simp add: load_key_def save_message_alt fs_read_append messages_file_def)

lemma text_arrives_fields:
  "w_fs (text_arrives u m w) = save_message (w_fs w) u m ''friend'' (w_date w) (w_time w)"
  "g_last_packets_times (text_arrives u m w) = g_last_packets_times w" "w_now (text_arrives u m w) = w_now w"
  by (simp_all add: text_arrives_def save_message_now_def Let_def)

lemma seen_active: "check_activity (text_arrives u m (packet_seen u w)) u"
proof -
  have "check_activity (text_arrives u m w') u = check_activity w' u" for w'
    by (simp add: check_activity_def text_arrives_fields split: option.split)
  then show ?thesis by (simp add: check_activity_seen)
qed

text \<open>The two stages: the exchange, asked for in one browser, and a text of the one under the new key.\<close>

lemma keys_by_browser:
  assumes "evp_laws (he_evp he)" "he_endpoint_ok he" "length u = 36"
    and "talks_to a u s" "talks_to b v r" "has_keys (he_evp he) (app_fs a)"
    and "k = ''GET /exchange_keys/'' @ u @ x" "route_of k = ExchangeKeys"
  obtains a1 b1 a2 s2 r1 key where "respond he k a = (Inr ok_response, a1)"
    "arrives (he_evp he) (last_sent u a1) v b = Some b1" "arrives (he_evp he) (last_sent v b1) u a1 = Some a2"
    "talks_to a2 u s2" "talks_to b1 v r1" "load_key (app_fs a2) u = Inr key" "load_key (app_fs b1) v = Inr key"
    "history_entries (app_fs a2) u = history_entries (app_fs a) u" "history_entries (app_fs b1) v = history_entries (app_fs b) v"
    "w_date (ap_world a2) = w_date (ap_world a)" "w_time (ap_world a2) = w_time (ap_world a)"
    "w_date (ap_world b1) = w_date (ap_world b)" "w_time (ap_world b1) = w_time (ap_world b)"
proof -
  let ?ev = "he_evp he"
  note a = assms(4) [unfolded talks_to_def] and b = assms(5) [unfolded talks_to_def]
  obtain priv pub where keys: "fs_read (w_fs (ap_world a)) ecc_file = Some (string_of priv)" "length priv = 32"
    "x25519_public ?ev priv = Some pub" "fs_read (w_fs (ap_world a)) ecc_pub_file = Some (string_of pub)"
    using assms(6) unfolding has_keys_def app_fs_def by blast
  then have pub: "length pub = 32" using assms(1) by (auto simp: evp_laws_def)
  have uv: "us_uuid s = u" "us_uuid r = v" "entropy_ok (w_entropy (ap_world b))" "listening s" "listening r"
    using a b by simp_all
  obtain d1 w1 d2 v1 w2 key where e0:
    "send_ECC_public_key (s, ap_world a) = (Inr (), (send_arr d1 s, w1))"
    "receive ?ev d1 (r, ap_world b) = (Inr (), (idle (send_arr d2 r), v1))"
    "receive ?ev d2 (send_arr d1 s, w1) = (Inr (), (idle (send_arr d1 s), w2))"
    "w_fs w2 = fs_write (w_fs (ap_world a)) (friend_file (us_uuid s) ''AES'') (hex_string key)"
    "w_fs v1 = fs_write (w_fs (ap_world b)) (friend_file (us_uuid r) ''AES'') (hex_string key)" "length key = 32"
    "w_date w2 = w_date (ap_world a)" "w_time w2 = w_time (ap_world a)" "w_entropy w2 = w_entropy (ap_world a)"
    "w_date v1 = w_date (ap_world b)" "w_time v1 = w_time (ap_world b)" "entropy_ok (w_entropy v1)"
    by (rule keys_exchanged [OF assms(1) uv(3-5) keys(1-3) pub keys(4)]) (rule that)
  note e = e0 [unfolded uv(1,2) app_fs_def [symmetric]]
  let ?a1 = "\<lparr>ap_world = w1, ap_conns = AList.update u (Some (send_arr d1 s)) (ap_conns a)\<rparr>"
  let ?b1 = "\<lparr>ap_world = v1, ap_conns = AList.update v (Some (idle (send_arr d2 r))) (ap_conns b)\<rparr>"
  let ?a2 = "\<lparr>ap_world = w2, ap_conns = AList.update u (Some (idle (send_arr d1 s))) (ap_conns ?a1)\<rparr>"
  have fs: "app_fs \<lparr>ap_world = w, ap_conns = cs\<rparr> = w_fs w" for w cs by (simp add: app_fs_def)
  have key: "load_key (w_fs w2) u = Inr key" "load_key (w_fs v1) v = Inr key"
    using a b e(4-6) by (simp_all add: load_key_of_hex fs_read_simps)
  have "history_ok (w_fs w2) u" "history_ok (w_fs v1) v"
    and hist: "history_entries (w_fs w2) u = history_entries (app_fs a) u" "history_entries (w_fs v1) v = history_entries (app_fs b) v"
    using a b history_beside_key by (simp_all add: e(4,5))
  then have t: "talks_to ?a2 u (idle (send_arr d1 s))" "talks_to ?b1 v (idle (send_arr d2 r))"
    using a b e(4,5,7-12) by (simp_all add: talks_to_def fs update_conv' listening_def send_arr_def)
  have r1: "respond he k a = (Inr ok_response, ?a1)"
    using exchange_request [OF assms(2,3) _ _ e(1)] assms(7,8) a by simp
  have b1: "arrives ?ev (last_sent u ?a1) v b = Some ?b1" using b e(2) by (simp add: arrives_eq)
  have a2: "arrives ?ev (last_sent v ?b1) u ?a1 = Some ?a2" using e(3) by (simp add: arrives_eq update_conv')
  show thesis using that [OF r1 b1 a2 t] key hist e(7,8,10,11) by (simp add: fs)
qed

lemma text_by_browser:
  assumes "evp_laws (he_evp he)" "he_endpoint_ok he" "length u = 36" "talks_to a u s" "talks_to b v r"
    and "load_key (app_fs a) u = Inr key" "load_key (app_fs b) v = Inr key"
    and "q = (''POST /send/'' @ u @ hdr) @ crlf @ crlf @ message_body m" "route_of q = SendText"
    and "complete_header (''POST /send/'' @ u @ hdr)" "length (''POST /send/'' @ u @ hdr) + length (message_body m) < 2 ^ 60"
    and "m \<noteq> []" "length m \<le> 463" "list_all plain_char m"
  obtains a3 b2 where "respond he q a = (Inr ok_response, a3)" "arrives (he_evp he) (last_sent u a3) v b = Some b2"
    "load_key (app_fs a3) u = Inr key" "load_key (app_fs b2) v = Inr key"
    "history_entries (app_fs a3) u = history_entries (app_fs a) u @ [entry_for u ''you'' m (w_date (ap_world a)) (w_time (ap_world a))]"
    "history_entries (app_fs b2) v = history_entries (app_fs b) v @ [entry_for v ''friend'' m (w_date (ap_world b)) (w_time (ap_world b))]"
    "check_activity (ap_world b2) v"
proof -
  let ?ev = "he_evp he" and ?w = "save_message_now u m ''you'' (ap_world a)"
  note a = assms(4) [unfolded talks_to_def] and b = assms(5) [unfolded talks_to_def]
  obtain s3 w3 where st: "send_text ?ev m (s, ?w) = (s3, w3)" by (metis prod.exhaust)
  have w: "load_key (w_fs ?w) (us_uuid s) = Inr key" "entropy_ok (w_entropy ?w)"
    using a assms(6) by (simp_all add: save_message_now_def key_beside_history app_fs_def)
  have r: "listening r" "us_uuid r = v" "load_key (w_fs (ap_world b)) (us_uuid r) = Inr key"
    using b assms(7) by (simp_all add: app_fs_def)
  let ?v = "text_arrives v m (packet_seen v (ap_world b))"
  obtain d where d: "us_outbox s3 = us_outbox s @ [d]" "receive ?ev d (r, ap_world b) = (Inr (), (idle r, ?v))"
    using text_goes_through [OF assms(1) w(2) r(1) w(1) r(3) assms(12,13)] st r(2) by auto
  have pr: "history_ok (app_fs a) u" "one_line (w_date (ap_world a))" "one_line (w_time (ap_world a))"
    "map_of (ap_conns a) u = Some (Some s)" using a by simp_all
  note m0 = message_request [OF assms(2,3,14,10,11) assms(9) [unfolded assms(8)] pr st]
  note m = m0 [THEN conjunct1] m0 [THEN conjunct2, THEN conjunct1] m0 [THEN conjunct2, THEN conjunct2]
  let ?a3 = "\<lparr>ap_world = w3, ap_conns = AList.update u (Some s3) (ap_conns a)\<rparr>"
  let ?b2 = "\<lparr>ap_world = ?v, ap_conns = AList.update v (Some (idle r)) (ap_conns b)\<rparr>"
  have r3: "respond he q a = (Inr ok_response, ?a3)" unfolding assms(8) by (rule m(1))
  have b2: "arrives ?ev (last_sent u ?a3) v b = Some ?b2" using b d by (simp add: arrives_eq update_conv')
  have one: "one_line m" using assms(14) by (auto simp: one_line_def plain_char_def list_all_iff)
  have "history_entries (app_fs ?b2) v = history_entries (app_fs b) v
      @ [entry_for v ''friend'' m (w_date (ap_world b)) (w_time (ap_world b))]"
    using save_message_refines [of "app_fs b" v "''friend''", OF _ _ one] b
    by (simp add: app_fs_def text_arrives_fields packet_seen_def)
  moreover have "load_key (app_fs ?a3) u = Inr key" "load_key (app_fs ?b2) v = Inr key"
    using a b assms(6,7) m(2) by (simp_all add: app_fs_def text_arrives_fields key_beside_history)
  ultimately show thesis using that [OF r3 b2] m(3) seen_active by (simp add: app_fs_def)
qed

text \<open>
  C1: a first conversation, from browser to history. Two friends whose connections work, one of them with
  a key pair, neither of them with a key for the other. The first asks in the browser for an exchange
  of keys, the datagrams cross, and the text typed then is stored on both machines: as \<open>you\<close> on the
  one and, exactly the same characters, as \<open>friend\<close> on the other, which has the friend online. What
  was in the histories stays, and both key files hold the same key.
\<close>

theorem first_conversation:
  assumes "evp_laws (he_evp he)" "he_endpoint_ok he" "length u = 36"
    and "talks_to a u s" "talks_to b v r" "has_keys (he_evp he) (app_fs a)"
    and "k = ''GET /exchange_keys/'' @ u @ x" "route_of k = ExchangeKeys"
    and "q = (''POST /send/'' @ u @ hdr) @ crlf @ crlf @ message_body m" "route_of q = SendText"
    and "complete_header (''POST /send/'' @ u @ hdr)" "length (''POST /send/'' @ u @ hdr) + length (message_body m) < 2 ^ 60"
    and "m \<noteq> []" "length m \<le> 463" "list_all plain_char m"
  shows "\<exists>a1 b1 a2 a3 b2 key. respond he k a = (Inr ok_response, a1)
    \<and> arrives (he_evp he) (last_sent u a1) v b = Some b1
    \<and> arrives (he_evp he) (last_sent v b1) u a1 = Some a2
    \<and> respond he q a2 = (Inr ok_response, a3)
    \<and> arrives (he_evp he) (last_sent u a3) v b1 = Some b2
    \<and> load_key (app_fs a3) u = Inr key \<and> load_key (app_fs b2) v = Inr key
    \<and> history_entries (app_fs a3) u = history_entries (app_fs a) u
        @ [entry_for u ''you'' m (w_date (ap_world a)) (w_time (ap_world a))]
    \<and> history_entries (app_fs b2) v = history_entries (app_fs b) v
        @ [entry_for v ''friend'' m (w_date (ap_world b)) (w_time (ap_world b))]
    \<and> check_activity (ap_world b2) v"
proof -
  obtain a1 b1 a2 s2 r1 key where k: "respond he k a = (Inr ok_response, a1)"
    "arrives (he_evp he) (last_sent u a1) v b = Some b1" "arrives (he_evp he) (last_sent v b1) u a1 = Some a2"
    and t: "talks_to a2 u s2" "talks_to b1 v r1" "load_key (app_fs a2) u = Inr key" "load_key (app_fs b1) v = Inr key"
    and h: "history_entries (app_fs a2) u = history_entries (app_fs a) u" "history_entries (app_fs b1) v = history_entries (app_fs b) v"
    "w_date (ap_world a2) = w_date (ap_world a)" "w_time (ap_world a2) = w_time (ap_world a)"
    "w_date (ap_world b1) = w_date (ap_world b)" "w_time (ap_world b1) = w_time (ap_world b)"
    by (rule keys_by_browser [OF assms(1-8)]) (rule that)
  obtain a3 b2 where "respond he q a2 = (Inr ok_response, a3)" "arrives (he_evp he) (last_sent u a3) v b1 = Some b2"
    "load_key (app_fs a3) u = Inr key" "load_key (app_fs b2) v = Inr key"
    "history_entries (app_fs a3) u = history_entries (app_fs a2) u @ [entry_for u ''you'' m (w_date (ap_world a2)) (w_time (ap_world a2))]"
    "history_entries (app_fs b2) v = history_entries (app_fs b1) v @ [entry_for v ''friend'' m (w_date (ap_world b1)) (w_time (ap_world b1))]"
    "check_activity (ap_world b2) v"
    by (rule text_by_browser [OF assms(1-3) t assms(9-15)]) (rule that)
  then show ?thesis using k h by (intro exI conjI) simp_all
qed

text \<open>A host with a key pair and one friend.\<close>

definition talking_fs :: "string \<Rightarrow> filesys" where
  "talking_fs u = \<lparr>fs_files = [(ecc_file, string_of (replicate 32 9)), (ecc_pub_file, string_of (replicate 32 9))],
     fs_dirs = [[''user_settings''], [''friends''], [''friends'', u]]\<rparr>"

definition talking_app :: "string \<Rightarrow> app" where
  "talking_app u = \<lparr>ap_world = sample_world (talking_fs u), ap_conns = [(u, Some (sample_server u))]\<rparr>"

lemma talking_talks:
  assumes "plain_name u"
  shows "talks_to (talking_app u) u (sample_server u)" "has_keys plain_evp (app_fs (talking_app u))"
    "history_entries (app_fs (talking_app u)) u = []"
proof -
  have e: "ecc_file = [''user_settings'', ''ECC'']" "ecc_pub_file = [''user_settings'', ''ECC_PUB'']" by code_simp+
  have fs: "app_fs (talking_app u) = talking_fs u" by (simp add: talking_app_def app_fs_def sample_world_def)
  have "can_write (talking_fs u) (friend_file u ''AES'')" "can_write (talking_fs u) (messages_file u)"
    "fs_read (talking_fs u) (messages_file u) = None"
    using friend_file_eq [OF assms]
    by (simp_all add: messages_file_def talking_fs_def can_write_def is_directory_def fs_read_def e)
  then show "talks_to (talking_app u) u (sample_server u)" "history_entries (app_fs (talking_app u)) u = []"
    using assms
    by (simp_all add: talks_to_def fs history_ok_def whole_records_Nil history_entries_def)
      (simp add: talking_app_def sample_world_def plain_entropy_ok one_line_def)
  show "has_keys plain_evp (app_fs (talking_app u))"
    unfolding has_keys_def fs
    by (rule exI [of _ "replicate 32 9"], rule exI [of _ "replicate 32 9"])
      (simp add: talking_fs_def fs_read_def is_directory_def e plain_evp_def)
qed

theorem first_conversation_witness:
  "\<exists>a1 b1 a2 a3 b2. respond browsing_env (''GET /exchange_keys/'' @ newcomer @ '' HTTP/1.1'') (talking_app newcomer) = (Inr ok_response, a1)
    \<and> arrives plain_evp (last_sent newcomer a1) someone (talking_app someone) = Some b1
    \<and> arrives plain_evp (last_sent someone b1) newcomer a1 = Some a2
    \<and> respond browsing_env ((''POST /send/'' @ newcomer @ '' HTTP/1.1'') @ crlf @ crlf @ message_body ''hello'') a2 = (Inr ok_response, a3)
    \<and> arrives plain_evp (last_sent newcomer a3) someone b1 = Some b2
    \<and> history_entries (app_fs b2) someone = [entry_for someone ''friend'' ''hello'' ''2025-01-02'' ''10:11:12'']"
proof -
  note a = talking_talks [OF plain_newcomer] and b = talking_talks [OF plain_someone]
  have r: "route_of (''GET /exchange_keys/'' @ newcomer @ '' HTTP/1.1'') = ExchangeKeys" by code_simp
  have q: "route_of ((''POST /send/'' @ newcomer @ '' HTTP/1.1'') @ crlf @ crlf @ message_body ''hello'') = SendText"
    unfolding message_body_def by code_simp
  have h: "complete_header (''POST /send/'' @ newcomer @ '' HTTP/1.1'')" unfolding complete_header_def by code_simp
  have l: "length (''POST /send/'' @ newcomer @ '' HTTP/1.1'') + length (message_body ''hello'') < 2 ^ 60"
    by (simp add: message_body_def json_key_def json_escape_def json_escape_char_def)
  have m: "list_all plain_char ''hello''" by (simp add: plain_char_def)
  have d: "w_date (ap_world (talking_app u)) = ''2025-01-02''" "w_time (ap_world (talking_app u)) = ''10:11:12''" for u
    by (simp_all add: talking_app_def sample_world_def)
  have e: "evp_laws (he_evp browsing_env)" "he_endpoint_ok browsing_env" by (simp_all add: plain_evp_laws)
  have k: "has_keys (he_evp browsing_env) (app_fs (talking_app newcomer))" using a(2) by simp
  from first_conversation [OF e _ a(1) b(1) k refl r refl q h l _ _ m] show ?thesis
    by (simp add: b(3) d) blast
qed

end
