(* ===== verification/Arrivals.thy ===== *)
theory Arrivals
  imports Conversation
begin

text \<open>
  What a receiver makes of texts in the order, and as often, as the network delivers them, and of texts from
  somebody who is not the friend. A datagram has no number that is looked at and no sender that is checked:
  the history is the log of arrivals, and whoever can reach the port and knows the public key can replace
  the key of a friend and speak in that friend's name.
\<close>

section \<open>A datagram that carries a text\<close>

text \<open>Whoever listens and holds the key stores the text.\<close>

definition carries :: "evp \<Rightarrow> byte list \<Rightarrow> byte list \<Rightarrow> string \<Rightarrow> bool" where
  "carries ev key d msg \<longleftrightarrow> (\<forall>(r :: udp_server) (v :: world). listening r \<longrightarrow> load_key (w_fs v) (us_uuid r) = Inr key \<longrightarrow>
     receive ev d (r, v) = (Inr (), (idle r, text_arrives (us_uuid r) msg (packet_seen (us_uuid r) v))))"

definition text_ok :: "string \<Rightarrow> bool" where
  "text_ok msg \<longleftrightarrow> msg \<noteq> [] \<and> length msg \<le> 463 \<and> one_line msg"

lemma text_sent:
  assumes "evp_laws ev" "entropy_ok (w_entropy w)" "load_key (w_fs w) (us_uuid s) = Inr key"
    and "msg \<noteq> []" "length msg \<le> 463"
  obtains d s' w' where "send_text ev msg (s, w) = (s', w')" "us_outbox s' = us_outbox s @ [d]"
    "us_uuid s' = us_uuid s" "w_fs w' = w_fs w" "entropy_ok (w_entropy w')" "carries ev key d msg"
proof -
  obtain p s' w' where snd: "send_text ev msg (s, w) = (s', w')" "us_outbox s' = us_outbox s @ [get_bytes p]"
    "w_fs w' = w_fs w" "entropy_ok (w_entropy w')"
    using send_text_encrypted [OF assms(1-3)] by metis
  have "carries ev key (get_bytes p) msg"
    unfolding carries_def
  proof (intro allI impI)
    fix r :: udp_server and v :: world assume "listening r" "load_key (w_fs v) (us_uuid r) = Inr key"
    from text_goes_through [OF assms(1,2) this(1) assms(3) this(2) assms(4,5)] show
      "receive ev (get_bytes p) (r, v) = (Inr (), (idle r, text_arrives (us_uuid r) msg (packet_seen (us_uuid r) v)))"
      using snd(1,2) by auto
  qed
  moreover have "us_uuid s' = us_uuid s" using uuid_kept(1) [of ev msg s w] snd(1) by simp
  ultimately show thesis using that snd by blast
qed

section \<open>Any number of texts, in any order of arrival\<close>

fun send_texts :: "evp \<Rightarrow> string list \<Rightarrow> conn \<Rightarrow> conn" where
  "send_texts ev [] c = c"
| "send_texts ev (msg # msgs) c = send_texts ev msgs (send_text ev msg c)"

lemma texts_sent:
  assumes "evp_laws ev" "entropy_ok (w_entropy w)" "load_key (w_fs w) (us_uuid s) = Inr key" "list_all text_ok msgs"
  shows "\<exists>ds. us_outbox (fst (send_texts ev msgs (s, w))) = us_outbox s @ ds \<and> list_all2 (carries ev key) ds msgs"
  using assms(2-4)
proof (induction msgs arbitrary: s w)
  case (Cons msg msgs)
  have m: "msg \<noteq> []" "length msg \<le> 463" using Cons.prems(3) by (simp_all add: text_ok_def)
  obtain d s' w' where d: "send_text ev msg (s, w) = (s', w')" "us_outbox s' = us_outbox s @ [d]"
    "us_uuid s' = us_uuid s" "w_fs w' = w_fs w" "entropy_ok (w_entropy w')" "carries ev key d msg"
    using text_sent [OF assms(1) Cons.prems(1,2) m] by blast
  obtain ds where "us_outbox (fst (send_texts ev msgs (s', w'))) = us_outbox s' @ ds" "list_all2 (carries ev key) ds msgs"
    using Cons.IH [of w' s'] Cons.prems d by auto
  then show ?case using d by (intro exI [of _ "d # ds"]) simp
qed simp

text \<open>A listening connection whose history and key file are in order.\<close>

definition hears :: "string \<Rightarrow> byte list \<Rightarrow> conn \<Rightarrow> bool" where
  "hears u key c \<longleftrightarrow> (case c of (r, v) \<Rightarrow> us_uuid r = u \<and> plain_name u \<and> listening r \<and> history_ok (w_fs v) u
     \<and> load_key (w_fs v) u = Inr key \<and> one_line (w_date v) \<and> one_line (w_time v))"

lemma text_arrives_clock [simp]:
  "w_date (text_arrives u msg w) = w_date w" "w_time (text_arrives u msg w) = w_time w"
  "w_date (packet_seen u w) = w_date w" "w_time (packet_seen u w) = w_time w"
  by (simp_all add: text_arrives_def save_message_now_def packet_seen_def Let_def)

lemma text_heard:
  assumes "hears u key (r, v)" "carries ev key d msg" "one_line msg"
  obtains r' v' where "receive ev d (r, v) = (Inr (), (r', v'))" "hears u key (r', v')"
    "history_entries (w_fs v') u = history_entries (w_fs v) u @ [entry_for u ''friend'' msg (w_date v) (w_time v)]"
    "w_date v' = w_date v" "w_time v' = w_time v"
proof -
  let ?v = "text_arrives u msg (packet_seen u v)"
  have h: "us_uuid r = u" "plain_name u" "listening r" "history_ok (w_fs v) u" "load_key (w_fs v) u = Inr key"
    "one_line (w_date v)" "one_line (w_time v)" using assms(1) by (simp_all add: hears_def)
  have "receive ev d (r, v) = (Inr (), (idle r, ?v))" using assms(2) h(1,3,5) by (simp add: carries_def)
  moreover note s = save_message_refines [OF h(4) _ assms(3) h(6,7), of "''friend''"]
  then have "hears u key (idle r, ?v)"
    using h key_beside_history by (simp add: hears_def text_arrives_fields listening_def idle_def)
  ultimately show thesis using that [of "idle r" ?v] s by (simp add: text_arrives_fields)
qed

lemma texts_heard:
  assumes "hears u key (r, v)" "list_all (\<lambda>(d, m). carries ev key d m \<and> one_line m) dms"
  shows "\<exists>r' v'. udp_run ev nt (map (\<lambda>(d, m). Datagram d) dms) (r, v) = (Inr (), (r', v')) \<and> hears u key (r', v')
    \<and> history_entries (w_fs v') u = history_entries (w_fs v) u
       @ map (\<lambda>(d, m). entry_for u ''friend'' m (w_date v) (w_time v)) dms"
  using assms
proof (induction dms arbitrary: r v)
  case Nil
  then show ?case by simp
next
  case (Cons dm dms)
  obtain d m where dm: "dm = (d, m)" by (metis prod.exhaust)
  have d: "carries ev key d m" "one_line m" using Cons.prems(2) dm by simp_all
  obtain r1 v1 where 1: "receive ev d (r, v) = (Inr (), (r1, v1))" "hears u key (r1, v1)"
    "history_entries (w_fs v1) u = history_entries (w_fs v) u @ [entry_for u ''friend'' m (w_date v) (w_time v)]"
    "w_date v1 = w_date v" "w_time v1 = w_time v"
    by (rule text_heard [OF Cons.prems(1) d]) (rule that)
  have l: "us_receiving r" using Cons.prems(1) by (simp add: hears_def listening_def)
  have "list_all (\<lambda>(d, m). carries ev key d m \<and> one_line m) dms" using Cons.prems(2) by simp
  from Cons.IH [OF 1(2) this] show ?case using 1 l dm by simp
qed

text \<open>
  C6: the history is the log of arrivals. Somebody sends a friend any number of texts; the network loses,
  repeats and reorders their datagrams as it likes. The friend's history gets one entry for each
  datagram that arrives, in the order of arrival, with exactly the text it carries: no text is altered or
  attributed to another moment, but a repeated datagram is a repeated text, and nothing restores the order.
\<close>

theorem texts_in_arrival_order:
  assumes "evp_laws ev" "entropy_ok (w_entropy w)" "load_key (w_fs w) (us_uuid s) = Inr key"
    and "list_all text_ok msgs" "hears u key (r, v)" "\<forall>i \<in> set is. i < length msgs"
  shows "\<exists>ds r' v'. us_outbox (fst (send_texts ev msgs (s, w))) = us_outbox s @ ds \<and> length ds = length msgs
    \<and> udp_run ev nt (map (\<lambda>i. Datagram (ds ! i)) is) (r, v) = (Inr (), (r', v'))
    \<and> history_entries (w_fs v') u = history_entries (w_fs v) u
        @ map (\<lambda>i. entry_for u ''friend'' (msgs ! i) (w_date v) (w_time v)) is"
proof -
  obtain ds where ds: "us_outbox (fst (send_texts ev msgs (s, w))) = us_outbox s @ ds" "list_all2 (carries ev key) ds msgs"
    using texts_sent [OF assms(1-4)] by blast
  let ?dms = "map (\<lambda>i. (ds ! i, msgs ! i)) is"
  have "list_all (\<lambda>(d, m). carries ev key d m \<and> one_line m) ?dms"
    using ds(2) assms(4,6) by (auto simp: list_all_iff list_all2_conv_all_nth text_ok_def)
  from texts_heard [OF assms(5) this, of nt] ds list_all2_lengthD [OF ds(2)] show ?thesis
    by (auto simp: comp_def)
qed

theorem texts_in_arrival_order_witness:
  "\<exists>ds r' v'. us_outbox (fst (send_texts plain_evp [''one'', ''two''] (sample_server ''f'', sample_world (sample_fs (replicate 32 7))))) = ds
    \<and> udp_run plain_evp open_net (map (\<lambda>i. Datagram (ds ! i)) [1, 0, 1])
        (sample_server ''f'', sample_world (sample_fs (replicate 32 7))) = (Inr (), (r', v'))
    \<and> history_entries (w_fs v') ''f'' = map (\<lambda>m. entry_for ''f'' ''friend'' m ''2025-01-02'' ''10:11:12'') [''two'', ''one'', ''two'']"
proof -
  let ?w = "sample_world (sample_fs (replicate 32 7))"
  have k: "load_key (sample_fs (replicate 32 7)) ''f'' = Inr (replicate 32 7)" by (rule sample_key) simp
  have f: "plain_name ''f''" by (simp add: plain_name_def is_sep_def)
  have m: "messages_file ''f'' = [''friends'', ''f'', ''messages.txt'']" "friend_file ''f'' ''AES'' = [''friends'', ''f'', ''AES'']"
    using f by (simp_all add: messages_file_def friend_file_plain plain_name_def is_sep_def)
  have d: "w_date ?w = ''2025-01-02''" "w_time ?w = ''10:11:12''" by (simp_all add: sample_world_def)
  have "hears ''f'' (replicate 32 7) (sample_server ''f'', ?w)" "history_entries (sample_fs (replicate 32 7)) ''f'' = []"
    using k f d m
    by (simp_all add: hears_def one_line_def history_ok_def history_entries_def sample_fs_def can_write_def is_directory_def
        fs_read_def whole_records_Nil)
  moreover have "list_all text_ok [''one'', ''two'']" by (simp add: text_ok_def one_line_def)
  ultimately show ?thesis
    using texts_in_arrival_order [OF plain_evp_laws, of ?w "sample_server ''f''" "replicate 32 7" "[''one'', ''two'']" "''f''"
      "sample_server ''f''" ?w "[1, 0, 1]" open_net] k d
    by (simp add: plain_entropy_ok numeral_2_eq_2)
qed

section \<open>A stranger\<close>

text \<open>A key that somebody wraps for a public key is taken for the friend's.\<close>

lemma key_planted:
  assumes "evp_laws ev" "entropy_ok (w_entropy w)" "can_write (w_fs w) (friend_file (us_uuid s) ''AES'')"
    and "listening r" "plain_name (us_uuid r)" "history_ok (w_fs v) (us_uuid r)" "one_line (w_date v)" "one_line (w_time v)"
    and "can_write (w_fs v) (friend_file (us_uuid r) ''AES'')"
    and "fs_read (w_fs v) ecc_file = Some (string_of priv)" "length priv = 32" "x25519_public ev priv = Some pub"
  obtains d s1 w1 key r1 v1 where "send_encrypted_AES_key ev pub (s, w) = (Inr (), (s1, w1))"
    "us_outbox s1 = us_outbox s @ [d]" "us_uuid s1 = us_uuid s" "entropy_ok (w_entropy w1)"
    "load_key (w_fs w1) (us_uuid s) = Inr key"
    "receive ev d (r, v) = (Inr (), (r1, v1))" "hears (us_uuid r) key (r1, v1)"
    "history_entries (w_fs v1) (us_uuid r) = history_entries (w_fs v) (us_uuid r)"
    "w_date v1 = w_date v" "w_time v1 = w_time v"
proof -
  let ?u = "us_uuid r"
  obtain key m p w1 where p: "send_encrypted_AES_key ev pub (s, w) = (Inr (), (send_arr (get_bytes p) s, w1))"
    "packet_ok p" "pk_type p = byte_of CHR ''O''" "pk_message p = wrapped_content m" "length m = 96" "length key = 32"
    "w_fs w1 = fs_write (w_fs w) (friend_file (us_uuid s) ''AES'') (hex_string key)"
    "decrypt_ECC ev (w_fs v) m = Inr key" "entropy_ok (w_entropy w1)"
    using send_wrapped_key [OF assms(1,2,11,12)] assms(10) by metis
  let ?v = "(packet_seen ?u v)\<lparr>w_fs := fs_write (w_fs v) (friend_file ?u ''AES'') (hex_string key)\<rparr>"
  have "receive ev (get_bytes p) (r, v) = (Inr (), (idle r, ?v))" by (rule receive_wrapped [OF assms(4) p(2-5,8)])
  moreover have "load_key (w_fs ?v) ?u = Inr key" using p(6) assms(9) by (simp add: load_key_of_hex fs_read_simps)
  then have "hears ?u key (idle r, ?v)"
    using assms(4-8) history_beside_key(1) [OF assms(5)] by (simp add: hears_def listening_def idle_def)
  moreover have "load_key (w_fs w1) (us_uuid s) = Inr key"
    using p(6,7) assms(3) by (simp add: load_key_of_hex fs_read_simps)
  ultimately show thesis
    using that [of "send_arr (get_bytes p) s" w1 "get_bytes p" key "idle r" ?v] p(1,9) history_beside_key(2) [OF assms(5)]
    by (simp add: send_arr_def)
qed

text \<open>
  C7: a stranger speaks in a friend's name. The public key travels in the clear. Somebody who has seen one
  announcement of it and can reach the port of the connection (nobody's key, nobody's friend) wraps a
  key of his own for it and sends that, and then a text under this key. The receiver takes the key for the
  friend's, stores the text as the friend's, and what its user types for the friend from then on is
  readable for the stranger, who has the same key.
\<close>

theorem stranger_speaks:
  assumes "evp_laws ev" "entropy_ok (w_entropy w)" "can_write (w_fs w) (friend_file (us_uuid s) ''AES'')"
    and "listening r" "plain_name (us_uuid r)" "history_ok (w_fs v) (us_uuid r)" "one_line (w_date v)" "one_line (w_time v)"
    and "can_write (w_fs v) (friend_file (us_uuid r) ''AES'')"
    and "fs_read (w_fs v) ecc_file = Some (string_of priv)" "length priv = 32"
    and "x25519_public ev priv = Some pub" "length pub = 32" "fs_read (w_fs v) ecc_pub_file = Some (string_of pub)"
    and "text_ok msg"
  shows "\<exists>d0 r0 v0 d1 s1 w1 d2 s2 w2 r2 v2 key. send_ECC_public_key (r, v) = (Inr (), (r0, v0)) \<and> us_outbox r0 = us_outbox r @ [d0]
    \<and> send_encrypted_AES_key ev (take 32 (drop 1 (actual_data d0))) (s, w) = (Inr (), (s1, w1)) \<and> us_outbox s1 = us_outbox s @ [d1]
    \<and> send_text ev msg (s1, w1) = (s2, w2) \<and> us_outbox s2 = us_outbox s1 @ [d2]
    \<and> udp_run ev nt [Datagram d1, Datagram d2] (r0, v0) = (Inr (), (r2, v2))
    \<and> history_entries (w_fs v2) (us_uuid r) = history_entries (w_fs v) (us_uuid r)
        @ [entry_for (us_uuid r) ''friend'' msg (w_date v) (w_time v)]
    \<and> load_key (w_fs v2) (us_uuid r) = Inr key \<and> load_key (w_fs w2) (us_uuid s) = Inr key"
proof -
  let ?u = "us_uuid r"
  obtain p0 v0 where p0: "send_ECC_public_key (r, v) = (Inr (), (send_arr (get_bytes p0) r, v0))" "packet_ok p0"
    "pk_message p0 = content_array ([byte_of CHR ''P''] @ pub @ pub @ pub)" "w_fs v0 = w_fs v" "w_date v0 = w_date v" "w_time v0 = w_time v"
    using send_public_key [OF assms(14,13)] by metis
  let ?r0 = "send_arr (get_bytes p0) r"
  have r0: "listening ?r0" "us_uuid ?r0 = ?u" "us_outbox ?r0 = us_outbox r @ [get_bytes p0]"
    using assms(4) by (simp_all add: send_arr_def listening_def)
  obtain d1 s1 w1 key r1 v1 where k: "send_encrypted_AES_key ev pub (s, w) = (Inr (), (s1, w1))"
    "us_outbox s1 = us_outbox s @ [d1]" "us_uuid s1 = us_uuid s" "entropy_ok (w_entropy w1)"
    "load_key (w_fs w1) (us_uuid s) = Inr key" "receive ev d1 (?r0, v0) = (Inr (), (r1, v1))" "hears ?u key (r1, v1)"
    "history_entries (w_fs v1) ?u = history_entries (w_fs v) ?u" "w_date v1 = w_date v" "w_time v1 = w_time v"
    by (rule key_planted [OF assms(1-3) r0(1), of v0 priv pub])
      (use assms(5-12) r0(2) p0(4-6) in \<open>simp_all\<close>)
  have m: "msg \<noteq> []" "length msg \<le> 463" "one_line msg" using assms(15) by (simp_all add: text_ok_def)
  obtain d2 s2 w2 where t: "send_text ev msg (s1, w1) = (s2, w2)" "us_outbox s2 = us_outbox s1 @ [d2]"
    "w_fs w2 = w_fs w1" "carries ev key d2 msg"
    using text_sent [OF assms(1) k(4) _ m(1,2), of s1 key] k(3,5) by metis
  obtain r2 v2 where h: "receive ev d2 (r1, v1) = (Inr (), (r2, v2))" "hears ?u key (r2, v2)"
    "history_entries (w_fs v2) ?u = history_entries (w_fs v1) ?u @ [entry_for ?u ''friend'' msg (w_date v1) (w_time v1)]"
    by (rule text_heard [OF k(7) t(4) m(3)]) (rule that)
  have "us_receiving ?r0" "us_receiving r1" using r0(1) k(7) by (simp_all add: listening_def hears_def)
  then have "udp_run ev nt [Datagram d1, Datagram d2] (?r0, v0) = (Inr (), (r2, v2))" using k(6) h(1) by simp
  moreover have "load_key (w_fs v2) ?u = Inr key" "load_key (w_fs w2) (us_uuid s) = Inr key"
    "history_entries (w_fs v2) ?u = history_entries (w_fs v) ?u @ [entry_for ?u ''friend'' msg (w_date v) (w_time v)]"
    using h(2,3) k(5,8-10) t(3) by (simp_all add: hears_def)
  moreover have "send_encrypted_AES_key ev (take 32 (drop 1 (actual_data (get_bytes p0)))) (s, w) = (Inr (), (s1, w1))"
    using packet_fields [OF p0(2)] announced_key(3) [OF assms(13) p0(3)] k(1) by simp
  moreover note p0(1) r0(3) k(2) t(1,2)
  ultimately show ?thesis by (intro exI conjI)
qed

text \<open>The stranger has nothing but a directory to work in; the victim is the host of \<open>talking_fs\<close>.\<close>

theorem stranger_speaks_witness:
  "\<exists>d1 d2 r0 v0 r2 v2. udp_run plain_evp open_net [Datagram d1, Datagram d2] (r0, v0) = (Inr (), (r2, v2))
    \<and> history_entries (w_fs v2) someone = [entry_for someone ''friend'' ''send money'' ''2025-01-02'' ''10:11:12'']"
proof -
  note t = talking_talks [OF plain_someone]
  let ?w = "sample_world (sample_fs [])" and ?s = "sample_server ''f''"
    and ?v = "sample_world (talking_fs someone)" and ?r = "sample_server someone"
  have fs: "app_fs (talking_app someone) = talking_fs someone" by (simp add: talking_app_def app_fs_def sample_world_def)
  have e: "ecc_file = [''user_settings'', ''ECC'']" "ecc_pub_file = [''user_settings'', ''ECC_PUB'']" by code_simp+
  have f: "entropy_ok (w_entropy ?w)" "can_write (w_fs ?w) (friend_file (us_uuid ?s) ''AES'')"
    by (simp add: plain_entropy_ok)
      (simp add: sample_fs_def can_write_def is_directory_def friend_file_plain plain_name_def is_sep_def)
  have r: "listening ?r" "plain_name (us_uuid ?r)" "history_ok (w_fs ?v) (us_uuid ?r)" "one_line (w_date ?v)" "one_line (w_time ?v)"
    "can_write (w_fs ?v) (friend_file (us_uuid ?r) ''AES'')"
    using t(1) fs plain_someone by (simp_all add: talks_to_def del: append.simps) (simp_all add: sample_world_def one_line_def)
  have k: "fs_read (w_fs ?v) ecc_file = Some (string_of (replicate 32 9))" "length (replicate 32 (9::byte)) = 32"
    "x25519_public plain_evp (replicate 32 9) = Some (replicate 32 9)" "length (replicate 32 (9::byte)) = 32"
    "fs_read (w_fs ?v) ecc_pub_file = Some (string_of (replicate 32 9))" "text_ok ''send money''"
    by (simp_all add: talking_fs_def fs_read_def is_directory_def e plain_evp_def text_ok_def one_line_def)
  have h: "history_entries (w_fs ?v) (us_uuid ?r) = []" "w_date ?v = ''2025-01-02''" "w_time ?v = ''10:11:12''"
    using t(3) fs by (simp_all add: sample_world_def)
  from stranger_speaks [OF plain_evp_laws f r k, of open_net] show ?thesis
    unfolding h by (elim exE conjE, intro exI conjI) (assumption, simp)
qed

end
