(* ===== verification/Sharing.thy ===== *)
theory Sharing
  imports Conversation
begin

text \<open>
  A file from one browser to the other: the upload request, the transfer it starts, the pieces in
  any order, and the page of the receiver that shows the file.
\<close>

section \<open>The upload request\<close>

text \<open>The header names the file; the name is followed by the end of its line.\<close>

definition names_file :: "string \<Rightarrow> string \<Rightarrow> bool" where
  "names_file hdr name \<longleftrightarrow> (\<exists>k rest. find_list ''X-Filename: '' hdr = Some k \<and> k + 12 < 2 ^ 60
     \<and> drop (k + 12) hdr @ blank_line = name @ crlf @ rest) \<and> carriage_return \<notin> set name"

lemma upload_name_read:
  assumes "names_file hdr name" "length hdr + length body < 2 ^ 60"
  shows "upload_file_name (hdr @ blank_line @ body) mid = Inr name"
proof -
  obtain k rest where k: "find_list ''X-Filename: '' hdr = Some k" "k + 12 < 2 ^ 60"
    "drop (k + 12) hdr @ blank_line = name @ crlf @ rest" and cr: "carriage_return \<notin> set name"
    using assms(1) unfolding names_file_def by blast
  let ?r = "hdr @ blank_line @ body"
  have f: "str_find ?r ''X-Filename: '' 0 = k"
    by (rule str_find_here) (rule find_list_append [OF k(1)])
  have l: "k + 12 \<le> length hdr" using find_list_Some [OF k(1)] by simp
  then have "drop (k + 12) ?r = name @ crlf @ rest @ body" using k(3) by simp
  moreover have "substr ?r (k + 12) npos = Inr (drop (k + 12) ?r)"
    by (rule substr_to_end) (use l assms(2) in \<open>simp_all add: npos_def\<close>)
  moreover have "str_find (name @ crlf @ rest @ body) crlf 0 = length name"
    by (rule str_find_here) (use find_list_behind [of crlf name "rest @ body"] cr in simp)
  moreover have "k \<noteq> npos" using short_npos [of k] k(2) by simp

  ultimately show ?thesis unfolding upload_file_name_def Let_def f by simp
qed

lemma raw_body_request:
  assumes "complete_header hdr"
  shows "raw_body (hdr @ blank_line @ body) = body"
proof -
  have "str_find (hdr @ blank_line @ body) blank_line 0 = length hdr"
    by (rule str_find_here) (rule blank_line_in_header [OF assms])
  then show ?thesis by (simp add: raw_body_def)
qed

text \<open>The connection gets the file and the sender's own copy goes below \<open>received\<close>.\<close>

lemma upload_request:
  assumes "he_endpoint_ok he" "length u = 36" "r = (''POST /upload/file/'' @ u @ hdr) @ blank_line @ content"
    and "complete_header (''POST /upload/file/'' @ u @ hdr)" "names_file (''POST /upload/file/'' @ u @ hdr) name"
    and "length (''POST /upload/file/'' @ u @ hdr) + length content < 2 ^ 60" "route_of r = UploadFile"
    and "map_of (ap_conns a) u = Some (Some s)"
    and "create_directories (app_fs a) (resolve (received_dir (g_uuid (ap_world a)))) = Inr fs"
  shows "respond he r a = (Inr ok_response, \<lparr>ap_world = (snd (next_rand (ap_world a)))
      \<lparr>w_fs := fs_write fs (stored_at (g_uuid (ap_world a)) name) content\<rparr>,
    ap_conns = AList.update u (Some (send_file (get_messageID (fst (next_rand (ap_world a)))) (bytes_of content) name s))
      (ap_conns a)\<rparr>)"
proof -
  have u: "path_uuid r ''POST /upload/file/'' = Inr u"
    using path_uuid_start [of "''POST /upload/file/''" u] assms(2,3) by simp
  have n: "upload_file_name r mid = Inr name" for mid
    using upload_name_read [OF assms(5,6)] assms(3) by simp
  have c: "raw_body r = content" using raw_body_request [OF assms(4)] assms(3) by simp
  have "upload_file r a = (Inr ok_response, \<lparr>ap_world = (snd (next_rand (ap_world a)))
      \<lparr>w_fs := fs_write fs (stored_at (g_uuid (ap_world a)) name) content\<rparr>,
    ap_conns = AList.update u (Some (send_file (get_messageID (fst (next_rand (ap_world a)))) (bytes_of content) name s))
      (ap_conns a)\<rparr>)"
    using u n c assms(8,9)
    by (simp add: upload_file_def with_connection_def next_rand_def Let_def app_fs_def set_world_def stored_at_def
        received_dir_def)
  then show ?thesis using assms(1,7) by (simp add: respond_def serve_def)
qed

section \<open>The file in the receiver's browser\<close>

lemma no_find_char: "c \<notin> set xs \<Longrightarrow> find_list [c] xs = None"
  by (induction xs) (auto simp: starts_with_def)

lemma image_request:
  assumes "he_endpoint_ok he" "length v = 36" "CHR '' '' \<notin> set v" "CHR '' '' \<notin> set name" "CHR ''?'' \<notin> set name"
    and "length name < 2 ^ 60" "g = ''GET /imgs/'' @ v @ CHR ''/'' # name @ '' HTTP/'' @ y" "route_of g = Imgs"
    and "fs_read (app_fs b) (stored_at v name) = Some content"
  shows "respond he g b = (Inr (make_http_response content ''image/jpeg''), b)"
proof -
  have "img_name g ''GET /imgs/'' = Inr name" using image_name [OF assms(3,4,2,6)] assms(7) by simp
  moreover have "path_uuid g ''GET /imgs/'' = Inr v"
    using path_uuid_start [of "''GET /imgs/''" v] assms(2,7) by simp
  moreover have "find_list ''?'' name = None"
    by (rule no_find_char [OF assms(5)])
  then have "cut_query name = name" by (simp add: cut_query_def str_find_def)
  moreover have "resolve (received_path v name) = stored_at v name"
    by (simp add: received_path_def stored_at_def received_dir_def)
  ultimately have "get_img g (app_fs b) = Inr (make_http_response content ''image/jpeg'')"
    using assms(9) by (simp add: get_img_def read_file_def)
  then show ?thesis using assms(1,8) by (simp add: respond_def serve_def app_fs_def)
qed

section \<open>Runs of one connection\<close>

text \<open>Operations of the connection \<open>u\<close>, one after the other, in the state of the process.\<close>

primrec conn_run :: "(conn \<Rightarrow> unit res \<times> conn) list \<Rightarrow> string \<Rightarrow> app \<Rightarrow> app option" where
  "conn_run [] u a = Some a"
| "conn_run (op # ops) u a = (case map_of (ap_conns a) u of
     Some (Some s) \<Rightarrow>
       (case op (s, ap_world a) of
          (Inr _, (s', w')) \<Rightarrow> conn_run ops u \<lparr>ap_world = w', ap_conns = AList.update u (Some s') (ap_conns a)\<rparr>
        | (Inl _, _) \<Rightarrow> None)
   | _ \<Rightarrow> None)"

abbreviation fires :: "evp \<Rightarrow> nat \<Rightarrow> (conn \<Rightarrow> unit res \<times> conn) list" where
  "fires ev n \<equiv> replicate n (transmit_fires ev)"

abbreviation receives :: "evp \<Rightarrow> byte list list \<Rightarrow> (conn \<Rightarrow> unit res \<times> conn) list" where
  "receives ev ds \<equiv> map (receive ev) ds"

lemma conn_run_transfer:
  "map_of (ap_conns a) u = Some (Some s) \<Longrightarrow> run_transfer ev n (s, ap_world a) = (Inr (), (s', w')) \<Longrightarrow>
     \<exists>a'. conn_run (fires ev n) u a = Some a' \<and> ap_world a' = w' \<and> map_of (ap_conns a') u = Some (Some s')"
proof (induction n arbitrary: a s)
  case (Suc n)
  then obtain s1 w1 where o: "transmit_fires ev (s, ap_world a) = (Inr (), (s1, w1))"
    "run_transfer ev n (s1, w1) = (Inr (), (s', w'))" by (auto split: prod.splits sum.splits)
  show ?case
    using Suc.IH [of "\<lparr>ap_world = w1, ap_conns = AList.update u (Some s1) (ap_conns a)\<rparr>" s1] o Suc.prems(1)
    by (simp add: update_conv')
qed simp

lemma conn_run_feed:
  "map_of (ap_conns a) u = Some (Some s) \<Longrightarrow> feed ev ds (s, ap_world a) = (Inr (), (s', w')) \<Longrightarrow>
     \<exists>a'. conn_run (receives ev ds) u a = Some a' \<and> ap_world a' = w' \<and> map_of (ap_conns a') u = Some (Some s')"
proof (induction ds arbitrary: a s)
  case (Cons d ds)
  then obtain s1 w1 where o: "receive ev d (s, ap_world a) = (Inr (), (s1, w1))"
    "feed ev ds (s1, w1) = (Inr (), (s', w'))" by (auto split: prod.splits sum.splits)
  show ?case
    using Cons.IH [of "\<lparr>ap_world = w1, ap_conns = AList.update u (Some s1) (ap_conns a)\<rparr>" s1] o Cons.prems(1)
    by (simp add: update_conv')
qed simp

text \<open>A connection \<open>s\<close> to the friend \<open>u\<close> whose key is \<open>key\<close>.\<close>

definition shares_key :: "app \<Rightarrow> string \<Rightarrow> udp_server \<Rightarrow> byte list \<Rightarrow> bool" where
  "shares_key a u s key \<longleftrightarrow> map_of (ap_conns a) u = Some (Some s) \<and> us_uuid s = u \<and> plain_name u \<and> listening s
     \<and> load_key (app_fs a) u = Inr key"

lemma stored_name_plain: "sent_name_ok name \<Longrightarrow> name \<noteq> ''.'' \<Longrightarrow> name \<noteq> ''..'' \<Longrightarrow> plain_name name"
  by (auto simp: sent_name_ok_def plain_name_def list_all_iff bad_name_char_def is_sep_def)

text \<open>The sender's own copy leaves the key alone.\<close>

lemma key_beside_copy:
  assumes "plain_name u" "plain_name g" "plain_name name"
    and "create_directories fs0 (resolve (received_dir g)) = Inr fs"
  shows "load_key (fs_write fs (stored_at g name) c) u = load_key fs0 u"
  using friend_file_eq(3) [OF assms(1)] received_paths(2) [OF assms(2,3)] create_directories_made(3) [OF assms(4)]
  by (simp add: load_key_def stored_at_def fs_read_simps)

text \<open>
  C2: a file goes from one browser to the other. The upload request stores the sender's copy and
  starts the transfer; the timer fires once for every piece and then nothing is pending. When
  the datagrams reach the friend -- the header first, the pieces in any order and as often as the
  network likes, each of them at least once -- the friend's browser gets from \<open>/imgs/\<close> exactly the bytes that were
  uploaded, under the name that they were uploaded with.
\<close>

theorem file_shared:
  assumes "evp_laws (he_evp he)" "he_endpoint_ok he" "length u = 36" "length v = 36" "CHR '' '' \<notin> set v"
    and "shares_key a u s key" "shares_key b v t key" "entropy_ok (w_entropy (ap_world a))"
    and "plain_name (g_uuid (ap_world a))" "distinct (map fst (us_incoming t))"
    and "r = (''POST /upload/file/'' @ u @ hdr) @ blank_line @ content" "route_of r = UploadFile"
    and "complete_header (''POST /upload/file/'' @ u @ hdr)" "names_file (''POST /upload/file/'' @ u @ hdr) name"
    and "length (''POST /upload/file/'' @ u @ hdr) + length content < 2 ^ 56" "content \<noteq> []"
    and "sent_name_ok name" "CHR '' '' \<notin> set name" "name \<noteq> ''.''" "name \<noteq> ''..''"
    and "create_directories (app_fs a) (resolve (received_dir (g_uuid (ap_world a)))) = Inr fsa"
    and "create_directories (app_fs b) (resolve (received_dir v)) = Inr fsb" "\<not> name_taken fsb v name"
    and "g = ''GET /imgs/'' @ v @ CHR ''/'' # name @ '' HTTP/'' @ y" "route_of g = Imgs"
  shows "\<exists>a1 a2 s2 ds. respond he r a = (Inr ok_response, a1)
    \<and> conn_run (fires (he_evp he) (piece_count (bytes_of content))) u a1 = Some a2
    \<and> map_of (ap_conns a2) u = Some (Some s2) \<and> us_transfer s2 = None
    \<and> us_outbox s2 = us_outbox s @ ds \<and> length ds = Suc (piece_count (bytes_of content))
    \<and> (\<forall>js. set js = {..<piece_count (bytes_of content)} \<longrightarrow>
         (\<exists>b'. conn_run (receives (he_evp he) (hd ds # map (\<lambda>j. tl ds ! j) js)) v b = Some b'
           \<and> respond he g b' = (Inr (make_http_response content ''image/jpeg''), b')))"
proof -
  let ?ev = "he_evp he" and ?w = "ap_world a" and ?data = "bytes_of content"
  let ?mid = "get_messageID (fst (next_rand ?w))"
  let ?w1 = "(snd (next_rand ?w))\<lparr>w_fs := fs_write fsa (stored_at (g_uuid ?w) name) content\<rparr>"
  let ?s1 = "send_file ?mid ?data name s"
  let ?a1 = "\<lparr>ap_world = ?w1, ap_conns = AList.update u (Some ?s1) (ap_conns a)\<rparr>"
  note a = assms(6) [unfolded shares_key_def] and b = assms(7) [unfolded shares_key_def]
  have len: "length (''POST /upload/file/'' @ u @ hdr) + length content < 2 ^ 60" using assms(15) by simp
  have up: "respond he r a = (Inr ok_response, ?a1)"
    using upload_request [OF assms(2,3,11,13,14) len assms(12)] a assms(21) by simp
  have sd: "sendable ?data" using assms(15) by (simp add: sendable_def)
  have pre: "entropy_ok (w_entropy ?w1)" "\<not> us_stopped s" "listening t" "load_key (w_fs ?w1) (us_uuid s) = Inr key"
    "load_key (w_fs (ap_world b)) (us_uuid t) = Inr key" "?data \<noteq> []"
    "create_directories (w_fs (ap_world b)) (resolve (received_dir (us_uuid t))) = Inr fsb"
    using a b assms(8,16,22) key_beside_copy [OF _ assms(9) stored_name_plain [OF assms(17,19,20)] assms(21)]
    by (simp_all add: next_rand_def listening_def app_fs_def)
  obtain name' ds s2 w2 where f: "unique_name fsb (us_uuid t) name = Inr name'"
    "run_transfer ?ev (piece_count ?data) (?s1, ?w1) = (Inr (), (s2, w2))"
    "us_outbox s2 = us_outbox s @ ds" "length ds = Suc (piece_count ?data)" "us_transfer s2 = None"
    "\<And>js. set js = {..<piece_count ?data} \<Longrightarrow>
       delivers ?ev (hd ds # map (\<lambda>j. tl ds ! j) js) ?mid ?data name' (t, ap_world b)"
    using file_goes_through [OF assms(1) pre(1-6) sd assms(17,10) pre(7), of ?mid] by blast
  have name: "name' = name" using f(1) b assms(23) by (simp add: unique_name_def)
  obtain a2 where a2: "conn_run (fires ?ev (piece_count ?data)) u ?a1 = Some a2" "map_of (ap_conns a2) u = Some (Some s2)"
    using conn_run_transfer [of ?a1 u ?s1 ?ev _ s2 w2] f(2) by (auto simp: update_conv')
  have q: "CHR ''?'' \<notin> set name" "length name < 2 ^ 60"
    using assms(17) by (auto simp: sent_name_ok_def list_all_iff bad_name_char_def)
  have "\<exists>b'. conn_run (receives ?ev (hd ds # map (\<lambda>j. tl ds ! j) js)) v b = Some b'
      \<and> respond he g b' = (Inr (make_http_response content ''image/jpeg''), b')"
    if js: "set js = {..<piece_count ?data}" for js
  proof -
    obtain t' v' where d: "feed ?ev (hd ds # map (\<lambda>j. tl ds ! j) js) (t, ap_world b) = (Inr (), (t', v'))"
      "fs_read (w_fs v') (stored_at v name) = Some (string_of ?data)"
      using f(6) [OF js] b name unfolding delivers_def by auto
    obtain b' where b': "conn_run (receives ?ev (hd ds # map (\<lambda>j. tl ds ! j) js)) v b = Some b'" "ap_world b' = v'"
      using conn_run_feed [OF _ d(1)] b by blast
    have "respond he g b' = (Inr (make_http_response content ''image/jpeg''), b')"
      by (rule image_request [OF assms(2,4,5,18) q assms(24,25)]) (simp add: app_fs_def b'(2) d(2))
    then show ?thesis using b'(1) by blast
  qed
  then show ?thesis using up a2 f(3-5) by blast
qed

text \<open>A host with a key for its friend and a directory for received files.\<close>

definition sharing_app :: "string \<Rightarrow> app" where
  "sharing_app u = \<lparr>ap_world = sample_world \<lparr>fs_files = [(friend_file u ''AES'', hex_string (replicate 32 7))],
       fs_dirs = [[''received''], [''received'', ''u''], [''received'', u]]\<rparr>,
     ap_conns = [(u, Some (sample_server u))]\<rparr>"

lemma sharing_shares:
  assumes "plain_name u"
  shows "shares_key (sharing_app u) u (sample_server u) (replicate 32 7)"
    and "create_directories (app_fs (sharing_app u)) (resolve (received_dir u)) = Inr (app_fs (sharing_app u))"
    and "create_directories (app_fs (sharing_app u)) (resolve (received_dir ''u'')) = Inr (app_fs (sharing_app u))"
    and "plain_name n \<Longrightarrow> \<not> name_taken (app_fs (sharing_app u)) u n"
proof -
  have f: "friend_file u ''AES'' = [''friends'', u, ''AES'']" by (rule friend_file_eq(3) [OF assms])
  have k: "load_key (app_fs (sharing_app u)) u = Inr (replicate 32 7)"
    by (rule load_key_of_hex) (simp_all add: sharing_app_def app_fs_def fs_read_def is_directory_def f)
  then show "shares_key (sharing_app u) u (sample_server u) (replicate 32 7)"
    using assms by (simp add: shares_key_def) (simp add: sharing_app_def)
  have p: "plain_name ''u''" by (simp add: plain_name_def is_sep_def)
  show "create_directories (app_fs (sharing_app u)) (resolve (received_dir u)) = Inr (app_fs (sharing_app u))"
    "create_directories (app_fs (sharing_app u)) (resolve (received_dir ''u'')) = Inr (app_fs (sharing_app u))"
    using received_paths(1) [OF assms] received_paths(1) [OF p] f
    by (simp_all add: sharing_app_def app_fs_def create_directories_def path_prefixes_def is_directory_def upt_rec add_dir_def)
  show "\<not> name_taken (app_fs (sharing_app u)) u n" if "plain_name n"
    using received_paths(2) [OF assms that] f
    by (auto simp: name_taken_def sharing_app_def app_fs_def fs_exists_def is_directory_def)
qed

theorem file_shared_witness:
  "\<exists>a1 a2 ds. respond browsing_env ((''POST /upload/file/'' @ newcomer @ '' HTTP/1.1'' @ crlf @ ''X-Filename: a.png'')
        @ blank_line @ ''abc'') (sharing_app newcomer) = (Inr ok_response, a1)
    \<and> conn_run (fires plain_evp 1) newcomer a1 = Some a2 \<and> length ds = 2
    \<and> (\<exists>b'. conn_run (receives plain_evp (hd ds # map (\<lambda>j. tl ds ! j) [0, 0])) someone (sharing_app someone) = Some b'
         \<and> respond browsing_env (''GET /imgs/'' @ someone @ CHR ''/'' # ''a.png'' @ '' HTTP/'' @ ''1.1'') b'
           = (Inr (make_http_response ''abc'' ''image/jpeg''), b'))"
proof -
  let ?hdr = "'' HTTP/1.1'' @ crlf @ ''X-Filename: a.png''"
  note a = sharing_shares [OF plain_newcomer] and b = sharing_shares [OF plain_someone]
  have r: "route_of ((''POST /upload/file/'' @ newcomer @ ?hdr) @ blank_line @ ''abc'') = UploadFile" by code_simp
  have h: "complete_header (''POST /upload/file/'' @ newcomer @ ?hdr)" unfolding complete_header_def by code_simp
  have "find_list ''X-Filename: '' (''POST /upload/file/'' @ newcomer @ ?hdr) = Some 65"
    "drop 77 (''POST /upload/file/'' @ newcomer @ ?hdr) @ blank_line = ''a.png'' @ crlf @ crlf"
    by code_simp+
  then have n: "names_file (''POST /upload/file/'' @ newcomer @ ?hdr) ''a.png''" unfolding names_file_def by fastforce
  have g: "route_of (''GET /imgs/'' @ someone @ CHR ''/'' # ''a.png'' @ '' HTTP/'' @ ''1.1'') = Imgs" by code_simp
  have o: "sent_name_ok ''a.png''" by (simp add: sent_name_ok_def bad_name_char_def)
  have u: "g_uuid (ap_world (sharing_app newcomer)) = ''u''" by (simp add: sharing_app_def sample_world_def)
  have e: "entropy_ok (w_entropy (ap_world (sharing_app newcomer)))" by (simp add: sharing_app_def plain_entropy_ok)
  have p: "plain_name ''u''" "plain_name ''a.png''" by (simp_all add: plain_name_def is_sep_def)
  have c: "piece_count (bytes_of ''abc'') = 1" "piece_count (bytes_of ''abc'') = Suc 0" by (simp_all add: piece_count_def)
  have js: "set [0, 0] = {..<piece_count (bytes_of ''abc'')}" unfolding c(2) by auto
  have l: "he_evp browsing_env = plain_evp" "he_endpoint_ok browsing_env" by simp_all
  obtain a1 a2 ds where x: "respond browsing_env ((''POST /upload/file/'' @ newcomer @ ?hdr) @ blank_line @ ''abc'')
        (sharing_app newcomer) = (Inr ok_response, a1)"
    "conn_run (fires plain_evp (piece_count (bytes_of ''abc''))) newcomer a1 = Some a2"
    "length ds = Suc (piece_count (bytes_of ''abc''))"
    "\<forall>js. set js = {..<piece_count (bytes_of ''abc'')} \<longrightarrow>
         (\<exists>b'. conn_run (receives plain_evp (hd ds # map (\<lambda>j. tl ds ! j) js)) someone (sharing_app someone) = Some b'
           \<and> respond browsing_env (''GET /imgs/'' @ someone @ CHR ''/'' # ''a.png'' @ '' HTTP/'' @ ''1.1'') b'
             = (Inr (make_http_response ''abc'' ''image/jpeg''), b'))"
    using file_shared [OF plain_evp_laws [folded l(1)] l(2) _ _ _ a(1) b(1) e p(1) [folded u] _ refl r h n _ _ o _ _ _
        a(3) [folded u] b(2) b(4) [OF p(2)] refl g, unfolded l(1)] by auto
  have "length ds = 2" using x(3) unfolding c(2) by simp
  then show ?thesis using x(1) x(2) [unfolded c(1)] x(4) [THEN spec, of "[0, 0]", THEN mp, OF js] by blast
qed

end
