(* ===== verification/Meeting.thy ===== *)
theory Meeting
  imports Contact Sharing
begin

text \<open>
  From the coordinating server to the first sign of life: after the rendezvous the punch timers of both
  sides fire, each datagram goes to exactly the port the other one listens on, and each side learns the
  name of the other, shows it as online and no longer asks the server for it.
\<close>

section \<open>The announced name\<close>

definition announceable :: "string \<Rightarrow> bool" where
  "announceable n \<longleftrightarrow> n \<noteq> [] \<and> length n \<le> 64
     \<and> list_all (\<lambda>c. c \<noteq> CHR 0x00 \<and> c \<noteq> carriage_return \<and> c \<noteq> newline) n"

abbreviation name_packet :: "u32 \<Rightarrow> u64 \<Rightarrow> string \<Rightarrow> udp_packet" where
  "name_packet mid pid n \<equiv> packet_of_string (byte_of CHR ''O'') 0 mid pid (bytes_of (CHR ''N'' # n))"

lemma name_in_packet:
  assumes "announceable n"
  shows "pk_message (name_packet mid pid n) ! 0 = byte_of CHR ''N''"
    and "c_string (drop 14 (get_bytes (name_packet mid pid n))) = Inr n"
proof -
  let ?p = "name_packet mid pid n"
  have "CHR 0x00 \<notin> set n" using assms unfolding announceable_def list_all_iff by blast
  moreover have "c = CHR 0x00" if "byte_of c = 0" for c using that byte_of_zero by blast
  ultimately have "0 \<notin> set (bytes_of n)" by force
  then have l: "length n \<le> 64" "0 \<notin> set (bytes_of n)" using assms by (simp_all add: announceable_def)
  have m: "pk_message ?p = byte_of CHR ''N'' # bytes_of n @ replicate (494 - length n) 0"
    using l(1) by (simp add: pad495_def min_def)
  then show "pk_message ?p ! 0 = byte_of CHR ''N''" by simp
  define z where "z = 493 - length n"
  have "494 - length n = Suc z" using l(1) by (simp add: z_def)
  then have d: "drop 14 (get_bytes ?p) = bytes_of n @ 0 # (replicate z 0 @ put32 (pk_checksum ?p))"
    using packet_tail [OF packet_of_string_ok] m by simp
  have "takeWhile (\<lambda>b. b \<noteq> 0) (bytes_of n @ 0 # y) = bytes_of n" for y
    using l(2) by (subst takeWhile_append2) auto
  then show "c_string (drop 14 (get_bytes ?p)) = Inr n" unfolding d c_string_def by simp
qed

lemma punch_sends:
  assumes "\<not> us_stopped s" "read_file (w_fs w) ''./user_settings/name.txt'' = Inr n"
  obtains mid pid w' where "udp_punch (s, w) = (Inr (), ((send_arr (get_bytes (name_packet mid pid n)) s)
      \<lparr>us_punching := True\<rparr>, w'))" "w_fs w' = w_fs w" "same_clock w w'"
  using assms by (simp add: udp_punch_def next_rand_def Let_def same_clock_def)

text \<open>The receiver stores the name, escaped, if it is a new one.\<close>

definition can_rename :: "filesys \<Rightarrow> string \<Rightarrow> bool" where
  "can_rename fs u \<longleftrightarrow> plain_name u \<and> can_write fs (friend_file u ''username.txt'')"

lemma fs_remove_file: "p \<noteq> [] \<Longrightarrow> can_write fs p \<Longrightarrow> \<exists>fs'. fs_remove fs p = Inr fs' \<and> can_write fs' p"
  by (auto simp: fs_remove_def can_write_def is_directory_def)

lemma receive_name:
  assumes "listening r" "announceable n" "can_rename (w_fs v) (us_uuid r)"
  obtains v' where "receive ev (get_bytes (name_packet mid pid n)) (r, v)
      = (Inr (), (idle (r\<lparr>us_username := n\<rparr>), v'))"
    "us_username r \<noteq> n \<Longrightarrow> fs_read (w_fs v') (friend_file (us_uuid r) ''username.txt'') = Some (html_escape n)"
    "\<And>q. q \<noteq> friend_file (us_uuid r) ''username.txt'' \<Longrightarrow> fs_read (w_fs v') q = fs_read (w_fs v) q"
    "fs_dirs (w_fs v') = fs_dirs (w_fs v)" "v' = (packet_seen (us_uuid r) v)\<lparr>w_fs := w_fs v'\<rparr>"
proof -
  let ?p = "name_packet mid pid n" and ?path = "friend_file (us_uuid r) ''username.txt''"
  let ?b = "get_bytes ?p"
  let ?r = "handling ?b r" and ?v = "packet_seen (us_uuid r) v"
  have pk: "packet_ok ?p" "length ?b = 512" using length_get_bytes by simp_all
  have n: "n \<noteq> []" "takeWhile (\<lambda>c. c \<noteq> carriage_return \<and> c \<noteq> newline) n = n" "\<not> 64 < length n"
    using assms(2) by (auto simp: announceable_def list_all_iff takeWhile_eq_all_conv)
  have "?path = [''friends'', us_uuid r, ''username.txt'']"
    using assms(3) friend_file_eq(4) by (simp add: can_rename_def)
  then obtain fs where fs: "fs_remove (w_fs v) ?path = Inr fs" "can_write fs ?path"
    using fs_remove_file [of ?path "w_fs v"] assms(3) by (auto simp: can_rename_def)
  have dirs: "fs_dirs fs = fs_dirs (w_fs v)"
    using fs(1) assms(3) by (auto simp: fs_remove_def can_rename_def can_write_def split: if_splits)
  define v' where "v' = (if us_username r = n then ?v else ?v\<lparr>w_fs := fs_write fs ?path (html_escape n)\<rparr>)"
  have "handle_control ev ?b (pk_message ?p) (?r, ?v) = (Inr (), (?r\<lparr>us_username := n\<rparr>, v'))"
    unfolding handle_control_def name_in_packet(1) [OF assms(2)]
    using name_in_packet(2) [OF assms(2), of mid pid] fs(1)
    by (simp add: handle_username_def v'_def Let_def n handling_def)
  moreover have "listen_again (?r\<lparr>us_username := n\<rparr>, v') = (idle (r\<lparr>us_username := n\<rparr>), v')"
    using assms(1) pk(2) by (simp add: listen_again_idle listening_def handling_def idle_def)
  ultimately have "receive ev ?b (r, v) = (Inr (), (idle (r\<lparr>us_username := n\<rparr>), v'))"
    unfolding receive_packet [OF pk(1) assms(1)] dispatch_packet [OF pk(1)] using letters_differ by simp
  then show thesis
    by (rule that) (use fs fs_remove_other [OF fs(1)] dirs in \<open>simp_all add: v'_def fs_read_simps\<close>)
qed

section \<open>One punch, at the level of the processes\<close>

definition knows_as :: "app \<Rightarrow> string \<Rightarrow> string \<Rightarrow> bool" where
  "knows_as a u n \<longleftrightarrow> check_activity (ap_world a) u \<and> fs_read (app_fs a) (friend_file u ''username.txt'') = Some (html_escape n)"

lemma punch_reaches:
  assumes "map_of (ap_conns a) u = Some (Some s)" "\<not> us_stopped s"
    and "read_file (app_fs a) ''./user_settings/name.txt'' = Inr n" "announceable n"
    and "map_of (ap_conns b) v = Some (Some r)" "listening r" "us_uuid r = v" "us_username r \<noteq> n" "can_rename (app_fs b) v"
  obtains a' b' s' where "conn_run [udp_punch] u a = Some a'" "arrives ev (last_sent u a') v b = Some b'"
    "knows_as b' v n" "v \<notin> set (wanted_friends b')" "map_of (ap_conns a') u = Some (Some s')"
    "s' = (send_arr (last (us_outbox s')) s)\<lparr>us_punching := True\<rparr>" "app_fs a' = app_fs a"
    "same_clock (ap_world a) (ap_world a')"
    "map_of (ap_conns b') v = Some (Some (idle (r\<lparr>us_username := n\<rparr>)))"
    "\<And>f. fs_read (app_fs b') [''user_settings'', f] = fs_read (app_fs b) [''user_settings'', f]"
proof -
  obtain mid pid w' where p: "udp_punch (s, ap_world a) = (Inr (), ((send_arr (get_bytes (name_packet mid pid n)) s)
      \<lparr>us_punching := True\<rparr>, w'))" "w_fs w' = w_fs (ap_world a)" "same_clock (ap_world a) w'"
    using punch_sends [OF assms(2)] assms(3) unfolding app_fs_def by blast
  let ?d = "get_bytes (name_packet mid pid n)" and ?s = "(send_arr (get_bytes (name_packet mid pid n)) s)\<lparr>us_punching := True\<rparr>"
  let ?a = "\<lparr>ap_world = w', ap_conns = AList.update u (Some ?s) (ap_conns a)\<rparr>"
  have cr: "can_rename (w_fs (ap_world b)) (us_uuid r)" using assms(7,9) by (simp add: app_fs_def)
  obtain v' where r0: "receive ev ?d (r, ap_world b) = (Inr (), (idle (r\<lparr>us_username := n\<rparr>), v'))"
    "us_username r \<noteq> n \<Longrightarrow> fs_read (w_fs v') (friend_file (us_uuid r) ''username.txt'') = Some (html_escape n)"
    "\<And>q. q \<noteq> friend_file (us_uuid r) ''username.txt'' \<Longrightarrow> fs_read (w_fs v') q = fs_read (w_fs (ap_world b)) q"
    by (rule receive_name [OF assms(6,4) cr, of ev mid pid]) (rule that)
  note r = r0(1) r0(2) [OF assms(8), unfolded assms(7)] r0(3) [unfolded assms(7)]
  let ?b = "\<lparr>ap_world = v', ap_conns = AList.update v (Some (idle (r\<lparr>us_username := n\<rparr>))) (ap_conns b)\<rparr>"
  have ls: "last_sent u ?a = ?d" by (simp add: send_arr_def)
  have "same_clock (packet_seen v (ap_world b)) v'" using receive_clock [OF _ r(1)] assms(6,7) by (simp add: listening_def)
  from check_activity_same [OF this, of "w_now v'" v] have act: "check_activity v' v"
    using check_activity_seen [of v "ap_world b"] \<open>same_clock _ v'\<close> by (simp add: same_clock_def packet_seen_def)
  show thesis
  proof (rule that [of ?a ?b ?s])
    show "conn_run [udp_punch] u a = Some ?a" using assms(1) p(1) by simp
    show "arrives ev (last_sent u ?a) v b = Some ?b" unfolding ls using assms(5) r(1) by (simp add: arrives_eq)
    show "knows_as ?b v n" using act r(2) by (simp add: knows_as_def app_fs_def)
    show "v \<notin> set (wanted_friends ?b)" using act by (simp add: wanted_friends_def)
    show "fs_read (app_fs ?b) [''user_settings'', f] = fs_read (app_fs b) [''user_settings'', f]" for f
      using r(3) friend_file_eq(4) assms(9) by (simp add: app_fs_def can_rename_def)
  qed (use p in \<open>simp_all add: app_fs_def map_of_update send_arr_def\<close>)
qed

section \<open>The meeting\<close>

text \<open>A host with the connection object \<open>x\<close> for the friend \<open>u\<close> and a user named \<open>n\<close>.\<close>

definition meets :: "app \<Rightarrow> string \<Rightarrow> string \<Rightarrow> udp_server \<Rightarrow> bool" where
  "meets a u n x \<longleftrightarrow> us_uuid x = u \<and> length (us_recv_buffer x) = 512 \<and> can_rename (app_fs a) u
     \<and> fs_read (app_fs a) [''user_settings'', ''name.txt''] = Some n \<and> announceable n"

lemma meets_introduced:
  assumes "meets a u n x" "introduced a u a'"
  shows "can_rename (app_fs a') u" "read_file (app_fs a') ''./user_settings/name.txt'' = Inr n"
proof -
  have "ip_io_file u = [''friends'', u, ''ip_io'']"
    using assms(1) friend_file_eq(2) by (simp add: meets_def can_rename_def ip_io_file_def)
  then show "can_rename (app_fs a') u" "read_file (app_fs a') ''./user_settings/name.txt'' = Inr n"
    using assms by (auto simp: meets_def introduced_def can_rename_def read_file_def settings_paths fs_read_simps)
qed

lemma aimed_listens:
  assumes "length (us_recv_buffer x) = 512" "\<not> us_stopped x"
  shows "listening (aimed i t x)" "us_uuid (aimed i t x) = us_uuid x" "us_username (aimed i t x) = us_username x"
  using assms by (simp_all add: listening_def aimed_def start_receive_def fill_buffer_def)

lemma knows_as_same: "knows_as a u n \<Longrightarrow> app_fs a' = app_fs a \<Longrightarrow> same_clock (ap_world a) (ap_world a') \<Longrightarrow> knows_as a' u n"
  by (simp add: knows_as_def same_clock_def check_activity_def cong: option.case_cong)

lemma knows_not_wanted: "knows_as a u n \<Longrightarrow> u \<notin> set (wanted_friends a)"
  by (simp add: knows_as_def wanted_friends_def)


text \<open>Two hosts with a name and a directory for the friend.\<close>

definition named_app :: "string \<Rightarrow> char \<Rightarrow> app" where
  "named_app n ch = (friend_app ch)\<lparr>ap_world := (ap_world (friend_app ch))\<lparr>w_fs :=
     \<lparr>fs_files = [([''user_settings'', ''name.txt''], n)], fs_dirs = [[''friends''], [''friends'', replicate 36 ch]]\<rparr>\<rparr>\<rparr>"

lemma named_app_simps:
  "server_on (named_app n ch)" "w_entropy (ap_world (named_app n ch)) = plain_entropy"
  "busy_ports (named_app n ch) = [9000]" "wanted_friends (named_app n ch) = [replicate 36 ch]"
  "map_of (ap_conns (named_app n ch)) (replicate 36 ch) = Some (Some (sample_server (replicate 36 ch)))"
  "distinct (map fst (ap_conns (named_app n ch)))"
proof -
  have "server_on (named_app n ch) = server_on (friend_app ch)" "busy_ports (named_app n ch) = busy_ports (friend_app ch)"
    "wanted_friends (named_app n ch) = wanted_friends (friend_app ch)" "ap_conns (named_app n ch) = ap_conns (friend_app ch)"
    by (simp_all add: named_app_def server_on_def busy_ports_def wanted_friends_def check_activity_def cong: option.case_cong)
  then show "server_on (named_app n ch)" "busy_ports (named_app n ch) = [9000]" "wanted_friends (named_app n ch) = [replicate 36 ch]"
    "map_of (ap_conns (named_app n ch)) (replicate 36 ch) = Some (Some (sample_server (replicate 36 ch)))"
    "distinct (map fst (ap_conns (named_app n ch)))"
    by (simp_all only: friend_app_simps)
  show "w_entropy (ap_world (named_app n ch)) = plain_entropy" using friend_app_simps(2) by (simp add: named_app_def)
qed

lemma plain_uuids: "plain_name (replicate 36 (CHR ''a''))" "plain_name (replicate 36 (CHR ''b''))"
  by (simp_all add: plain_name_def is_sep_def list_all_iff) (simp_all add: eval_nat_numeral)

lemma named_meets:
  assumes "plain_name (replicate 36 ch)" "announceable n"
  shows "meets (named_app n ch) (replicate 36 ch) n (sample_server (replicate 36 ch))"
  using assms friend_file_eq(4) [OF assms(1)]
  by (simp add: meets_def can_rename_def named_app_def app_fs_def can_write_def is_directory_def fs_read_def)
    (simp add: sample_server_def)


end
