(* ===== verification/Documents.thy ===== *)
theory Documents
  imports Meeting
begin

text \<open>
  The documents that the browser reads: \<open>GET /messages\<close> and the friend list of \<open>GET /friend_list\<close>. A reader for
  arrays of JSON objects with string members is given here, and the documents are what it reads back;
  with the path from the sender of a text to the friend list of its receiver.
\<close>

section \<open>A reader for objects with string members\<close>

fun read_members :: "string list \<Rightarrow> string \<Rightarrow> (string list \<times> string) option" where
  "read_members [] s = Some ([], s)"
| "read_members (n # ns) s =
     Option.bind (expect (json_field n) s) (\<lambda>s1.
     Option.bind (json_string s1) (\<lambda>(v, s2).
     if ns = [] then Some ([v], s2)
     else Option.bind (expect '','' s2) (\<lambda>s3.
       Option.bind (read_members ns s3) (\<lambda>(vs, r). Some (v # vs, r)))))"

definition read_object :: "string list \<Rightarrow> string \<Rightarrow> (string list \<times> string) option" where
  "read_object ns s0 =
     Option.bind (expect ''{'' s0) (\<lambda>s1.
     Option.bind (read_members ns s1) (\<lambda>(vs, s2).
     Option.bind (expect ''}'' s2) (\<lambda>s3. Some (vs, s3))))"

definition put_member :: "string \<Rightarrow> string \<Rightarrow> string" where
  "put_member n v = json_field n @ json_escape v @ [quote]"

definition put_object :: "string list \<Rightarrow> string list \<Rightarrow> string" where
  "put_object ns vs = ''{'' @ comma_separated (map2 put_member ns vs) @ ''}''"

lemma comma_separated_Cons: "xs \<noteq> [] \<Longrightarrow> comma_separated (x # xs) = x @ '','' @ comma_separated xs"
  by (cases xs) simp_all

lemma read_members_put:
  "length vs = length ns \<Longrightarrow> list_all json_safe vs \<Longrightarrow>
     read_members ns (comma_separated (map2 put_member ns vs) @ rest) = Some (vs, rest)"
proof (induction ns arbitrary: vs)
  case (Cons n ns)
  then obtain v vs' where vs: "vs = v # vs'" by (cases vs) auto
  have j: "expect (json_field n) (put_member n v @ z) = Some (json_escape v @ quote # z)"
    "json_string (json_escape v @ quote # z) = Some (v, z)" for z
    using Cons.prems(2) vs json_string_escape [of v z] by (simp_all add: put_member_def)
  show ?case
  proof (cases "ns = []")
    case False
    then have "vs' \<noteq> []" using Cons.prems(1) vs by auto
    then have "comma_separated (map2 put_member (n # ns) vs) @ rest
        = put_member n v @ '','' @ (comma_separated (map2 put_member ns vs') @ rest)"
      using False vs by (simp add: comma_separated_Cons zip_eq_Nil_iff)
    moreover have "read_members ns (comma_separated (map2 put_member ns vs') @ rest) = Some (vs', rest)"
      using Cons.IH [of vs'] Cons.prems vs by simp
    ultimately show ?thesis using False vs j expect_append [of "'',''"] by simp
  qed (use Cons.prems(1) vs j in simp)
qed simp

definition object_ok :: "string list \<Rightarrow> string list \<Rightarrow> bool" where
  "object_ok ns vs \<longleftrightarrow> length vs = length ns \<and> list_all json_safe vs"

lemma read_object_put: "object_ok ns vs \<Longrightarrow> read_object ns (put_object ns vs @ rest) = Some (vs, rest)"
  using read_members_put [of vs ns "''}'' @ rest"] expect_append [of "''{''"] expect_append [of "''}''"]
  by (simp add: object_ok_def read_object_def put_object_def)

section \<open>A reader for arrays\<close>

function read_items :: "(string \<Rightarrow> ('a \<times> string) option) \<Rightarrow> string \<Rightarrow> ('a list \<times> string) option" where
  "read_items get s = (case get s of
     None \<Rightarrow> None
   | Some (x, r) \<Rightarrow>
       if r = [] \<or> length s \<le> length r then None
       else if hd r = CHR '']'' then Some ([x], tl r)
       else if hd r = CHR '','' then map_option (\<lambda>(xs, r'). (x # xs, r')) (read_items get (tl r))
       else None)"
  by pat_completeness auto
termination
  by (relation "measure (\<lambda>(_, s). length s)") auto

declare read_items.simps [simp del]

definition read_array :: "(string \<Rightarrow> ('a \<times> string) option) \<Rightarrow> string \<Rightarrow> ('a list \<times> string) option" where
  "read_array get s0 = Option.bind (expect ''['' s0) (\<lambda>s1.
     case expect '']'' s1 of Some r \<Rightarrow> Some ([], r) | None \<Rightarrow> read_items get s1)"

text \<open>Items that open with a brace can stand in an array.\<close>

locale json_items = stream_codec put get okay
  for put :: "'a \<Rightarrow> string" and get :: "string \<Rightarrow> ('a \<times> string) option" and okay :: "'a \<Rightarrow> bool" +
  assumes put_opens: "\<exists>t. put x = CHR ''{'' # t"
begin

lemma put_nonempty [simp]: "put x \<noteq> []"
  using put_opens [of x] by auto

lemma read_items_put:
  "xs \<noteq> [] \<Longrightarrow> \<forall>x \<in> set xs. okay x \<Longrightarrow> read_items get (comma_separated (map put xs) @ '']'' @ rest) = Some (xs, rest)"
proof (induction xs rule: induct_list012)
  case (2 x)
  then show ?case by (subst read_items.simps) (simp add: get_put)
next
  case (3 x y xs)
  have "comma_separated (map put (x # y # xs)) @ '']'' @ rest = put x @ '','' @ comma_separated (map put (y # xs)) @ '']'' @ rest"
    by simp
  moreover have "get (put x @ z) = Some (x, z)" for z using get_put "3.prems"(2) by simp
  ultimately show ?case using 3 by (subst read_items.simps) simp
qed simp

lemma read_array_put:
  assumes "\<forall>x \<in> set xs. okay x"
  shows "read_array get (''['' @ comma_separated (map put xs) @ '']'' @ rest) = Some (xs, rest)"
proof (cases xs)
  case (Cons x ys)
  obtain t where "put x = CHR ''{'' # t" using put_opens by blast
  then have "expect '']'' (comma_separated (map put xs) @ '']'' @ rest) = None"
    using Cons by (cases ys) (simp_all add: expect_def starts_with_def)
  then show ?thesis using read_items_put [of xs rest] assms Cons expect_append [of "''[''"] by (simp add: read_array_def)
qed (simp add: read_array_def expect_def starts_with_def)

text \<open>An item that cannot be read, whatever follows it, makes the array unreadable.\<close>

lemma read_items_stuck:
  "\<forall>x \<in> set xs. okay x \<Longrightarrow> \<forall>z. get (b @ z) = None \<Longrightarrow>
     read_items get (comma_separated (map put xs @ b # bs) @ rest) = None"
proof (induction xs)
  case Nil
  obtain z where "comma_separated (b # bs) @ rest = b @ z" by (cases bs) auto
  then show ?case using Nil by (subst read_items.simps) simp
next
  case (Cons x xs)
  have "comma_separated (map put (x # xs) @ b # bs) @ rest
      = put x @ '','' @ comma_separated (map put xs @ b # bs) @ rest"
    by (simp add: comma_separated_Cons)
  moreover have "get (put x @ z) = Some (x, z)" for z using get_put Cons.prems(1) by simp
  ultimately show ?case using Cons by (subst read_items.simps) simp
qed

lemma read_array_stuck:
  assumes "\<forall>x \<in> set xs. okay x" "\<forall>z. get (CHR ''{'' # b @ z) = None"
  shows "read_array get (''['' @ comma_separated (map put xs @ (CHR ''{'' # b) # bs) @ '']'' @ rest) = None"
proof -
  have "\<exists>t. comma_separated (map put xs @ (CHR ''{'' # b) # bs) = CHR ''{'' # t"
  proof (cases xs)
    case (Cons x ys)
    then show ?thesis using put_opens [of x] by (auto simp: comma_separated_Cons)
  qed (cases bs; simp)
  then have "expect '']'' (comma_separated (map put xs @ (CHR ''{'' # b) # bs) @ '']'' @ rest) = None"
    by (auto simp: expect_def starts_with_def)
  then show ?thesis using read_items_stuck [OF assms(1), of "CHR ''{'' # b"] assms(2) expect_append [of "''[''"]
    by (simp add: read_array_def)
qed

end

interpretation object: json_items "put_object ns" "read_object ns" "object_ok ns" for ns
  by unfold_locales (simp_all add: read_object_put, simp add: put_object_def)

interpretation entry: json_items json_entry read_json_entry entry_ok
  by unfold_locales (simp add: json_entry_def)

section \<open>The conversation\<close>

lemma messages_read_back:
  "\<forall>e \<in> set (history_entries fs u). entry_ok e \<Longrightarrow>
     read_array read_json_entry (make_json_messages fs u) = Some (history_entries fs u, [])"
  using entry.read_array_put [of "history_entries fs u" "[]"] by (simp add: make_json_messages_def)

lemma document_ok: "list_all saved_ok rs \<Longrightarrow> json_plain u \<Longrightarrow>
    \<forall>(who, m, d, t) \<in> set rs. json_safe m \<and> json_plain d \<and> json_plain t \<Longrightarrow>
    \<forall>e \<in> set (map (\<lambda>(who, m, d, t). entry_for u who m d t) rs). entry_ok e"
  by (fastforce simp: entry_ok_def entry_for_def saved_ok_def list_all_iff json_plain_def json_control_def)

text \<open>
  C26: the conversation in the browser. After any sequence of one-line messages of the user and of one
  friend has been stored, the answer to \<open>GET /messages\<close> is a JSON document from which a reader gets the entries
  of before followed by exactly these, in order, with sender, text, date and time.
\<close>

theorem history_shown:
  assumes "he_endpoint_ok he" "route_of q = Messages" "path_tail q ''GET /messages/'' = Inr u"
    and "history_ok fs u" "app_fs a = save_all u rs fs" "list_all saved_ok rs" "json_plain u"
    and "\<forall>e \<in> set (history_entries fs u). entry_ok e"
    and "\<forall>(who, m, d, t) \<in> set rs. json_safe m \<and> json_plain d \<and> json_plain t"
  shows "\<exists>doc. respond he q a = (Inr (make_http_response doc ''application/json''), a)
    \<and> read_array read_json_entry doc
      = Some (history_entries fs u @ map (\<lambda>(who, m, d, t). entry_for u who m d t) rs, [])"
proof -
  have h: "history_entries (app_fs a) u = history_entries fs u @ map (\<lambda>(who, m, d, t). entry_for u who m d t) rs"
    using save_all_refines [OF assms(4,6)] assms(5) by simp
  then have "\<forall>e \<in> set (history_entries (app_fs a) u). entry_ok e"
    using document_ok [OF assms(6,7,9)] assms(8) by (auto simp del: set_map)
  from messages_read_back [OF this] show ?thesis
    using h assms(1-3) by (intro exI [of _ "make_json_messages (app_fs a) u"])
      (simp add: respond_def serve_def get_messages_def app_fs_def)
qed

theorem history_shown_witness:
  "\<exists>doc. respond browsing_env ''GET /messages/f HTTP/1.1'' \<lparr>ap_world = sample_world (save_all ''f''
        [(''you'', ''hi'', ''2025-01-02'', ''10:11:12''), (''friend'', ''$end'', ''d'', ''t'')]
        \<lparr>fs_files = [], fs_dirs = [[''friends''], [''friends'', ''f'']]\<rparr>), ap_conns = []\<rparr>
      = (Inr (make_http_response doc ''application/json''), \<lparr>ap_world = sample_world (save_all ''f''
        [(''you'', ''hi'', ''2025-01-02'', ''10:11:12''), (''friend'', ''$end'', ''d'', ''t'')]
        \<lparr>fs_files = [], fs_dirs = [[''friends''], [''friends'', ''f'']]\<rparr>), ap_conns = []\<rparr>)
    \<and> read_array read_json_entry doc = Some ([entry_for ''f'' ''you'' ''hi'' ''2025-01-02'' ''10:11:12'',
        entry_for ''f'' ''friend'' ''$end'' ''d'' ''t''], [])"
proof -
  let ?q = "''GET /messages/f HTTP/1.1''" and ?fs = "\<lparr>fs_files = [], fs_dirs = [[''friends''], [''friends'', ''f'']]\<rparr>"
    and ?rs = "[(''you'', ''hi'', ''2025-01-02'', ''10:11:12''), (''friend'', ''$end'', ''d'', ''t'')]"
  have "route_of ?q = Messages" "find_list ''GET /messages/'' ?q = Some 0" "find_list '' HTTP/'' (drop 14 ?q) = Some 1"
    by code_simp+
  then have q: "route_of ?q = Messages" "path_tail ?q ''GET /messages/'' = Inr ''f''"
    using behind_here [of "''GET /messages/''" ?q 0]
    by (simp_all add: path_tail_def str_find_def substr_def npos_def)
  have "list_all saved_ok ?rs" by (simp add: saved_ok_def one_line_def)
  moreover have "\<forall>(who, m, d, t) \<in> set ?rs. json_safe m \<and> json_plain d \<and> json_plain t" "json_plain ''f''"
    by (simp_all add: json_safe_def json_plain_def json_control_def)
  ultimately show ?thesis
    using history_shown [OF _ q one_friend(1), of browsing_env "\<lparr>ap_world = sample_world (save_all ''f'' ?rs ?fs), ap_conns = []\<rparr>" ?rs]
      one_friend(2) by (simp add: app_fs_def)
qed

section \<open>The friend list\<close>

text \<open>One friend as the browser is told of it.\<close>

record contact =
  co_uuid :: string
  co_name :: string
  co_message :: string
  co_date :: string
  co_time :: string
  co_selected :: bool
  co_online :: bool
  co_count :: string

definition contact_names :: "string list" where
  "contact_names = [''uuid'', ''username'', ''last_message'', ''last_message_date'', ''last_message_time'',
     ''selected'', ''status'', ''unread'', ''notifications'']"

definition contact_fields :: "contact \<Rightarrow> string list" where
  "contact_fields c = [co_uuid c, co_name c, co_message c, co_date c, co_time c,
     if co_selected c then ''true'' else ''false'', if co_online c then ''online'' else ''offline'', ''false'', co_count c]"

fun contact_of_fields :: "string list \<Rightarrow> contact option" where
  "contact_of_fields [u, n, m, d, t, sel, st, unr, k] = Some \<lparr>co_uuid = u, co_name = n, co_message = m, co_date = d,
     co_time = t, co_selected = (sel = ''true''), co_online = (st = ''online''), co_count = k\<rparr>"
| "contact_of_fields _ = None"

definition read_contact :: "string \<Rightarrow> (contact \<times> string) option" where
  "read_contact s = Option.bind (read_object contact_names s)
     (\<lambda>(vs, r). map_option (\<lambda>c. (c, r)) (contact_of_fields vs))"

definition put_contact :: "contact \<Rightarrow> string" where
  "put_contact c = put_object contact_names (contact_fields c)"

definition contact_ok :: "contact \<Rightarrow> bool" where
  "contact_ok c \<longleftrightarrow> json_plain (co_uuid c) \<and> json_plain (co_name c) \<and> json_safe (co_message c)
     \<and> json_plain (co_date c) \<and> json_plain (co_time c) \<and> json_plain (co_count c)"

lemma json_plain_safe: "json_plain s \<Longrightarrow> json_safe s"
  by (auto simp: json_plain_def json_safe_def list_all_iff)

lemma json_plain_words:
  "json_plain ''true''" "json_plain ''false''" "json_plain ''online''" "json_plain ''offline''"
  by (simp_all add: json_plain_def json_control_def)

lemma read_contact_put: "contact_ok c \<Longrightarrow> read_contact (put_contact c @ rest) = Some (c, rest)"
proof -
  assume ok: "contact_ok c"
  have "object_ok contact_names (contact_fields c)"
    using ok json_plain_words
    by (simp add: contact_ok_def object_ok_def contact_names_def contact_fields_def json_plain_safe)
  then show ?thesis
    by (simp add: read_contact_def put_contact_def object.get_put) (simp add: contact_fields_def)
qed

interpretation contact: json_items put_contact read_contact contact_ok
  by unfold_locales (simp_all add: read_contact_put, simp add: put_contact_def put_object_def)

text \<open>What the list should say of a friend directory with a readable name.\<close>

definition contact_in :: "world \<Rightarrow> path \<Rightarrow> contact option" where
  "contact_in w dir = map_option (\<lambda>name.
     let msgs = (case fs_read (w_fs w) (dir @ [''messages.txt'']) of None \<Rightarrow> [] | Some c \<Rightarrow> lines_of c) in
     \<lparr>co_uuid = last dir, co_name = first_line name, co_message = last_field ''message:'' msgs,
      co_date = last_field ''date:'' msgs, co_time = last_field ''time:'' msgs,
      co_selected = (g_selected_user w = last dir), co_online = check_activity w (last dir),
      co_count = show_int (notifications w (last dir))\<rparr>) (fs_read (w_fs w) (dir @ [''username.txt'']))"

definition contacts :: "world \<Rightarrow> contact list" where
  "contacts w = (if is_directory (w_fs w) friends_dir then List.map_filter (contact_in w) (friend_dirs (w_fs w)) else [])"

lemma friend_entry_contact:
  assumes "contact_in w dir = Some c" "contact_ok c"
  shows "friend_entry w dir = Some (put_contact c)"
  using assms json_plain_words [THEN json_escape_plain]
  by (auto simp del: json_escape_simps simp: contact_in_def friend_entry_def json_friend_def put_contact_def put_object_def contact_names_def
      contact_fields_def contact_ok_def put_member_def json_field_def json_pair_def json_escape_plain Let_def)

lemma friend_entry_none: "friend_entry w d = None \<longleftrightarrow> contact_in w d = None"
  by (simp add: friend_entry_def contact_in_def split: option.split)

lemma entries_as_contacts:
  "\<forall>c \<in> set (List.map_filter (contact_in w) ds). contact_ok c \<Longrightarrow>
     List.map_filter (friend_entry w) ds = map put_contact (List.map_filter (contact_in w) ds)"
proof (induction ds)
  case (Cons d ds)
  then show ?case using friend_entry_none [of w d] friend_entry_contact [of w d]
    by (cases "contact_in w d") (simp_all add: List.map_filter_simps)
qed (simp add: List.map_filter_simps)

lemma friends_as_contacts:
  "\<forall>c \<in> set (contacts w). contact_ok c \<Longrightarrow>
     make_json_friends w = ''['' @ comma_separated (map put_contact (contacts w)) @ '']''"
  using entries_as_contacts [of w "friend_dirs (w_fs w)"] by (simp add: make_json_friends_def contacts_def)

lemma friends_read_back:
  "\<forall>c \<in> set (contacts w). contact_ok c \<Longrightarrow> read_array read_contact (make_json_friends w) = Some (contacts w, [])"
  using contact.read_array_put [of "contacts w" "[]"] by (simp add: friends_as_contacts)

section \<open>A text that arrives\<close>

lemma lines_of_append: "\<exists>ls. lines_of (s @ newline # r) = ls @ lines_of r"
proof (induction s rule: length_induct)
  case (1 s)
  show ?case
  proof (cases "newline \<in> set s")
    case True
    then obtain a b where s: "s = a @ newline # b" "newline \<notin> set a" by (meson split_list_first)
    then obtain ls where "lines_of (b @ newline # r) = ls @ lines_of r" using 1 by fastforce
    then show ?thesis using lines_of_Cons [OF s(2), of "b @ newline # r"] s(1) by (intro exI [of _ "a # ls"]) simp
  next
    case False
    then show ?thesis using lines_of_Cons [of s r] by (intro exI [of _ "[s]"]) simp
  qed
qed

lemma last_field_simps:
  "last_field key (ls @ [l]) = (case field_of key l of Some x \<Rightarrow> x | None \<Rightarrow> last_field key ls)"
  by (simp add: last_field_def split: option.split)

lemma last_field_saved:
  assumes "one_line m" "one_line d" "one_line t"
  shows "last_field ''message:'' (lines_of (old @ history_record ''friend'' m d t)) = m"
    and "last_field ''date:'' (lines_of (old @ history_record ''friend'' m d t)) = d"
    and "last_field ''time:'' (lines_of (old @ history_record ''friend'' m d t)) = t"
proof -
  obtain r where r: "history_record ''friend'' m d t = newline # r" by (simp add: history_record_def)
  obtain ls where ls: "lines_of (old @ newline # r) = ls @ lines_of r" using lines_of_append by blast
  have "lines_of (newline # r) = [] # lines_of r" using lines_of_Cons [of "[]" r] by simp
  then have "lines_of r = [''$friend'', ''message:'' @ m, ''date:'' @ d, ''time:'' @ t, ''$end'']"
    using lines_of_record [of "''friend''" m d t "[]"] assms r by simp
  then have l: "lines_of (old @ history_record ''friend'' m d t)
      = ((((ls @ [''$friend'']) @ [''message:'' @ m]) @ [''date:'' @ d]) @ [''time:'' @ t]) @ [''$end'']"
    using ls r by simp
  show "last_field ''message:'' (lines_of (old @ history_record ''friend'' m d t)) = m"
    "last_field ''date:'' (lines_of (old @ history_record ''friend'' m d t)) = d"
    "last_field ''time:'' (lines_of (old @ history_record ''friend'' m d t)) = t"
    unfolding l last_field_simps by (simp_all add: field_of_def starts_with_def)
qed

text \<open>What the arrival of a text changes in the list: the preview, the presence and the count of one friend.\<close>

definition with_text :: "world \<Rightarrow> string \<Rightarrow> string \<Rightarrow> contact \<Rightarrow> contact" where
  "with_text w u msg c =
     (if co_uuid c = u then c\<lparr>co_message := msg, co_date := w_date w, co_time := w_time w, co_online := True,
        co_count := (if g_selected_user w = u then co_count c else show_int (notifications w u + 1))\<rparr>
      else c)"

lemma text_arrives_sel:
  fixes w :: world and u msg :: string
  defines "w' \<equiv> text_arrives u msg (packet_seen u w)"
  shows "w_fs w' = save_message (w_fs w) u msg ''friend'' (w_date w) (w_time w)"
    and "g_selected_user w' = g_selected_user w" "check_activity w' v \<longleftrightarrow> v = u \<or> check_activity w v"
    and "notifications w' v = notifications w v + (if v = u \<and> g_selected_user w \<noteq> u then 1 else 0)"
proof -
  have "w_now w' = w_now (packet_seen u w)" "g_last_packets_times w' = g_last_packets_times (packet_seen u w)"
    by (simp_all add: w'_def text_arrives_def save_message_now_def Let_def del: packet_seen_sel)
  then have "check_activity w' v = check_activity (packet_seen u w) v" by (simp add: check_activity_def split: option.split)
  then show "check_activity w' v \<longleftrightarrow> v = u \<or> check_activity w v" by (simp add: check_activity_seen)
  have "notifications (packet_seen u w) v = notifications w v" for v by (simp add: notifications_def packet_seen_def)
  then show "notifications w' v = notifications w v + (if v = u \<and> g_selected_user w \<noteq> u then 1 else 0)"
    by (auto simp: w'_def text_arrives_def save_message_now_def Let_def)
      (auto simp: notifications_def packet_seen_def update_conv')
  show "w_fs w' = save_message (w_fs w) u msg ''friend'' (w_date w) (w_time w)" "g_selected_user w' = g_selected_user w"
    by (simp_all add: w'_def text_arrives_def save_message_now_def Let_def) (simp add: packet_seen_def)
qed

lemma contact_with_text:
  assumes "plain_name u" "can_write (w_fs w) (messages_file u)" "one_line msg" "one_line (w_date w)" "one_line (w_time w)"
    and "butlast d = friends_dir" "d \<noteq> []"
  shows "contact_in (text_arrives u msg (packet_seen u w)) d = map_option (with_text w u msg) (contact_in w d)"
proof -
  obtain x where d: "d = [''friends'', x]" using assms(6,7) by (cases d rule: rev_cases) (auto simp: friends_dir_def)
  have m: "messages_file u = [''friends'', u, ''messages.txt'']"
    using assms(1) by (simp add: messages_file_def friend_file_plain plain_name_def is_sep_def)
  have n: "fs_read (save_message (w_fs w) u msg who day t) [''friends'', y, ''username.txt'']
      = fs_read (w_fs w) [''friends'', y, ''username.txt'']" for y who day t
    by (simp add: save_message_alt fs_read_append m)
  have h: "fs_read (save_message (w_fs w) u msg who day t) [''friends'', y, ''messages.txt'']
      = (if y = u then Some ((case fs_read (w_fs w) [''friends'', u, ''messages.txt''] of None \<Rightarrow> [] | Some old \<Rightarrow> old)
           @ history_record who msg day t)
         else fs_read (w_fs w) [''friends'', y, ''messages.txt''])" for y who day t
    using assms(2) by (simp add: save_message_alt fs_read_append m)
  show ?thesis
    using last_field_saved [OF assms(3-5)]
    by (cases "fs_read (w_fs w) [''friends'', x, ''username.txt'']"; cases "x = u")
      (simp_all add: d contact_in_def text_arrives_sel with_text_def Let_def n h)
qed

lemma contacts_with_text:
  assumes "plain_name u" "can_write (w_fs w) (messages_file u)" "one_line msg" "one_line (w_date w)" "one_line (w_time w)"
  shows "contacts (text_arrives u msg (packet_seen u w)) = map (with_text w u msg) (contacts w)"
proof -
  have "List.map_filter (contact_in (text_arrives u msg (packet_seen u w))) ds
      = map (with_text w u msg) (List.map_filter (contact_in w) ds)" if "\<forall>d \<in> set ds. d \<noteq> [] \<and> butlast d = friends_dir" for ds
    using that
  proof (induction ds)
    case (Cons d ds)
    then show ?case using contact_with_text [OF assms, of d]
      by (cases "contact_in w d") (simp_all add: List.map_filter_simps)
  qed (simp add: List.map_filter_simps)
  then show ?thesis
    by (simp add: contacts_def text_arrives_sel save_message_alt friend_dirs_def subdirectories_def)
qed

lemma json_plain_line: "json_plain s \<Longrightarrow> one_line s"
proof -
  have "json_control newline" by (simp add: json_control_def)
  then show "json_plain s \<Longrightarrow> one_line s" unfolding json_plain_def one_line_def list_all_iff by blast
qed

lemma json_plain_show_int: "json_plain (show_int i)"
proof -
  have "json_control c \<Longrightarrow> digit_val c = None" for c unfolding digit_val_def json_control_def Let_def by simp
  then have "json_control c \<Longrightarrow> \<not> is_digit 10 c" for c by (simp add: is_digit_def)
  moreover have "\<not> is_digit 10 quote" "\<not> is_digit 10 backslash" by (simp_all add: is_digit_def digit_val_def)
  ultimately have "is_digit 10 c \<Longrightarrow> \<not> json_control c \<and> c \<noteq> quote \<and> c \<noteq> backslash" for c by blast
  then have "json_plain (show_nat n)" for n using show_nat_digits [of n] by (auto simp: json_plain_def list_all_iff)
  then show ?thesis by (simp add: show_int_def) (simp add: json_plain_def json_control_def)
qed

lemma with_text_ok:
  "contact_ok c \<Longrightarrow> json_safe msg \<Longrightarrow> json_plain (w_date w) \<Longrightarrow> json_plain (w_time w) \<Longrightarrow> contact_ok (with_text w u msg c)"
  by (auto simp: contact_ok_def with_text_def json_plain_show_int)

section \<open>From the text to the list\<close>

text \<open>
  C4: the friend list of the receiver. A text is sent to a friend who shares the key, arrives, and the
  friend's browser asks for its friend list: what a JSON reader finds in the answer is the list from before,
  with the text, the current date and time as the preview of this sender, the sender online, and the
  counter one higher unless the conversation is open; every other friend is listed as before.
\<close>

theorem text_listed:
  assumes "evp_laws ev" "entropy_ok (w_entropy w)" "listening r"
    and "load_key (w_fs w) (us_uuid s) = Inr key" "load_key (w_fs v) (us_uuid r) = Inr key"
    and "msg \<noteq> []" "length msg \<le> 463" "one_line msg" "json_safe msg"
    and "plain_name (us_uuid r)" "can_write (w_fs v) (messages_file (us_uuid r))"
    and "json_plain (w_date v)" "json_plain (w_time v)" "\<forall>c \<in> set (contacts v). contact_ok c"
    and "he_endpoint_ok he" "route_of q = FriendList"
  shows "\<exists>d v' doc. us_outbox (fst (send_text ev msg (s, w))) = us_outbox s @ [d]
    \<and> receive ev d (r, v) = (Inr (), (idle r, v'))
    \<and> respond he q \<lparr>ap_world = v', ap_conns = cs\<rparr>
        = (Inr (make_http_response doc ''application/json''), \<lparr>ap_world = v', ap_conns = cs\<rparr>)
    \<and> read_array read_contact doc = Some (map (with_text v (us_uuid r) msg) (contacts v), [])"
proof -
  let ?v = "text_arrives (us_uuid r) msg (packet_seen (us_uuid r) v)"
  obtain d where d: "us_outbox (fst (send_text ev msg (s, w))) = us_outbox s @ [d]"
    "receive ev d (r, v) = (Inr (), (idle r, ?v))"
    using text_goes_through [OF assms(1-7)] by blast
  have c: "contacts ?v = map (with_text v (us_uuid r) msg) (contacts v)"
    by (rule contacts_with_text [OF assms(10,11,8)]) (use assms(12,13) in \<open>simp_all add: json_plain_line\<close>)
  then have "\<forall>c \<in> set (contacts ?v). contact_ok c" using with_text_ok assms(9,12-14) by auto
  from friends_read_back [OF this] d c show ?thesis
    using assms(15,16) by (intro exI [of _ d] exI [of _ ?v] exI [of _ "make_json_friends ?v"]) (simp add: respond_def serve_def)
qed

text \<open>A world with two friends.\<close>

definition listed_fs :: filesys where
  "listed_fs = \<lparr>fs_files = [([''friends'', ''f'', ''AES''], hex_string (replicate 32 7)),
     ([''friends'', ''f'', ''username.txt''], ''Ann''), ([''friends'', ''g'', ''username.txt''], ''Bob'')],
     fs_dirs = [[''friends''], [''friends'', ''f''], [''friends'', ''g'']]\<rparr>"

lemma listed_facts:
  "friend_dirs listed_fs = [[''friends'', ''f''], [''friends'', ''g'']]" "is_directory listed_fs friends_dir"
  "can_write listed_fs [''friends'', ''f'', x]" "plain_name ''f''"
  "contacts (sample_world listed_fs) = map (\<lambda>(u, n). \<lparr>co_uuid = u, co_name = n, co_message = [], co_date = [],
      co_time = [], co_selected = False, co_online = False, co_count = show_int 0\<rparr>) [(''f'', ''Ann''), (''g'', ''Bob'')]"
  "\<forall>c \<in> set (contacts (sample_world listed_fs)). contact_ok c" "route_of ''GET /friend_list '' = FriendList"
proof -
  show dirs: "friend_dirs listed_fs = [[''friends'', ''f''], [''friends'', ''g'']]" "is_directory listed_fs friends_dir"
    by (simp_all add: friend_dirs_def subdirectories_def listed_fs_def friends_dir_def is_directory_def)
  show "can_write listed_fs [''friends'', ''f'', x]" by (simp add: listed_fs_def can_write_def is_directory_def)
  show "plain_name ''f''" by (simp add: plain_name_def is_sep_def)
  have reads: "fs_read listed_fs [''friends'', ''f'', ''username.txt''] = Some ''Ann''"
    "fs_read listed_fs [''friends'', ''g'', ''username.txt''] = Some ''Bob''"
    "fs_read listed_fs [''friends'', ''f'', ''messages.txt''] = None"
    "fs_read listed_fs [''friends'', ''g'', ''messages.txt''] = None"
    by (simp_all add: listed_fs_def fs_read_def is_directory_def)
  show c: "contacts (sample_world listed_fs) = map (\<lambda>(u, n). \<lparr>co_uuid = u, co_name = n, co_message = [], co_date = [],
      co_time = [], co_selected = False, co_online = False, co_count = show_int 0\<rparr>) [(''f'', ''Ann''), (''g'', ''Bob'')]"
    by (simp add: contacts_def dirs List.map_filter_simps contact_in_def reads last_field_def first_line_def)
      (simp add: sample_world_def check_activity_def notifications_def)
  have "json_plain ''f''" "json_plain ''g''" "json_plain ''Ann''" "json_plain ''Bob''" "json_plain []" "json_safe []"
    by (simp_all add: json_safe_def json_plain_def json_control_def)
  then show "\<forall>c \<in> set (contacts (sample_world listed_fs)). contact_ok c"
    unfolding c by (simp add: contact_ok_def json_plain_show_int)
  show "route_of ''GET /friend_list '' = FriendList" by code_simp
qed

theorem text_listed_witness:
  "\<exists>d v' doc. receive plain_evp d (sample_server ''f'', sample_world listed_fs) = (Inr (), (idle (sample_server ''f''), v'))
    \<and> respond browsing_env ''GET /friend_list '' \<lparr>ap_world = v', ap_conns = []\<rparr>
        = (Inr (make_http_response doc ''application/json''), \<lparr>ap_world = v', ap_conns = []\<rparr>)
    \<and> read_array read_contact doc = Some ([
        \<lparr>co_uuid = ''f'', co_name = ''Ann'', co_message = ''hi'', co_date = ''2025-01-02'', co_time = ''10:11:12'',
         co_selected = False, co_online = True, co_count = show_int 1\<rparr>,
        \<lparr>co_uuid = ''g'', co_name = ''Bob'', co_message = [], co_date = [], co_time = [],
         co_selected = False, co_online = False, co_count = show_int 0\<rparr>], [])"
proof -
  have f: "friend_file ''f'' ''AES'' = [''friends'', ''f'', ''AES'']" "messages_file ''f'' = [''friends'', ''f'', ''messages.txt'']"
    using listed_facts(4) by (simp_all add: messages_file_def friend_file_plain plain_name_def is_sep_def)
  have "load_key listed_fs ''f'' = Inr (replicate 32 7)"
    by (rule load_key_of_hex) (simp_all add: f(1), simp add: listed_fs_def fs_read_def is_directory_def)
  moreover have "json_plain ''2025-01-02''" "json_plain ''10:11:12''" "json_safe ''hi''"
    by (simp_all add: json_plain_def json_safe_def json_control_def)
  moreover have w: "w_date (sample_world listed_fs) = ''2025-01-02''" "w_time (sample_world listed_fs) = ''10:11:12''"
    "g_selected_user (sample_world listed_fs) = []" "notifications (sample_world listed_fs) ''f'' = 0"
    by (simp_all add: sample_world_def notifications_def)
  ultimately show ?thesis
    using text_listed [OF plain_evp_laws, of "sample_world listed_fs" "sample_server ''f''" "sample_server ''f''" "replicate 32 7"
      "sample_world listed_fs" "''hi''" browsing_env "''GET /friend_list ''" "[]"] listed_facts f(2)
    by (simp add: plain_entropy_ok with_text_def one_line_def) blast
qed

section \<open>A name that breaks the list\<close>

text \<open>The friend list does not escape names: a backslash at the end of one escapes the quote behind it.\<close>

lemma stuck_contact:
  assumes "json_plain u" "json_plain m" "last d = u"
  shows "\<exists>b. json_friend w d (m @ [backslash]) = CHR ''{'' # b \<and> (\<forall>z. read_contact (CHR ''{'' # b @ z) = None)"
proof -
  obtain b where b: "json_friend w d (m @ [backslash]) = ''{'' @ json_field ''uuid'' @ u @ quote # '','' @
      json_field ''username'' @ m @ backslash # quote # CHR '','' # quote # ''last_message'' @ b"
    using assms(3) by (simp add: json_friend_def json_pair_def json_field_def Let_def)
  have j: "json_string (m @ backslash # quote # CHR '','' # quote # z) = Some (m @ quote # '','', z)" for z
    using json_string_prefix [OF assms(2)] by (cases z) (simp_all add: json_unescape_char_def json_control_def)
  have "read_members [''username'', ''last_message'', ''last_message_date'', ''last_message_time'', ''selected'',
      ''status'', ''unread'', ''notifications'']
      (json_field ''username'' @ m @ backslash # quote # CHR '','' # quote # ''last_message'' @ z) = None" for z
    by (simp only: read_members.simps expect_append j Option.bind.simps prod.case) (simp add: expect_def starts_with_def)
  then have "read_contact (''{'' @ json_field ''uuid'' @ u @ quote # '','' @
      json_field ''username'' @ m @ backslash # quote # CHR '','' # quote # ''last_message'' @ z) = None" for z
    unfolding read_contact_def read_object_def contact_names_def
    by (subst read_members.simps) (simp only: expect_append json_string_plain [OF assms(1)] Option.bind.simps prod.case,
      simp)
  from this [of "b @ z" for z] b show ?thesis by simp
qed

lemma map_filter_append: "List.map_filter f (xs @ ys) = List.map_filter f xs @ List.map_filter f ys"
  by (simp add: List.map_filter_def)

lemma list_unreadable:
  assumes "is_directory (w_fs w) friends_dir" "friend_dirs (w_fs w) = ds @ d # ds'"
    and "\<forall>c \<in> set (List.map_filter (contact_in w) ds). contact_ok c"
    and "fs_read (w_fs w) (d @ [''username.txt'']) = Some (m @ [backslash])" "json_plain m" "json_plain (last d)"
  shows "read_array read_contact (make_json_friends w) = None"
proof -
  have "newline \<notin> set m" using json_plain_line [OF assms(5)] by (simp add: one_line_def)
  then have "\<forall>c \<in> set (m @ [backslash]). c \<noteq> newline" by force
  then have "first_line (m @ [backslash]) = m @ [backslash]" by (simp add: first_line_def takeWhile_eq_all_conv del: set_append)
  then have e: "friend_entry w d = Some (json_friend w d (m @ [backslash]))" using assms(4) by (simp add: friend_entry_def)
  obtain b where b: "json_friend w d (m @ [backslash]) = CHR ''{'' # b" "\<forall>z. read_contact (CHR ''{'' # b @ z) = None"
    using stuck_contact [OF assms(6,5) refl] by blast
  have "List.map_filter (friend_entry w) (ds @ d # ds')
      = map put_contact (List.map_filter (contact_in w) ds) @ (CHR ''{'' # b) # List.map_filter (friend_entry w) ds'"
    using entries_as_contacts [OF assms(3)] e b(1) by (simp add: map_filter_append List.map_filter_simps)
  then show ?thesis
    using contact.read_array_stuck [OF assms(3) b(2), of _ "[]"] assms(1,2) by (simp add: make_json_friends_def)
qed

text \<open>Of a friend whose files are unchanged, at most the presence changes.\<close>

lemma contact_in_same:
  assumes "\<And>f. fs_read (w_fs w') (d @ [f]) = fs_read (w_fs w) (d @ [f])"
    and "g_selected_user w' = g_selected_user w" "g_notifications_count w' = g_notifications_count w"
  shows "contact_in w' d = map_option (co_online_update (\<lambda>_. check_activity w' (last d))) (contact_in w d)"
  using assms by (simp add: contact_in_def Let_def notifications_def option.map_comp comp_def)

lemma contact_ok_online [simp]: "contact_ok (co_online_update f c) = contact_ok c"
  by (simp add: contact_ok_def)

text \<open>
  C30: a name breaks the friend list. A friend's user has a name that ends with a backslash. Once a punch datagram of
  this friend has arrived, no JSON reader gets anything from the friend list any more, which could be read
  until then: the receiver's page loses all friends, and the name is on the disk.
\<close>

theorem name_breaks_list:
  assumes "\<not> us_stopped s" "read_file (w_fs w) ''./user_settings/name.txt'' = Inr (m @ [backslash])"
    and "announceable (m @ [backslash])" "json_plain (html_escape m)"
    and "listening r" "us_username r \<noteq> m @ [backslash]" "can_rename (w_fs v) (us_uuid r)" "json_plain (us_uuid r)"
    and "is_directory (w_fs v) friends_dir" "[''friends'', us_uuid r] \<in> set (friend_dirs (w_fs v))"
    and "\<forall>c \<in> set (contacts v). contact_ok c" "he_endpoint_ok he" "route_of q = FriendList"
  shows "\<exists>d r' v' doc doc'. us_outbox (fst (snd (udp_punch (s, w)))) = us_outbox s @ [d]
    \<and> receive ev d (r, v) = (Inr (), (r', v'))
    \<and> respond he q \<lparr>ap_world = v, ap_conns = cs\<rparr>
        = (Inr (make_http_response doc ''application/json''), \<lparr>ap_world = v, ap_conns = cs\<rparr>)
    \<and> read_array read_contact doc = Some (contacts v, [])
    \<and> respond he q \<lparr>ap_world = v', ap_conns = cs\<rparr>
        = (Inr (make_http_response doc' ''application/json''), \<lparr>ap_world = v', ap_conns = cs\<rparr>)
    \<and> read_array read_contact doc' = None"
proof -
  let ?n = "m @ [backslash]" and ?d = "[''friends'', us_uuid r]"
  obtain mid pid w' where p: "udp_punch (s, w) = (Inr (), ((send_arr (get_bytes (name_packet mid pid ?n)) s)
      \<lparr>us_punching := True\<rparr>, w'))" by (rule punch_sends [OF assms(1,2)])
  obtain v' where v': "receive ev (get_bytes (name_packet mid pid ?n)) (r, v) = (Inr (), (idle (r\<lparr>us_username := ?n\<rparr>), v'))"
    "us_username r \<noteq> ?n \<Longrightarrow> fs_read (w_fs v') (friend_file (us_uuid r) ''username.txt'') = Some (html_escape ?n)"
    "\<And>q. q \<noteq> friend_file (us_uuid r) ''username.txt'' \<Longrightarrow> fs_read (w_fs v') q = fs_read (w_fs v) q"
    "fs_dirs (w_fs v') = fs_dirs (w_fs v)" "v' = (packet_seen (us_uuid r) v)\<lparr>w_fs := w_fs v'\<rparr>"
    by (rule receive_name [OF assms(5,3,7), of ev mid pid]) (rule that)
  have f: "friend_file (us_uuid r) ''username.txt'' = ?d @ [''username.txt'']"
    using friend_file_eq(4) assms(7) by (simp add: can_rename_def)
  have dirs: "friend_dirs (w_fs v') = friend_dirs (w_fs v)" "is_directory (w_fs v') friends_dir"
    using v'(4) assms(9) by (simp_all add: friend_dirs_def subdirectories_def is_directory_def)
  obtain ds ds' where ds: "friend_dirs (w_fs v) = ds @ ?d # ds'" "?d \<notin> set ds" using assms(10) split_list_first by metis
  have "contact_ok c" if "c \<in> set (List.map_filter (contact_in v') ds)" for c
  proof -
    obtain x where x: "x \<in> set ds" "contact_in v' x = Some c" using \<open>c \<in> _\<close> by (auto simp: List.map_filter_def)
    have "fs_read (w_fs v') (x @ [f]) = fs_read (w_fs v) (x @ [f])" for f
      using x(1) ds(2) v'(3) [of "x @ [f]"] unfolding f by auto
    moreover have "g_selected_user v' = g_selected_user v" "g_notifications_count v' = g_notifications_count v"
      by (subst v'(5), simp add: packet_seen_def)+
    ultimately obtain c0 where "contact_in v x = Some c0" "contact_ok c0 = contact_ok c"
      using contact_in_same [of v' x v] x(2) by (cases "contact_in v x") auto
    moreover from this have "c0 \<in> set (contacts v)"
      using x(1) ds(1) assms(9) by (auto simp: contacts_def List.map_filter_def intro!: image_eqI [of _ _ x])
    ultimately show ?thesis using assms(11) by blast
  qed
  moreover have "fs_read (w_fs v') (?d @ [''username.txt'']) = Some (html_escape m @ [backslash])"
    using v'(2) assms(6) unfolding f by (simp add: html_escape_def html_escape_char_def)
  ultimately have "read_array read_contact (make_json_friends v') = None"
    using list_unreadable [of v' ds ?d ds' "html_escape m"] dirs ds assms(4,8) by simp
  then show ?thesis
    using p v'(1) friends_read_back [OF assms(11)] assms(12,13)
    by (intro exI [of _ "get_bytes (name_packet mid pid ?n)"] exI [of _ "idle (r\<lparr>us_username := ?n\<rparr>)"] exI [of _ v']
        exI [of _ "make_json_friends v"] exI [of _ "make_json_friends v'"]) (simp add: respond_def serve_def send_arr_def)
qed

text \<open>The two friends of \<open>listed_fs\<close>, one of whom has such a name.\<close>

definition broken_name_fs :: filesys where
  "broken_name_fs = \<lparr>fs_files = [([''user_settings'', ''name.txt''], ''A'' @ [backslash])], fs_dirs = []\<rparr>"

theorem name_breaks_list_witness:
  "\<exists>d r' v' doc doc'. us_outbox (fst (snd (udp_punch (sample_server ''f'', sample_world broken_name_fs))))
        = us_outbox (sample_server ''f'') @ [d]
    \<and> receive plain_evp d (sample_server ''f'', sample_world listed_fs) = (Inr (), (r', v'))
    \<and> respond browsing_env ''GET /friend_list '' \<lparr>ap_world = sample_world listed_fs, ap_conns = []\<rparr>
        = (Inr (make_http_response doc ''application/json''), \<lparr>ap_world = sample_world listed_fs, ap_conns = []\<rparr>)
    \<and> map_option (map co_name \<circ> fst) (read_array read_contact doc) = Some [''Ann'', ''Bob'']
    \<and> respond browsing_env ''GET /friend_list '' \<lparr>ap_world = v', ap_conns = []\<rparr>
        = (Inr (make_http_response doc' ''application/json''), \<lparr>ap_world = v', ap_conns = []\<rparr>)
    \<and> read_array read_contact doc' = None"
proof -
  have e: "resolve ''./user_settings/name.txt'' = [''user_settings'', ''name.txt'']"
    by (simp add: resolve_def resolve_step_def is_sep_def)
  have n: "read_file (w_fs (sample_world broken_name_fs)) ''./user_settings/name.txt'' = Inr (''A'' @ [backslash])"
    unfolding read_file_def e by (simp add: broken_name_fs_def fs_read_def is_directory_def)
  have f: "friend_file ''f'' ''username.txt'' = [''friends'', ''f'', ''username.txt'']"
    using listed_facts(4) by (simp add: friend_file_plain plain_name_def is_sep_def)
  have "announceable (''A'' @ [backslash])" "json_plain (html_escape ''A'')" "json_plain ''f''"
    by (simp_all add: announceable_def json_plain_def json_control_def html_escape_char_def)
  moreover have "can_rename listed_fs ''f''" using listed_facts(3,4) by (simp add: can_rename_def f)
  moreover have "us_username (sample_server ''f'') \<noteq> ''A'' @ [backslash]" by (simp add: sample_server_def)
  moreover have "map co_name (contacts (sample_world listed_fs)) = [''Ann'', ''Bob'']" using listed_facts(5) by simp
  ultimately show ?thesis
    using name_breaks_list [OF _ n, of "sample_server ''f''" "sample_server ''f''" "sample_world listed_fs" browsing_env
      "''GET /friend_list ''" plain_evp "[]"] listed_facts(1,2,6,7) by fastforce
qed

end
