(* ===== verification/Removal.thy ===== *)
theory Removal
  imports Process
begin

text \<open>
  What \<open>POST /remove_friend\<close> leaves behind. It calls \<open>stop\<close>, deletes the \<open>udp_server\<close> and erases it from
  the table; but asio completes the operations that were cancelled by running their handlers later, with
  \<open>operation_aborted\<close>, and the handlers hold a pointer to the object that is gone.
\<close>

section \<open>Handlers of a deleted object\<close>

datatype aborted = AbortedReceive | AbortedPunch | AbortedTransmit

text \<open>The completions that are queued when the object is stopped and deleted.\<close>

definition aborted_by_delete :: "udp_server \<Rightarrow> aborted list" where
  "aborted_by_delete s = (if us_receiving s then [AbortedReceive] else [])
     @ (if us_punching s then [AbortedPunch] else []) @ (if us_transfer s \<noteq> None then [AbortedTransmit] else [])"

text \<open>Reading a member through a pointer; \<open>None\<close> when the object has been deleted.\<close>

definition deref :: "udp_server option \<Rightarrow> udp_server res" where
  "deref this = (case this of None \<Rightarrow> Inl (UB ''member of a deleted object'') | Some s \<Rightarrow> Inr s)"

text \<open>
  The beginnings of the three handlers: \<open>if (stopped) return; if (error) ... return;\<close> of
  \<open>handle_receive\<close>, \<open>if (stopped) return;\<close> of \<open>udp_punch\<close>, whose binding drops the error, and
  \<open>if (ec || stopped) return;\<close> of the transmit timer, which stops at the error.
\<close>

fun run_aborted :: "aborted \<Rightarrow> world \<Rightarrow> udp_server option \<Rightarrow> unit res" where
  "run_aborted AbortedReceive w this = bind_res (deref this) (\<lambda>s. Inr ())"
| "run_aborted AbortedPunch w this = bind_res (deref this) (\<lambda>s. if us_stopped s then Inr () else fst (udp_punch (s, w)))"
| "run_aborted AbortedTransmit w this = Inr ()"

section \<open>The process with its queue\<close>

record running =
  rn_process :: process
  rn_aborted :: "aborted list"

text \<open>The objects that a step deletes.\<close>

definition deleted :: "app \<Rightarrow> app \<Rightarrow> udp_server list" where
  "deleted a a' = map (\<lambda>(u, c). the c) (filter (\<lambda>(u, c). c \<noteq> None \<and> map_of (ap_conns a') u = None) (ap_conns a))"

text \<open>A queued handler runs; as long as it is defined, the process goes on.\<close>

inductive running_step :: "http_env \<Rightarrow> running \<Rightarrow> running \<Rightarrow> bool" for he where
  alive: "process_step he p p' \<Longrightarrow> running_step he \<lparr>rn_process = p, rn_aborted = q\<rparr>
     \<lparr>rn_process = p', rn_aborted = q @ concat (map aborted_by_delete (deleted (pr_app p) (pr_app p')))\<rparr>"
| aborted: "run_aborted h (ap_world (pr_app p)) None = Inr () \<Longrightarrow>
     running_step he \<lparr>rn_process = p, rn_aborted = q @ h # q'\<rparr> \<lparr>rn_process = p, rn_aborted = q @ q'\<rparr>"

inductive_cases running_stepE: "running_step he r r'"

definition doomed :: "running \<Rightarrow> bool" where
  "doomed r \<longleftrightarrow> (\<exists>h \<in> set (rn_aborted r). \<forall>w. is_ub (run_aborted h w None))"

lemma run_aborted_ub: "is_ub (run_aborted h w None) \<longleftrightarrow> h \<noteq> AbortedTransmit"
  by (cases h) (simp_all add: deref_def)

lemma doomed_step: "running_step he r r' \<Longrightarrow> doomed r \<Longrightarrow> doomed r'"
proof (erule running_stepE)
  fix h p q q' assume h: "run_aborted h (ap_world (pr_app p)) None = Inr ()"
    and r: "r = \<lparr>rn_process = p, rn_aborted = q @ h # q'\<rparr>" "r' = \<lparr>rn_process = p, rn_aborted = q @ q'\<rparr>"
  have "h = AbortedTransmit" using h run_aborted_ub [of h "ap_world (pr_app p)"] by auto
  then show "doomed r \<Longrightarrow> doomed r'" using r by (auto simp: doomed_def)
qed (auto simp: doomed_def)

lemma doomed_forever: "(running_step he)\<^sup>*\<^sup>* r r' \<Longrightarrow> doomed r \<Longrightarrow> doomed r'"
  by (induction rule: rtranclp_induct) (auto intro: doomed_step)

text \<open>Every run with the queue is a run of the process.\<close>

lemma running_process: "(running_step he)\<^sup>*\<^sup>* r r' \<Longrightarrow> (process_step he)\<^sup>*\<^sup>* (rn_process r) (rn_process r')"
  by (induction rule: rtranclp_induct) (auto elim!: running_stepE intro: rtranclp.rtrancl_into_rtrancl)

section \<open>Removing a friend\<close>

lemma remove_friend_conns:
  "path_uuid r ''POST /remove_friend/'' = Inr u \<Longrightarrow>
     fst (remove_friend r a) = Inr ok_response \<and> ap_conns (snd (remove_friend r a)) = AList.delete u (ap_conns a)"
  by (simp add: remove_friend_def Let_def set_world_def)

lemma remove_request:
  assumes "he_endpoint_ok he" "route_of r = RemoveFriend" "path_uuid r ''POST /remove_friend/'' = Inr u"
  obtains a' where "respond he r a = (Inr ok_response, a')" "ap_conns a' = AList.delete u (ap_conns a)"
proof -
  obtain a' where "remove_friend r a = (Inr ok_response, a')" "ap_conns a' = AList.delete u (ap_conns a)"
    using remove_friend_conns [OF assms(3), of a] by (metis prod.collapse)
  then show thesis using that [of a'] assms(1,2) by (simp add: respond_def serve_def)
qed

lemma deleted_nothing [simp]: "deleted a a = []"
  by (auto simp: deleted_def filter_empty_conv map_of_eq_None_iff image_iff Bex_def)

lemma deleted_object:
  "map_of (ap_conns a) u = Some (Some s) \<Longrightarrow> ap_conns a' = AList.delete u (ap_conns a) \<Longrightarrow> s \<in> set (deleted a a')"
  by (force simp: deleted_def delete_conv' dest!: map_of_SomeD)

text \<open>A request that comes whole in one piece.\<close>

definition whole_request :: "string \<Rightarrow> bool" where
  "whole_request r \<longleftrightarrow> str_find r blank_line 0 \<noteq> npos \<and> content_length r = Inr 0"

lemma whole_request_read: "whole_request r \<Longrightarrow> respond he r a = (Inr m, a') \<Longrightarrow>
    \<exists>what full. handle_read he False r [] a = (Inr what, full, a') \<and> what \<noteq> ReadMore"
  by (simp add: whole_request_def handle_read_def Let_def)

text \<open>The punch timer of a connection in the table is always running, so its handler is always cancelled.\<close>

lemma removal_dooms:
  assumes "process_ok p" "map_of (ap_conns (pr_app p)) u = Some (Some s)" "ap_conns a' = AList.delete u (ap_conns (pr_app p))"
  shows "doomed \<lparr>rn_process = p\<lparr>pr_app := a', pr_requests := rs\<rparr>,
    rn_aborted = q @ concat (map aborted_by_delete (deleted (pr_app p) a'))\<rparr>"
proof -
  have "fit u s" using app_okD [OF _ assms(2)] assms(1) by (simp add: process_ok_def)
  then have "AbortedPunch \<in> set (aborted_by_delete s)" by (simp add: fit_def life_def aborted_by_delete_def)
  then show ?thesis
    using deleted_object [OF assms(2,3)] by (auto simp: doomed_def run_aborted_ub intro!: bexI [of _ AbortedPunch] bexI [of _ s])
qed


text \<open>A client with one friend, whose address is known.\<close>

definition linked_fs :: filesys where
  "linked_fs = \<lparr>fs_files = ([''user_settings'', ''name.txt''], ''me'') # ([''friends'', someone, ''username.txt''], ''you'')
       # ([''friends'', someone, ''ip_io''], ''h 1 2'') # fs_files settled_fs,
     fs_dirs = [''friends''] # [''friends'', someone] # fs_dirs settled_fs\<rparr>"

lemma linked_reads:
  "fs_exists linked_fs [''user_settings'', ''ECC'']"
  "fs_read linked_fs [''user_settings'', ''ECC''] = Some (string_of (replicate 32 9))"
  "fs_read linked_fs [''user_settings'', ''server.txt''] = Some ''off''"
  "fs_read linked_fs [''user_settings'', ''name.txt''] = Some ''me''"
  "fs_read linked_fs [''friends'', someone, ''username.txt''] = Some ''you''"
  "fs_read linked_fs [''friends'', someone, ''ip_io''] = Some ''h 1 2''"
  by (simp_all add: linked_fs_def settled_fs_def sample_keys_def fs_exists_def fs_read_def is_directory_def)

lemma linked_dirs: "is_directory linked_fs friends_dir" "friend_dirs linked_fs = [[''friends'', someone]]"
  by (simp_all add: linked_fs_def settled_fs_def sample_keys_def is_directory_def friends_dir_def
      friend_dirs_def subdirectories_def)

lemma linked_ip: "extract_ip_io ''h 1 2'' = (''h'', Some 1, Some 2)"
  by code_simp

lemma open_one:
  assumes "is_directory (w_fs w) friends_dir" "friend_dirs (w_fs w) = [[''friends'', u]]"
    and "fs_read (w_fs w) [''friends'', u, ''ip_io''] = Some c" "extract_ip_io c = (ip, Some i, Some j)"
    and "ip \<noteq> []" "0 \<le> i" "0 \<le> j" "new_udp_server nt i j ip u g w = (Inr s, w')"
  shows "map_of (ap_conns (load_connections nt g w)) u = Some (Some s)"
  using assms by (simp add: load_connections_def open_connection_def default_minus1_def)

lemma started_conns: "ap_conns (snd (start_client (new_coord a))) = ap_conns a"
  by (simp add: start_client_def new_coord_def Let_def set_world_def)

lemma start_up_conns:
  assumes "generate_or_load_ecc_keys ev (w_fs w) (w_entropy w) = (Inr fs, e)" "read_file fs server_state_file = Inr state"
  shows "\<exists>hs c a v. start_up ev nt g ip True w = Inr (hs, (c, a)) \<and> w_fs v = fs
    \<and> ap_conns a = ap_conns (load_connections nt g v)"
proof -
  define v where "v = (let w1 = w\<lparr>w_fs := fs, w_entropy := e, g_connection_to_server_active := (state = ''on'')\<rparr>;
      w2 = (case read_file fs ''./user_settings/uuid.txt'' of Inl _ \<Rightarrow> w1 | Inr u \<Rightarrow> w1\<lparr>g_uuid := u\<rparr>)
    in user_selection (w2\<lparr>g_public_ip := detected_ip ip\<rparr>))"
  obtain c a where ca: "start_client (new_coord (load_connections nt g v)) = (c, a)" by (metis prod.exhaust)
  then have "ap_conns a = ap_conns (load_connections nt g v)" using started_conns [of "load_connections nt g v"] by simp
  moreover have "w_fs v = fs" by (simp add: v_def Let_def split: sum.split)
  moreover have "start_up ev nt g ip True w = Inr (start_accept \<lparr>hs_accepting = False, hs_full_requests = []\<rparr>, (c, a))"
    using assms ca by (simp add: start_up_def v_def Let_def)
  ultimately show ?thesis by blast
qed

lemma linked_starts: "\<exists>p s. process_start browsing_env p \<and> map_of (ap_conns (pr_app p)) someone = Some (Some s)"
proof -
  let ?fs = "fs_write linked_fs ecc_pub_file (string_of (replicate 32 9))"
  have e: "resolve server_state_file = [''user_settings'', ''server.txt'']" "ecc_pub_file = [''user_settings'', ''ECC_PUB'']"
    "ecc_file = [''user_settings'', ''ECC'']" "resolve ''./user_settings/name.txt'' = [''user_settings'', ''name.txt'']"
    "resolve (''./friends/'' @ someone @ ''/username.txt'') = [''friends'', someone, ''username.txt'']"
    using friend_file_plain [OF plain_someone, of "''username.txt''"]
    by (simp_all add: ecc_file_def ecc_pub_file_def server_state_file_def resolve_def resolve_step_def is_sep_def
        friend_file_def plain_name_def)
  have k: "generate_or_load_ecc_keys plain_evp linked_fs plain_entropy = (Inr ?fs, plain_entropy)"
    using linked_reads by (simp add: generate_or_load_ecc_keys_def plain_evp_def e)
  have r: "read_file ?fs server_state_file = Inr ''off''" "read_file ?fs ''./user_settings/name.txt'' = Inr ''me''"
    "read_file ?fs (''./friends/'' @ someone @ ''/username.txt'') = Inr ''you''"
    "fs_read ?fs [''friends'', someone, ''ip_io''] = Some ''h 1 2''"
    unfolding read_file_def e by (simp_all add: fs_read_simps linked_reads)
  have d: "is_directory ?fs friends_dir" "friend_dirs ?fs = [[''friends'', someone]]"
    using linked_dirs by (simp_all add: friend_dirs_def subdirectories_def)
  have "\<exists>s w'. new_udp_server (he_net browsing_env) 1 2 ''h'' someone (replicate 512 7) w = (Inr s, w')" if "w_fs w = ?fs" for w
    using r(2,3) that by (simp add: new_udp_server_def browsing_env_def udp_punch_def start_receive_def blank_server_def next_rand_def)
  then have "\<exists>s. map_of (ap_conns (load_connections (he_net browsing_env) (replicate 512 7) w)) someone = Some (Some s)" if "w_fs w = ?fs" for w
    using open_one [of w someone "''h 1 2''" "''h''" 1 2] r(4) d linked_ip that by fastforce
  moreover have "generate_or_load_ecc_keys plain_evp (w_fs (sample_world linked_fs)) (w_entropy (sample_world linked_fs))
      = (Inr ?fs, plain_entropy)" using k by simp
  from start_up_conns [OF this r(1), of "he_net browsing_env" "replicate 512 7" None]
  obtain hs c a v where start: "start_up plain_evp (he_net browsing_env) (replicate 512 7) None True (sample_world linked_fs)
      = Inr (hs, (c, a))" "w_fs v = ?fs" "ap_conns a = ap_conns (load_connections (he_net browsing_env) (replicate 512 7) v)" by blast
  ultimately obtain s where "map_of (ap_conns a) someone = Some (Some s)" by metis
  moreover have "process_start browsing_env \<lparr>pr_coord = c, pr_app = a, pr_requests = hs_full_requests hs\<rparr>"
    unfolding process_start_def using start(1)
    by (intro exI [of _ None] exI [of _ "sample_world linked_fs"] exI conjI) (auto simp: browsing_env_def)
  ultimately show ?thesis by (intro exI [of _ "\<lparr>pr_coord = c, pr_app = a, pr_requests = hs_full_requests hs\<rparr>"]) simp
qed

lemma remove_someone:
  "route_of (''POST /remove_friend/'' @ someone @ '' HTTP/1.1'' @ crlf @ crlf) = RemoveFriend"
  "path_uuid (''POST /remove_friend/'' @ someone @ '' HTTP/1.1'' @ crlf @ crlf) ''POST /remove_friend/'' = Inr someone"
  "whole_request (''POST /remove_friend/'' @ someone @ '' HTTP/1.1'' @ crlf @ crlf)"
proof -
  show "route_of (''POST /remove_friend/'' @ someone @ '' HTTP/1.1'' @ crlf @ crlf) = RemoveFriend" by code_simp
  show "path_uuid (''POST /remove_friend/'' @ someone @ '' HTTP/1.1'' @ crlf @ crlf) ''POST /remove_friend/'' = Inr someone"
    by (rule path_uuid_start) simp_all
  have "find_list blank_line (''POST /remove_friend/'' @ someone @ '' HTTP/1.1'' @ crlf @ crlf) = Some 65"
    "find_list ''Content-Length: '' (''POST /remove_friend/'' @ someone @ '' HTTP/1.1'' @ crlf @ crlf) = None" by code_simp+
  then show "whole_request (''POST /remove_friend/'' @ someone @ '' HTTP/1.1'' @ crlf @ crlf)"
    by (simp add: whole_request_def str_find_here content_length_def str_find_def npos_def)
qed


end
