(* ===== verification/ChatPrototype.thy ===== *)
theory ChatPrototype
  imports UdpServer Machine
begin

text \<open>
  The chat prototype (\<open>development/Luka/test_asio/asio_p2p_chat_prototype/chat.cpp\<close>): two consoles
  that exchange lines of text. The global variables and the one \<open>udp_server\<close> object form one record;
  \<open>_kbhit\<close> and \<open>_getch\<close> read a queue of key codes. The window of twenty lines refines the list of all
  lines said so far, and the console always shows the state.

  The program uses \<open>conio.h\<close>, so \<open>char\<close> is the signed one of that platform: a key code is a byte,
  compared by \<open>sint\<close>.
\<close>

section \<open>State\<close>

record chat =
  ch_target_ip :: string
  ch_iport :: int
  ch_oport :: int
  ch_written :: string             \<comment> \<open>\<open>written_message\<close>\<close>
  ch_UI :: string
  ch_UI_existing :: string
  ch_messages :: "string list"
  ch_console :: string             \<comment> \<open>what \<open>cls\<close> and \<open>std::cout\<close> have left on the screen\<close>
  ch_send_endpoint :: "string \<times> nat"
  ch_recv_buffer :: "byte list"
  ch_receiving :: bool             \<comment> \<open>an \<open>async_receive_from\<close> is pending\<close>
  ch_expiry :: int                 \<comment> \<open>of \<open>kbd_t\<close>, in milliseconds\<close>
  ch_outbox :: "string list"

section \<open>The window of lines and the console\<close>

definition chat_add_message :: "string \<Rightarrow> string list \<Rightarrow> string list" where
  "chat_add_message msg messages =
     (let shifted = fold (\<lambda>i ms. ms[i - 1 := ms ! i]) [1..<length messages] messages
      in shifted[length messages - 1 := msg])"

definition chat_UI :: "chat \<Rightarrow> string" where
  "chat_UI st = ''ip: '' @ ch_target_ip st @ ''; i_port: '' @ show_int (ch_iport st)
     @ ''; o_port'' @ show_int (ch_oport st) @ [newline]
     @ concat (map (\<lambda>m. m @ [newline]) (ch_messages st)) @ ''you: '' @ ch_written st"

definition updateUI :: "chat \<Rightarrow> chat" where
  "updateUI st =
     (let UI = chat_UI st; st1 = st\<lparr>ch_UI := UI\<rparr> in
      if UI \<noteq> ch_UI_existing st then st1\<lparr>ch_console := UI, ch_UI_existing := UI\<rparr> else st1)"

section \<open>\<open>udp_server\<close>\<close>

definition chat_send :: "string \<Rightarrow> chat \<Rightarrow> chat" where
  "chat_send msg st = st\<lparr>ch_outbox := ch_outbox st @ [msg]\<rparr>"

text \<open>\<open>None\<close>: \<open>_getch\<close> waits for the second half of a key.\<close>

fun chat_getch :: "byte list \<Rightarrow> (byte \<times> byte list) option" where
  "chat_getch [] = None"
| "chat_getch (c # keys) =
     (if sint c = 224 \<or> sint c = 0 then (case keys of [] \<Rightarrow> None | c' # rest \<Rightarrow> Some (c', rest))
      else Some (c, keys))"

definition chat_types :: "byte \<Rightarrow> bool" where
  "chat_types c \<longleftrightarrow> (97 \<le> sint c \<and> sint c \<le> 122) \<or> (65 \<le> sint c \<and> sint c \<le> 90)
     \<or> (49 \<le> sint c \<and> sint c \<le> 57) \<or> sint c = 48 \<or> sint c = 32"

definition chat_key :: "byte \<Rightarrow> chat \<Rightarrow> unit res \<times> chat" where
  "chat_key c st =
     (let st1 = (if chat_types c then st\<lparr>ch_written := ch_written st @ [char_of_byte c]\<rparr> else st) in
      if sint c = 8 \<and> ch_written st1 = [] then (Inl (UB ''pop_back of an empty string''), st1)
      else
        let st2 = (if sint c = 8 then st1\<lparr>ch_written := butlast (ch_written st1)\<rparr> else st1);
            st3 = (if sint c = 13 then
                     (chat_send (ch_written st2)
                       (st2\<lparr>ch_messages := chat_add_message (''you: '' @ ch_written st2) (ch_messages st2)\<rparr>))
                       \<lparr>ch_written := []\<rparr>
                   else st2)
        in (Inr (), st3))"

definition keyboard_listen :: "byte list \<Rightarrow> chat \<Rightarrow> (unit res \<times> chat \<times> byte list) option" where
  "keyboard_listen keys st =
     (if keys = [] then Some (Inr (), st\<lparr>ch_expiry := ch_expiry st + 10\<rparr>, [])
      else case chat_getch keys of
        None \<Rightarrow> None
      | Some (c, rest) \<Rightarrow>
          (case chat_key c st of
             (Inl e, st') \<Rightarrow> Some (Inl e, st', rest)
           | (Inr _, st') \<Rightarrow>
               let st2 = updateUI st' in Some (Inr (), st2\<lparr>ch_expiry := ch_expiry st2 + 10\<rparr>, rest)))"

text \<open>The handler gets all 64 characters of the buffer, whatever the number of bytes received.\<close>

definition chat_handle_receive :: "bool \<Rightarrow> chat \<Rightarrow> chat" where
  "chat_handle_receive error st =
     (if error then st
      else
        let msg = string_of (ch_recv_buffer st) in
        updateUI (st\<lparr>ch_messages := chat_add_message (''friend: '' @ msg) (ch_messages st),
          ch_recv_buffer := replicate 64 0, ch_receiving := True\<rparr>))"

text \<open>What asio does with a datagram before it calls the handler.\<close>

definition chat_deliver :: "byte list \<Rightarrow> chat \<Rightarrow> chat" where
  "chat_deliver d st = st\<lparr>ch_recv_buffer := take 64 d @ drop (length d) (ch_recv_buffer st),
     ch_receiving := False\<rparr>"

text \<open>The constructor: socket, resolver, first receive, first look at the keyboard, empty buffer.\<close>

definition chat_server :: "net \<Rightarrow> byte list \<Rightarrow> byte list \<Rightarrow> chat \<Rightarrow> (unit res \<times> chat \<times> byte list) option" where
  "chat_server nt garbage keys st =
     (if \<not> net_bind nt (word_of_int (ch_iport st)) then Some (Inl (Throw SystemError), st, keys)
      else case net_resolve nt (ch_target_ip st) (show_int (ch_oport st)) of
        None \<Rightarrow> Some (Inl (Throw SystemError), st, keys)
      | Some endpoint \<Rightarrow>
          map_option (\<lambda>(r, st', rest). (r, if r = Inr () then st'\<lparr>ch_recv_buffer := replicate 64 0\<rparr> else st', rest))
            (keyboard_listen keys (st\<lparr>ch_send_endpoint := endpoint, ch_recv_buffer := garbage, ch_receiving := True,
              ch_expiry := 1\<rparr>)))"

definition chat_globals :: "string \<Rightarrow> chat" where
  "chat_globals console = \<lparr>ch_target_ip = [], ch_iport = 0, ch_oport = 0, ch_written = [], ch_UI = [],
     ch_UI_existing = [], ch_messages = replicate 20 [], ch_console = console, ch_send_endpoint = ([], 0),
     ch_recv_buffer = [], ch_receiving = False, ch_expiry = 0, ch_outbox = []\<rparr>"

text \<open>\<open>main\<close> up to \<open>io_context.run()\<close>; a failure ends it, with the message of the exception or the usage.\<close>

definition chat_main ::
  "net \<Rightarrow> byte list \<Rightarrow> byte list \<Rightarrow> string \<Rightarrow> string list \<Rightarrow> (unit res \<times> chat \<times> byte list) option" where
  "chat_main nt garbage keys console argv =
     (if length argv \<noteq> 4 then None
      else
        let st = (chat_globals console)\<lparr>ch_target_ip := argv ! 1\<rparr> in
        (case stoi 10 (argv ! 2) of
           Inl e \<Rightarrow> Some (Inl e, st, keys)
         | Inr i \<Rightarrow>
             (case stoi 10 (argv ! 3) of
                Inl e \<Rightarrow> Some (Inl e, st\<lparr>ch_iport := i\<rparr>, keys)
              | Inr j \<Rightarrow> chat_server nt garbage keys (updateUI (st\<lparr>ch_iport := i, ch_oport := j\<rparr>)))))"

section \<open>Steps\<close>

text \<open>The line that \<open>Enter\<close> ends.\<close>

definition chat_said :: "byte list \<Rightarrow> chat \<Rightarrow> string list" where
  "chat_said keys st = (case chat_getch keys of
     Some (c, _) \<Rightarrow> if sint c = 13 then [''you: '' @ ch_written st] else [] | None \<Rightarrow> [])"

text \<open>A key is pressed, the keyboard timer expires, a datagram or an error arrives.\<close>

inductive chat_step :: "chat \<times> byte list \<Rightarrow> string list \<Rightarrow> chat \<times> byte list \<Rightarrow> bool" where
  press: "chat_step (st, keys) [] (st, keys @ [k])"
| tick: "keyboard_listen keys st = Some (Inr (), st', rest) \<Longrightarrow>
    chat_step (st, keys) (chat_said keys st) (st', rest)"
| arrive: "ch_receiving st \<Longrightarrow> st1 = chat_deliver d st \<Longrightarrow>
    chat_step (st, keys) [''friend: '' @ string_of (ch_recv_buffer st1)] (chat_handle_receive False st1, keys)"
| fails: "ch_receiving st \<Longrightarrow> st1 = chat_deliver d st \<Longrightarrow> chat_step (st, keys) [] (chat_handle_receive True st1, keys)"

inductive_cases chat_stepE: "chat_step s ls t"

text \<open>The lines said on the way, in the order in which they were said.\<close>

inductive chat_trace :: "chat \<times> byte list \<Rightarrow> string list \<Rightarrow> chat \<times> byte list \<Rightarrow> bool" where
  stop: "chat_trace s [] s"
| go: "chat_trace s ls t \<Longrightarrow> chat_step t ls' u \<Longrightarrow> chat_trace s (ls @ ls') u"

section \<open>Lemmas\<close>

lemma shift_down:
  "n \<le> length ms \<Longrightarrow> 0 < n \<Longrightarrow>
     fold (\<lambda>i ms. ms[i - 1 := ms ! i]) [1..<n] ms = take (n - 1) (tl ms) @ drop (n - 1) ms"
proof (induction n)
  case (Suc n)
  show ?case
  proof (cases "n = 0")
    case False
    let ?l = "take (n - 1) (tl ms) @ drop (n - 1) ms"
    have n: "fold (\<lambda>i ms. ms[i - 1 := ms ! i]) [1..<n] ms = ?l" using Suc False by simp
    have len: "length (take (n - 1) (tl ms)) = n - 1" "n < length ms" using Suc.prems False by simp_all
    have "drop (n - 1) ms = ms ! (n - 1) # drop n ms"
      using len(2) False Cons_nth_drop_Suc [of "n - 1" ms] by simp
    then have "?l[n - 1 := ?l ! n] = take (n - 1) (tl ms) @ ms ! n # drop n ms"
      using len False by (auto simp: nth_append list_update_append Suc_diff_Suc)
    also have "\<dots> = take n (tl ms) @ drop n ms"
      using len False take_Suc_conv_app_nth [of "n - 1" "tl ms"] by (simp add: nth_tl)
    finally show ?thesis using n False by simp
  qed simp
qed simp

lemma chat_add_message_eq: "ms \<noteq> [] \<Longrightarrow> chat_add_message msg ms = tl ms @ [msg]"
  using shift_down [of "length ms" ms]
  by (cases ms rule: rev_cases) (auto simp: chat_add_message_def Let_def list_update_append take_tl)

text \<open>The last twenty lines of a log that starts with twenty empty ones.\<close>

definition last_twenty :: "string list \<Rightarrow> string list" where
  "last_twenty log = drop (length log) (replicate 20 [] @ log)"

lemma length_last_twenty [simp]: "length (last_twenty log) = 20"
  by (simp add: last_twenty_def)

lemma last_twenty_snoc: "chat_add_message m (last_twenty log) = last_twenty (log @ [m])"
proof -
  have "last_twenty log \<noteq> []" by (metis length_last_twenty list.size(3) zero_neq_numeral)
  then have "chat_add_message m (last_twenty log) = tl (last_twenty log) @ [m]" by (rule chat_add_message_eq)
  also have "\<dots> = drop (Suc (length log)) (replicate 20 [] @ log) @ [m]"
    by (simp add: last_twenty_def drop_Suc tl_drop del: drop_append)
  finally show ?thesis by (simp add: last_twenty_def)
qed

lemma chat_UI_fields [simp]:
  "chat_UI (st\<lparr>ch_UI := x\<rparr>) = chat_UI st" "chat_UI (st\<lparr>ch_UI_existing := x\<rparr>) = chat_UI st"
  "chat_UI (st\<lparr>ch_console := x\<rparr>) = chat_UI st" "chat_UI (st\<lparr>ch_expiry := e\<rparr>) = chat_UI st"
  "chat_UI (st\<lparr>ch_recv_buffer := b\<rparr>) = chat_UI st" "chat_UI (st\<lparr>ch_receiving := r\<rparr>) = chat_UI st"
  "chat_UI (st\<lparr>ch_send_endpoint := ep\<rparr>) = chat_UI st"
  by (simp_all add: chat_UI_def)

text \<open>The console is up to date.\<close>

definition shown :: "chat \<Rightarrow> bool" where
  "shown st \<longleftrightarrow> ch_console st = chat_UI st \<and> ch_UI st = chat_UI st \<and> ch_UI_existing st = chat_UI st"

lemma updateUI_shown: "ch_console st = ch_UI_existing st \<or> chat_UI st \<noteq> ch_UI_existing st \<Longrightarrow> shown (updateUI st)"
  by (auto simp: shown_def updateUI_def Let_def)

lemma updateUI_fields [simp]:
  "ch_messages (updateUI st) = ch_messages st" "ch_written (updateUI st) = ch_written st"
  "ch_receiving (updateUI st) = ch_receiving st" "ch_outbox (updateUI st) = ch_outbox st"
  "ch_recv_buffer (updateUI st) = ch_recv_buffer st"
  by (simp_all add: updateUI_def Let_def)

lemma shown_fields [simp]:
  "shown (st\<lparr>ch_expiry := e\<rparr>) = shown st" "shown (st\<lparr>ch_recv_buffer := b\<rparr>) = shown st"
  "shown (st\<lparr>ch_receiving := r\<rparr>) = shown st" "shown (st\<lparr>ch_send_endpoint := ep\<rparr>) = shown st"
  by (simp_all add: shown_def)

lemma chat_key_fields:
  assumes "chat_key c st = (Inr (), st')"
  shows "ch_messages st' = (if sint c = 13 then chat_add_message (''you: '' @ ch_written st) (ch_messages st)
      else ch_messages st)"
    and "ch_console st' = ch_console st" "ch_UI_existing st' = ch_UI_existing st"
    and "ch_receiving st' = ch_receiving st" "ch_recv_buffer st' = ch_recv_buffer st"
  using assms by (auto simp: chat_key_def chat_send_def chat_types_def Let_def split: if_splits)

definition chat_ok :: "chat \<times> byte list \<Rightarrow> bool" where
  "chat_ok s \<longleftrightarrow> shown (fst s) \<and> length (ch_messages (fst s)) = 20 \<and> length (ch_recv_buffer (fst s)) = 64"

lemma length_add_message [simp]: "length (chat_add_message m ms) = length ms"
proof -
  have "length (fold (\<lambda>i ms. ms[i - 1 := ms ! i]) is ms) = length ms" for "is"
    by (induction "is" arbitrary: ms) simp_all
  then show ?thesis by (simp add: chat_add_message_def Let_def)
qed

lemma keyboard_listen_cases:
  assumes "keyboard_listen keys st = Some (Inr (), st', rest)"
  obtains "keys = []" "st' = st\<lparr>ch_expiry := ch_expiry st + 10\<rparr>" "rest = []"
  | c st1 where "chat_getch keys = Some (c, rest)" "chat_key c st = (Inr (), st1)"
    "st' = (updateUI st1)\<lparr>ch_expiry := ch_expiry (updateUI st1) + 10\<rparr>"
  using assms by (auto simp: keyboard_listen_def Let_def split: if_splits option.splits prod.splits sum.splits)

lemma tick_ok:
  assumes "keyboard_listen keys st = Some (Inr (), st', rest)" "shown st"
  shows "shown st'" "ch_recv_buffer st' = ch_recv_buffer st" "ch_receiving st' = ch_receiving st"
    and "ch_messages st' = (case chat_getch keys of
       Some (c, _) \<Rightarrow> if sint c = 13 then chat_add_message (''you: '' @ ch_written st) (ch_messages st) else ch_messages st
     | None \<Rightarrow> ch_messages st)"
proof -
  have "shown st' \<and> ch_recv_buffer st' = ch_recv_buffer st \<and> ch_receiving st' = ch_receiving st
    \<and> ch_messages st' = (case chat_getch keys of
       Some (c, _) \<Rightarrow> if sint c = 13 then chat_add_message (''you: '' @ ch_written st) (ch_messages st) else ch_messages st
     | None \<Rightarrow> ch_messages st)"
  proof (rule keyboard_listen_cases [OF assms(1)], goal_cases)
    case (2 c st1)
    note f = chat_key_fields [OF 2(2)]
    have "shown (updateUI st1)" using assms(2) f(2,3) by (intro updateUI_shown) (simp add: shown_def)
    then show ?case using 2 f by simp
  qed (use assms(2) in simp)
  then show "shown st'" "ch_recv_buffer st' = ch_recv_buffer st" "ch_receiving st' = ch_receiving st"
    "ch_messages st' = (case chat_getch keys of
       Some (c, _) \<Rightarrow> if sint c = 13 then chat_add_message (''you: '' @ ch_written st) (ch_messages st) else ch_messages st
     | None \<Rightarrow> ch_messages st)" by blast+
qed

lemma receive_shown: "shown st \<Longrightarrow> shown (chat_handle_receive e (chat_deliver d st))"
  by (auto simp: chat_handle_receive_def chat_deliver_def Let_def shown_def [of st] intro!: updateUI_shown)

lemma chat_step_ok:
  assumes "chat_step s ls t" "chat_ok s"
  shows "chat_ok t"
  using assms(1)
proof cases
  case (tick keys st st' rest)
  then have "shown st" "length (ch_messages st) = 20" "length (ch_recv_buffer st) = 64"
    using assms(2) by (simp_all add: chat_ok_def)
  then show ?thesis using tick tick_ok [OF tick(4)] by (simp add: chat_ok_def split: option.split)
qed (use assms(2) in \<open>auto simp: chat_ok_def receive_shown\<close>,
    auto simp: chat_handle_receive_def chat_deliver_def Let_def)

definition chat_started :: "net \<Rightarrow> byte list \<Rightarrow> string list \<Rightarrow> chat \<times> byte list \<Rightarrow> bool" where
  "chat_started nt garbage lines s \<longleftrightarrow> (\<exists>keys console argv.
     chat_main nt garbage keys console argv = Some (Inr (), s) \<and> lines = chat_said keys (chat_globals console))"

lemma globals_shown: "shown (updateUI ((chat_globals console)\<lparr>ch_target_ip := ip, ch_iport := i, ch_oport := j\<rparr>))"
  by (rule updateUI_shown) (simp add: chat_globals_def chat_UI_def)

lemma chat_said_cong: "ch_written st = ch_written st' \<Longrightarrow> chat_said keys st = chat_said keys st'"
  unfolding chat_said_def by (erule arg_cong)

lemma messages_said:
  assumes "keyboard_listen keys st = Some (Inr (), st', rest)" "shown st" "ch_messages st = last_twenty log"
  shows "ch_messages st' = last_twenty (log @ chat_said keys st)"
  using tick_ok(4) [OF assms(1,2)] assms(3)
  by (auto simp: chat_said_def last_twenty_snoc split: option.split)

lemma chat_started_ok:
  assumes "chat_started nt garbage lines s"
  shows "chat_ok s" "ch_messages (fst s) = last_twenty lines"
proof -
  obtain keys console argv where m: "chat_main nt garbage keys console argv = Some (Inr (), s)"
    "lines = chat_said keys (chat_globals console)" using assms unfolding chat_started_def by blast
  obtain i j endpoint st' rest where k: "s = (st'\<lparr>ch_recv_buffer := replicate 64 0\<rparr>, rest)"
    "keyboard_listen keys (updateUI ((chat_globals console)\<lparr>ch_target_ip := argv ! 1, ch_iport := i, ch_oport := j\<rparr>)
       \<lparr>ch_send_endpoint := endpoint, ch_recv_buffer := garbage, ch_receiving := True, ch_expiry := 1\<rparr>)
     = Some (Inr (), st', rest)" (is "keyboard_listen keys ?st = _")
    using m(1) by (auto simp: chat_main_def chat_server_def Let_def split: if_splits sum.splits option.splits)
  have "ch_written ?st = ch_written (chat_globals console)" by (simp add: chat_globals_def)
  then have st: "shown ?st" "ch_messages ?st = last_twenty []" "chat_said keys ?st = lines"
    using globals_shown chat_said_cong m(2) by (simp_all add: chat_globals_def last_twenty_def)
  have "ch_messages st' = last_twenty lines" using messages_said [OF k(2) st(1,2)] st(3) by simp
  then show "chat_ok s" "ch_messages (fst s) = last_twenty lines"
    using tick_ok(1) [OF k(2) st(1)] by (simp_all add: k(1) chat_ok_def)
qed

interpretation chat: machine "\<lambda>s. \<exists>lines. chat_started nt garbage lines s" "\<lambda>s t. \<exists>lines. chat_step s lines t" chat_ok
  for nt garbage
  by unfold_locales (auto intro: chat_started_ok chat_step_ok)

lemma chat_trace_steps: "chat_trace s log t \<Longrightarrow> (\<lambda>s t. \<exists>lines. chat_step s lines t)\<^sup>*\<^sup>* s t"
  by (induction rule: chat_trace.induct) (auto intro: rtranclp.rtrancl_into_rtrancl)

lemma chat_step_window:
  assumes "chat_step s lines t" "chat_ok s" "ch_messages (fst s) = last_twenty log"
  shows "ch_messages (fst t) = last_twenty (log @ lines)"
  using assms(1)
proof cases
  case (tick keys st st' rest)
  then show ?thesis using messages_said [OF tick(4)] assms(2,3) by (simp add: chat_ok_def)
qed (use assms(3) in \<open>auto simp: chat_handle_receive_def chat_deliver_def Let_def last_twenty_snoc\<close>)

lemma chat_trace_window:
  "chat_trace s log t \<Longrightarrow> chat_ok s \<Longrightarrow> ch_messages (fst s) = last_twenty l0 \<Longrightarrow>
     ch_messages (fst t) = last_twenty (l0 @ log)"
proof (induction rule: chat_trace.induct)
  case (go s ls t ls' u)
  have "chat_ok t" using chat.steps_good [OF chat_trace_steps [OF go(1)]] go.prems(1) by simp
  then show ?case using chat_step_window [OF go(2)] go by simp
qed simp

section \<open>Keys\<close>

lemma chat_types_ordinary: "chat_types c \<Longrightarrow> sint c \<noteq> 224 \<and> sint c \<noteq> 0 \<and> sint c \<noteq> 8 \<and> sint c \<noteq> 13"
  by (auto simp: chat_types_def)

lemma type_key:
  assumes "chat_types c"
  shows "\<exists>st'. keyboard_listen (c # keys) st = Some (Inr (), st', keys) \<and> ch_written st' = ch_written st @ [char_of_byte c]
    \<and> ch_outbox st' = ch_outbox st \<and> ch_messages st' = ch_messages st \<and> chat_said (c # keys) st = []"
  using assms chat_types_ordinary [OF assms]
  by (simp add: keyboard_listen_def chat_key_def chat_said_def Let_def)

lemma type_line:
  "list_all (chat_types \<circ> byte_of) m \<Longrightarrow> \<exists>st'. chat_trace (st, bytes_of m @ keys) [] (st', keys)
     \<and> ch_written st' = ch_written st @ m \<and> ch_outbox st' = ch_outbox st \<and> ch_messages st' = ch_messages st"
proof (induction m arbitrary: keys rule: rev_induct)
  case Nil
  then show ?case using chat_trace.stop by auto
next
  case (snoc c m)
  then obtain st1 where t: "chat_trace (st, bytes_of m @ byte_of c # keys) [] (st1, byte_of c # keys)"
    "ch_written st1 = ch_written st @ m" "ch_outbox st1 = ch_outbox st" "ch_messages st1 = ch_messages st"
    using snoc.IH [of "byte_of c # keys"] snoc.prems by auto
  obtain st2 where k: "keyboard_listen (byte_of c # keys) st1 = Some (Inr (), st2, keys)" "ch_written st2 = ch_written st1 @ [c]"
    "ch_outbox st2 = ch_outbox st1" "ch_messages st2 = ch_messages st1" "chat_said (byte_of c # keys) st1 = []"
    using type_key [of "byte_of c" keys st1] snoc.prems by auto
  have "chat_trace (st, bytes_of m @ byte_of c # keys) ([] @ chat_said (byte_of c # keys) st1) (st2, keys)"
    by (rule chat_trace.go [OF t(1) chat_step.tick [OF k(1)]])
  then show ?case using t k by auto
qed

lemma enter_key:
  "\<exists>st'. keyboard_listen (13 # keys) st = Some (Inr (), st', keys) \<and> ch_written st' = []
     \<and> ch_outbox st' = ch_outbox st @ [ch_written st] \<and> chat_said (13 # keys) st = [''you: '' @ ch_written st]
     \<and> ch_messages st' = chat_add_message (''you: '' @ ch_written st) (ch_messages st)"
  by (simp add: keyboard_listen_def chat_key_def chat_said_def chat_types_def chat_send_def Let_def)

section \<open>Properties\<close>

text \<open>
  C38: the window refines the log. Whatever is typed and received after the start: the twenty lines of
  the window are the last twenty of everything said, in order, and the console shows the
  addresses, these lines and the line being typed.
\<close>

theorem chat_window:
  assumes "chat_started nt garbage lines s" "chat_trace s log (st, keys)"
  shows "ch_messages st = last_twenty (lines @ log) \<and> ch_console st = chat_UI st"
proof
  show "ch_messages st = last_twenty (lines @ log)"
    using chat_trace_window [OF assms(2) chat_started_ok [OF assms(1)]] by simp
  have "chat_ok (st, keys)" using chat.reached_good [OF _ chat_trace_steps [OF assms(2)]] assms(1) by blast
  then show "ch_console st = chat_UI st" by (simp add: chat_ok_def shown_def)
qed

definition console_net :: net where
  "console_net = \<lparr>net_bind = (\<lambda>p. p \<noteq> 0), net_resolve = (\<lambda>h service. Some (h, digits_val 10 service))\<rparr>"

lemma chat_starts:
  "\<exists>st. chat_started console_net (replicate 64 7) [] (st, [13]) \<and> ch_written st = ''h''"
proof -
  let ?st = "updateUI ((chat_globals [])\<lparr>ch_target_ip := ''10.0.0.2'', ch_iport := 9, ch_oport := 8\<rparr>)"
  let ?st1 = "?st\<lparr>ch_send_endpoint := (''10.0.0.2'', digits_val 10 (show_int 8)),
      ch_recv_buffer := replicate 64 7, ch_receiving := True, ch_expiry := 1\<rparr>"
  have h: "chat_types 104" "char_of_byte 104 = CHR ''h''" by (simp add: chat_types_def) code_simp
  then obtain st' where k: "keyboard_listen [104, 13] ?st1 = Some (Inr (), st', [13])"
    "ch_written st' = ch_written ?st1 @ ''h''" "chat_said [104, 13] ?st1 = []"
    using type_key [of 104 "[13]" ?st1] by auto
  have "strtol 10 ''9'' = Some 9" "strtol 10 ''8'' = Some 8" by code_simp+
  then have i: "stoi 10 ''9'' = Inr 9" "stoi 10 ''8'' = Inr 8"
    by (simp_all add: stoi_def int_min_def int_max_def)
  have p: "ch_iport ?st = 9" "ch_oport ?st = 8" "ch_target_ip ?st = ''10.0.0.2''"
    by (simp_all add: updateUI_def Let_def)
  have "chat_server console_net (replicate 64 7) [104, 13] ?st
      = Some (Inr (), st'\<lparr>ch_recv_buffer := replicate 64 0\<rparr>, [13])"
    unfolding chat_server_def p using k(1) by (simp add: console_net_def)
  then have m: "chat_main console_net (replicate 64 7) [104, 13] [] [''chat'', ''10.0.0.2'', ''9'', ''8'']
      = Some (Inr (), st'\<lparr>ch_recv_buffer := replicate 64 0\<rparr>, [13])"
    by (simp add: chat_main_def i)
  have w: "chat_said [104, 13] (chat_globals []) = []" "ch_written ?st1 = []"
    using k(3) chat_said_cong [of ?st1 "chat_globals []"] by (simp_all add: chat_globals_def)
  show ?thesis
    by (rule exI [of _ "st'\<lparr>ch_recv_buffer := replicate 64 0\<rparr>"])
      (use m w k(2) in \<open>auto simp: chat_started_def intro!: exI [of _ "[104, 13]"]\<close>)
qed

theorem chat_window_witness:
  "\<exists>s st. chat_started console_net (replicate 64 7) [] s \<and> chat_trace s [''you: h''] (st, [])
     \<and> ch_messages st = last_twenty [''you: h''] \<and> ch_console st = chat_UI st"
proof -
  obtain st where s: "chat_started console_net (replicate 64 7) [] (st, [13])" "ch_written st = ''h''"
    using chat_starts by blast
  obtain st' where e: "keyboard_listen [13] st = Some (Inr (), st', [])" "chat_said [13] st = [''you: h'']"
    using enter_key [of "[]" st] s(2) by auto
  have t: "chat_trace (st, [13]) [''you: h''] (st', [])"
    using chat_trace.go [OF chat_trace.stop chat_step.tick [OF e(1)]] e(2) by simp
  from chat_window [OF s(1) t] show ?thesis using s(1) t by auto
qed

text \<open>
  A line crosses. A line of at most 64 letters, digits and spaces typed on one console, then
  \<open>Enter\<close>: it is said on that console, it is sent, and when its datagram reaches the other console it is
  said there -- followed by as many zero characters as the receive buffer has left.
\<close>

lemma chat_line_arrives:
  assumes "list_all (chat_types \<circ> byte_of) m" "length m \<le> 64" "ch_written st = []"
    and "ch_receiving t" "ch_recv_buffer t = replicate 64 0"
  shows "\<exists>st' t'. chat_trace (st, bytes_of m @ [13]) [''you: '' @ m] (st', []) \<and> ch_written st' = []
    \<and> ch_outbox st' = ch_outbox st @ [m]
    \<and> t' = chat_handle_receive False (chat_deliver (bytes_of (last (ch_outbox st'))) t)
    \<and> chat_step (t, keys) [''friend: '' @ m @ replicate (64 - length m) (CHR 0x00)] (t', keys) \<and> ch_receiving t'"
proof -
  obtain st1 where t: "chat_trace (st, bytes_of m @ [13]) [] (st1, [13])" "ch_written st1 = m" "ch_outbox st1 = ch_outbox st"
    using type_line [OF assms(1), of st "[13]"] assms(3) by auto
  obtain st2 where e: "keyboard_listen [13] st1 = Some (Inr (), st2, [])" "ch_written st2 = []"
    "ch_outbox st2 = ch_outbox st @ [m]" "chat_said [13] st1 = [''you: '' @ m]"
    using enter_key [of "[]" st1] t by auto
  have tr: "chat_trace (st, bytes_of m @ [13]) ([] @ chat_said [13] st1) (st2, [])"
    by (rule chat_trace.go [OF t(1) chat_step.tick [OF e(1)]])
  let ?t1 = "chat_deliver (bytes_of m) t"
  have z: "char_of_byte 0 = CHR 0x00" by code_simp
  have b: "string_of (ch_recv_buffer ?t1) = m @ replicate (64 - length m) (CHR 0x00)"
    using assms(2,5) by (simp add: chat_deliver_def z)
  have "chat_step (t, keys) [''friend: '' @ string_of (ch_recv_buffer ?t1)] (chat_handle_receive False ?t1, keys)"
    using assms(4) by (rule chat_step.arrive) (rule refl)
  moreover have "ch_receiving (chat_handle_receive False ?t1)" by (simp add: chat_handle_receive_def Let_def)
  ultimately show ?thesis using tr e b by auto
qed

lemma chat_line_arrives_witness:
  "\<exists>st t st' t'. ch_written st = [] \<and> chat_trace (st, bytes_of ''hi'' @ [13]) [''you: hi''] (st', [])
    \<and> t' = chat_handle_receive False (chat_deliver (bytes_of (last (ch_outbox st'))) t)
    \<and> chat_step (t, []) [''friend: '' @ ''hi'' @ replicate 62 (CHR 0x00)] (t', [])"
proof -
  let ?t = "(chat_globals [])\<lparr>ch_receiving := True, ch_recv_buffer := replicate 64 0\<rparr>"
  have m: "list_all (chat_types \<circ> byte_of) ''hi''" by (simp add: chat_types_def) code_simp
  have r: "ch_written (chat_globals []) = []" "ch_receiving ?t" "ch_recv_buffer ?t = replicate 64 0" "length ''hi'' \<le> 64"
    "64 - length ''hi'' = 62"
    by (simp_all add: chat_globals_def)
  from chat_line_arrives [OF m r(4,1-3), of "[]"] show ?thesis unfolding r(5) using r(1) by auto
qed

text \<open>
  An arrow key types a letter. The console sends two codes for it, 224 (or 0) and 72. As a
  signed \<open>char\<close> the first is never 224, so both codes are taken for keys; and where the first
  is recognised, the second is still taken for a letter. Either way a capital H is typed.
\<close>

lemma arrow_types_letter:
  "(\<exists>st1 st2. keyboard_listen [224, 72] st = Some (Inr (), st1, [72])
     \<and> keyboard_listen [72] st1 = Some (Inr (), st2, []) \<and> ch_written st2 = ch_written st @ ''H'')
   \<and> (\<exists>st1. keyboard_listen [0, 72] st = Some (Inr (), st1, []) \<and> ch_written st1 = ch_written st @ ''H'')"
proof -
  have h: "char_of_byte 72 = CHR ''H''" by code_simp
  have "chat_types 72" "\<not> chat_types 224" by (simp_all add: chat_types_def)
  then show ?thesis by (simp add: keyboard_listen_def chat_key_def Let_def h)
qed

text \<open>
  Backspace on an empty line takes a character from an empty string, and an error of the
  socket ends the reception for good.
\<close>

lemma backspace_on_empty_line:
  "ch_written st = [] \<Longrightarrow>
     keyboard_listen (8 # keys) st = Some (Inl (UB ''pop_back of an empty string''), st, keys)"
  by (simp add: keyboard_listen_def chat_key_def chat_types_def)

lemma error_ends_reception:
  "ch_receiving st \<Longrightarrow> \<not> ch_receiving (chat_handle_receive True (chat_deliver d st))"
  "chat_step s lines t \<Longrightarrow> \<not> ch_receiving (fst s) \<Longrightarrow> shown (fst s) \<Longrightarrow> \<not> ch_receiving (fst t)"
  by (simp add: chat_handle_receive_def chat_deliver_def) (erule chat_stepE; auto dest: tick_ok(3))

end
