(* ===== verification/EarlyPages.thy ===== *)
theory EarlyPages
  imports HttpRequests Machine
begin

text \<open>
  Two early page servers: the first client (\<open>development/Luka/client/main.cpp\<close>, \<open>QLib.hpp\<close>) and the
  demonstration before it (\<open>development/Luka/test_asio/http_server/main.cpp\<close>, continued in DemoServer). Functions that they share
  word for word with the final client (\<open>readwebsite\<close>, \<open>replace_string_pattern_with\<close>,
  \<open>make_http_response\<close>, the reading loop of \<open>make_json_messages\<close>) are the definitions of the final
  client; the rest is modelled here and compared with what it became.
\<close>

section \<open>Pages and the history\<close>

definition early_prepare_html :: "filesys \<Rightarrow> string \<Rightarrow> string res" where
  "early_prepare_html fs html = fold (\<lambda>(p, f). replace_file fs p f)
     [(''$$messages$$'', ''./frontend/modules/messages.html''),
      (''`$`meow meow`$`'', ''./frontend/meow.txt''),
      (''$$options$$'', ''./frontend/modules/options.html''),
      (''$$input bar$$'', ''./frontend/modules/input_bar.html''),
      (''$$javascript$$'', ''./frontend/modules/javascript.js''),
      (''$$chat header$$'', ''./frontend/modules/chat_header.html''),
      (''$$friend list$$'', ''./frontend/modules/friend_list.html''),
      (''$$top bar$$'', ''./frontend/modules/top_bar.html'')] (Inr html)"

definition early_json_entry :: "entry \<Rightarrow> string" where
  "early_json_entry e =
     ''{'' @ [quote] @ ''sender'' @ [quote] @ '':'' @ [quote] @ en_sender e @ [quote] @ '',''
     @ [quote] @ ''message'' @ [quote] @ '':'' @ [quote] @ en_message e @ [quote] @ '',''
     @ [quote] @ ''date'' @ [quote] @ '':'' @ [quote] @ en_date e @ [quote] @ '',''
     @ [quote] @ ''time'' @ [quote] @ '':'' @ [quote] @ en_time e @ [quote] @ ''}''"

definition early_make_json_messages :: "filesys \<Rightarrow> string \<Rightarrow> string" where
  "early_make_json_messages fs req_uuid =
     (case fs_read fs (resolve (''./friends/'' @ req_uuid @ ''/messages.txt'')) of
        None \<Rightarrow> ''[]''
      | Some contents \<Rightarrow>
          ''['' @ comma_separated (map early_json_entry (read_history req_uuid (lines_of contents))) @ '']'')"

definition early_save_message :: "filesys \<Rightarrow> string \<Rightarrow> string \<Rightarrow> string \<Rightarrow> string \<Rightarrow> filesys" where
  "early_save_message fs requested_uuid message date time_str =
     fs_append fs (resolve (''friends/'' @ requested_uuid @ ''/messages.txt''))
       (newline # ''$you'' @ newline # ''message:'' @ message @ newline # ''date:'' @ date @ newline #
        ''time:'' @ time_str @ newline # ''$end'' @ [newline])"

definition early_entity :: "char \<Rightarrow> string" where
  "early_entity c =
     (if c = CHR ''&'' then ''&amp;'' else if c = CHR ''<'' then ''&lt;'' else if c = CHR ''>'' then ''&gt;''
      else if c = quote then ''&quot;'' else if c = CHR 0x27 then ''&#39;''
      else if (of_char c :: nat) > 127 then ''&#'' @ show_nat (of_char c) @ '';'' else [c])"

definition htmlentities :: "string \<Rightarrow> string" where
  "htmlentities html = concat (map early_entity html)"

section \<open>The first client: one request\<close>

record early_env =
  ee_date :: string
  ee_time :: string
  ee_ctime :: string

text \<open>\<open>t.erase(t.find_last_not_of("\n") + 1)\<close>\<close>

definition early_time :: "early_env \<Rightarrow> string" where
  "early_time ee = make_http_response (rev (dropWhile (\<lambda>c. c = newline) (rev (ee_ctime ee)))) ''text/plain''"

definition early_post :: "early_env \<Rightarrow> string \<Rightarrow> filesys \<Rightarrow> string res \<times> filesys" where
  "early_post ee request fs = (case path_uuid request ''POST /send/'' of
     Inl e \<Rightarrow> (Inl e, fs)
   | Inr u \<Rightarrow>
       (case body_of request of
          Inl e \<Rightarrow> (Inl e, fs)
        | Inr body \<Rightarrow>
            (case quoted_after body (json_key ''message'') of
               Inl e \<Rightarrow> (Inl e, fs)
             | Inr message \<Rightarrow>
                 (Inr ok_response, early_save_message fs u message (ee_date ee) (ee_time ee)))))"

definition early_respond :: "early_env \<Rightarrow> string \<Rightarrow> filesys \<Rightarrow> string res \<times> filesys" where
  "early_respond ee request fs =
     (if contains request ''GET /time'' then (Inr (early_time ee), fs)
      else if contains request ''GET /style.css'' then (serve_file ''./frontend/style.css'' ''text/css'' fs, fs)
      else if contains request ''GET /icon.ico'' then (serve_file ''./frontend/icon.ico'' ''image/x-icon'' fs, fs)
      else if contains request ''GET /messages/'' then
        (bind_res (path_uuid request ''GET /messages/'') (\<lambda>u. Inr (early_make_json_messages fs u)), fs)
      else if contains request ''POST /send/'' then early_post ee request fs
      else (bind_res (read_file fs ''./frontend/index.html'') (\<lambda>h.
              bind_res (early_prepare_html fs h) (\<lambda>b. Inr (make_http_response b ''text/html''))), fs))"

section \<open>The demonstration: one request\<close>

definition demo_respond :: "early_env \<Rightarrow> string \<Rightarrow> filesys \<Rightarrow> string res \<times> filesys" where
  "demo_respond ee request fs =
     (if contains request ''GET /time'' then (Inr (early_time ee), fs)
      else (serve_file ''./index.html'' ''text/html'' fs, fs))"

section \<open>The server loop of both\<close>

record page_conn =
  pc_message :: string                 \<comment> \<open>\<open>message_\<close>\<close>
  pc_reading :: bool                   \<comment> \<open>\<open>async_read_some\<close> is pending\<close>
  pc_sent :: "string option"           \<comment> \<open>what \<open>async_write\<close> was given\<close>

record pages =
  pg_fs :: filesys
  pg_accepting :: bool
  pg_conns :: "page_conn list"

text \<open>\<open>start\<close> of a connection reads the index page before any request is known.\<close>

definition page_start :: "string \<Rightarrow> filesys \<Rightarrow> page_conn res" where
  "page_start index fs = bind_res (read_file fs index) (\<lambda>m.
     Inr \<lparr>pc_message = m, pc_reading = True, pc_sent = None\<rparr>)"

definition page_handle_accept :: "string \<Rightarrow> bool \<Rightarrow> pages \<Rightarrow> unit res \<times> pages" where
  "page_handle_accept index error st =
     (if error then (Inr (), st\<lparr>pg_accepting := True\<rparr>)
      else case page_start index (pg_fs st) of
        Inl e \<Rightarrow> (Inl e, st)
      | Inr c \<Rightarrow> (Inr (), st\<lparr>pg_conns := pg_conns st @ [c], pg_accepting := True\<rparr>))"

definition change_conn :: "nat \<Rightarrow> (page_conn \<Rightarrow> page_conn) \<Rightarrow> pages \<Rightarrow> pages" where
  "change_conn i f st = st\<lparr>pg_conns := (pg_conns st)[i := f (pg_conns st ! i)]\<rparr>"

definition page_handle_read ::
  "(string \<Rightarrow> filesys \<Rightarrow> string res \<times> filesys) \<Rightarrow> bool \<Rightarrow> string \<Rightarrow> nat \<Rightarrow> pages \<Rightarrow> unit res \<times> pages" where
  "page_handle_read answer error request i st =
     (if error then (Inr (), st)
      else case answer request (pg_fs st) of
        (Inl e, fs) \<Rightarrow> (Inl e, st\<lparr>pg_fs := fs\<rparr>)
      | (Inr m, fs) \<Rightarrow> (Inr (), change_conn i (\<lambda>c. c\<lparr>pc_message := m, pc_sent := Some m\<rparr>) (st\<lparr>pg_fs := fs\<rparr>)))"

text \<open>A connection is accepted (or accepting it fails); the read of one ends, with at most 4096 bytes.\<close>

datatype page_event = Accepted bool | ReadDone nat bool string

fun page_step :: "string \<Rightarrow> (string \<Rightarrow> filesys \<Rightarrow> string res \<times> filesys) \<Rightarrow> page_event \<Rightarrow> pages \<Rightarrow> unit res \<times> pages" where
  "page_step index answer (Accepted error) st =
     (if pg_accepting st then page_handle_accept index error (st\<lparr>pg_accepting := False\<rparr>) else (Inr (), st))"
| "page_step index answer (ReadDone i error bytes) st =
     (if i < length (pg_conns st) \<and> pc_reading (pg_conns st ! i) then
        page_handle_read answer error (take 4096 bytes) i (change_conn i (\<lambda>c. c\<lparr>pc_reading := False\<rparr>) st)
      else (Inr (), st))"

text \<open>An exception leaves \<open>io_context.run()\<close>, and with it the program.\<close>

fun page_run :: "string \<Rightarrow> (string \<Rightarrow> filesys \<Rightarrow> string res \<times> filesys) \<Rightarrow> page_event list \<Rightarrow> pages \<Rightarrow> unit res \<times> pages" where
  "page_run index answer [] st = (Inr (), st)"
| "page_run index answer (e # es) st = (case page_step index answer e st of
     (Inl x, st') \<Rightarrow> (Inl x, st') | (Inr _, st') \<Rightarrow> page_run index answer es st')"

definition pages_main :: "filesys \<Rightarrow> pages" where
  "pages_main fs = \<lparr>pg_fs = fs, pg_accepting = True, pg_conns = []\<rparr>"

abbreviation "early_index \<equiv> ''./frontend/index.html''"
abbreviation "demo_index \<equiv> ''./index.html''"

abbreviation early_run :: "early_env \<Rightarrow> page_event list \<Rightarrow> pages \<Rightarrow> unit res \<times> pages" where
  "early_run ee \<equiv> page_run early_index (early_respond ee)"

abbreviation demo_run :: "early_env \<Rightarrow> page_event list \<Rightarrow> pages \<Rightarrow> unit res \<times> pages" where
  "demo_run ee \<equiv> page_run demo_index (demo_respond ee)"

section \<open>Lemmas: compared with the final client\<close>

lemma early_save: "early_save_message fs u m d t = save_message fs u m ''you'' d t"
  by (simp add: early_save_message_def save_message_def history_record_def)

lemma early_json_plain: "json_plain (en_message e) \<Longrightarrow> early_json_entry e = json_entry e"
  by (simp add: early_json_entry_def json_entry_def json_escape_plain)

lemma early_history_alt: "early_make_json_messages fs u
    = ''['' @ comma_separated (map early_json_entry (history_entries fs u)) @ '']''"
  by (simp add: early_make_json_messages_def history_entries_def messages_file_def friend_file_def split: option.split)

lemma early_entity_ascii: "(of_char c :: nat) \<le> 127 \<Longrightarrow> early_entity c = html_escape_char c"
  by (auto simp: early_entity_def html_escape_char_def)

lemma ascii_digits: "list_all (\<lambda>c. (of_char c :: nat) \<le> 127) (show_nat n)"
  using show_nat_digits [of n] by (auto simp: list_all_iff is_digit_def digit_val_def Let_def split: if_splits)

lemma early_entity_clean: "list_all (\<lambda>c. (of_char c :: nat) \<le> 127) (early_entity c)"
  using ascii_digits by (simp add: early_entity_def)

section \<open>Lemmas: one request\<close>

lemma early_cut:
  assumes "quote \<notin> set a" "length a + length z < 2 ^ 59"
  shows "quoted_after (''{'' @ json_key ''message'' @ a @ [quote] @ z) (json_key ''message'') = Inr a"
proof -
  let ?k = "json_key ''message''" and ?b = "''{'' @ json_key ''message'' @ a @ [quote] @ z"
  have "find_list ?k ?b = Some 1"
    using find_list_behind [of ?k "''{''"] by (simp add: json_key_def)
  then have "behind ?b ?k = 12" using behind_here by (simp add: json_key_def)
  moreover have "substr ?b 12 npos = Inr (a @ [quote] @ z)"
    using substr_to_end [of 12 ?b] assms(2) by (simp add: json_key_def npos_def)
  moreover have "str_find (a @ [quote] @ z) [quote] 0 = length a"
    by (rule str_find_here) (use assms(1) find_list_behind [of "[quote]" a z] in simp)
  ultimately show ?thesis by (simp only: quoted_after_def bind_res_simps) simp
qed

lemma json_plain_no_quote: "json_plain m \<Longrightarrow> quote \<notin> set m"
  by (auto simp: json_plain_def list_all_iff)

lemma early_message_read:
  assumes "json_plain m" "length m < 2 ^ 58"
  shows "quoted_after (message_body m) (json_key ''message'') = Inr m"
  unfolding message_body_def json_escape_plain [OF assms(1)]
  by (rule early_cut) (use assms json_plain_no_quote in simp_all)

lemma early_post_request:
  assumes "length u = 36" "json_plain m" "complete_header (''POST /send/'' @ u @ hdr)"
    and "length (''POST /send/'' @ u @ hdr) + length (message_body m) < 2 ^ 58"
  shows "early_post ee ((''POST /send/'' @ u @ hdr) @ blank_line @ message_body m) fs
    = (Inr ok_response, save_message fs u m ''you'' (ee_date ee) (ee_time ee))"
proof -
  let ?r = "(''POST /send/'' @ u @ hdr) @ blank_line @ message_body m"
  have "path_uuid ?r ''POST /send/'' = Inr u" using path_uuid_start [of "''POST /send/''" u] assms(1) by simp
  moreover have "length m < 2 ^ 58" using assms(2,4) by (simp add: message_body_def json_escape_plain)
  moreover have "length (''POST /send/'' @ u @ hdr) + length (message_body m) < 2 ^ 60" using assms(4) by simp
  ultimately show ?thesis
    using body_of_request [OF assms(3)] early_message_read [OF assms(2)] by (simp add: early_post_def early_save)
qed

text \<open>A request that is not taken by an earlier branch.\<close>

definition reaches_post :: "string \<Rightarrow> bool" where
  "reaches_post r \<longleftrightarrow> \<not> contains r ''GET /time'' \<and> \<not> contains r ''GET /style.css'' \<and> \<not> contains r ''GET /icon.ico''
     \<and> \<not> contains r ''GET /messages/''"

lemma early_answer_post:
  "reaches_post (''POST /send/'' @ x) \<Longrightarrow> early_respond ee (''POST /send/'' @ x) fs = early_post ee (''POST /send/'' @ x) fs"
  using contains_iff [of "''POST /send/'' @ x" "''POST /send/''"] by (auto simp: early_respond_def reaches_post_def)

lemma page_first_request:
  assumes "read_file fs index = Inr h" "length r \<le> 4096"
  shows "page_run index answer [Accepted False, ReadDone 0 False r] (pages_main fs) = (case answer r fs of
     (Inl e, fs') \<Rightarrow> (Inl e, \<lparr>pg_fs = fs', pg_accepting = True, pg_conns = [\<lparr>pc_message = h, pc_reading = False, pc_sent = None\<rparr>]\<rparr>)
   | (Inr m, fs') \<Rightarrow> (Inr (), \<lparr>pg_fs = fs', pg_accepting = True, pg_conns = [\<lparr>pc_message = m, pc_reading = False, pc_sent = Some m\<rparr>]\<rparr>))"
  using assms
  by (simp add: pages_main_def page_handle_accept_def page_start_def page_handle_read_def change_conn_def
      split: prod.split sum.split)

section \<open>The invariant of the loop\<close>

text \<open>The server accepts, and a connection that still reads has not been answered.\<close>

definition pages_ok :: "pages \<Rightarrow> bool" where
  "pages_ok st \<longleftrightarrow> pg_accepting st \<and> list_all (\<lambda>c. pc_reading c \<longrightarrow> pc_sent c = None) (pg_conns st)"

definition page_moves :: "string \<Rightarrow> (string \<Rightarrow> filesys \<Rightarrow> string res \<times> filesys) \<Rightarrow> pages \<Rightarrow> pages \<Rightarrow> bool" where
  "page_moves index answer st st' \<longleftrightarrow> (\<exists>e. page_step index answer e st = (Inr (), st'))"

lemma list_all_update: "list_all P xs \<Longrightarrow> (i < length xs \<Longrightarrow> P x) \<Longrightarrow> list_all P (xs[i := x])"
  by (cases "i < length xs") (auto simp: list_all_length nth_list_update)

lemma page_step_ok: "page_step index answer e st = (Inr (), st') \<Longrightarrow> pages_ok st \<Longrightarrow> pages_ok st'"
  by (cases e)
    (auto simp: pages_ok_def page_handle_accept_def page_start_def page_handle_read_def change_conn_def bind_res_Inr_iff
      intro!: list_all_update split: if_splits sum.splits prod.splits)

interpretation pages: machine "\<lambda>st. \<exists>fs. st = pages_main fs" "page_moves index answer" pages_ok for index answer
  by unfold_locales (auto simp: pages_main_def page_moves_def intro: page_step_ok, simp add: pages_ok_def)

section \<open>A host for the examples\<close>

definition early_host :: filesys where
  "early_host = \<lparr>fs_files = [(resolve early_index, ''page'')], fs_dirs = [[''friends''], [''friends'', someone]]\<rparr>"

definition early_now :: early_env where
  "early_now = \<lparr>ee_date = ''2025-01-02'', ee_time = ''10:11:12'', ee_ctime = ''now'' @ [newline]\<rparr>"

lemma early_host_facts:
  "read_file early_host early_index = Inr ''page''" "history_ok early_host someone"
  "history_entries early_host someone = []"
proof -
  have m: "messages_file someone = [''friends'', someone, ''messages.txt'']"
    using plain_someone by (simp add: messages_file_def friend_file_plain plain_name_def is_sep_def)
  have i: "resolve early_index = [''frontend'', ''index.html'']" by code_simp
  show "read_file early_host early_index = Inr ''page''"
    by (simp add: read_file_def fs_read_def early_host_def i is_directory_def)
  show "history_ok early_host someone" "history_entries early_host someone = []"
    using m by (simp_all add: history_ok_def early_host_def can_write_def is_directory_def fs_read_def i
        whole_records_Nil history_entries_def)
qed

lemma early_header: "complete_header (''POST /send/'' @ someone @ '' HTTP/1.1'')"
  unfolding complete_header_def by code_simp

section \<open>Properties\<close>

text \<open>
  The first client stores a message. A text without quotes, backslashes and control characters, posted in one
  segment of at most 4096 bytes, is answered with \<open>ok\<close> and becomes the last entry of the friend's history.
\<close>

lemma early_message_stored:
  assumes "length u = 36" "json_plain m" "complete_header (''POST /send/'' @ u @ hdr)"
    and "r = (''POST /send/'' @ u @ hdr) @ blank_line @ message_body m" "length r \<le> 4096" "reaches_post r"
    and "read_file fs early_index = Inr h" "history_ok fs u" "one_line (ee_date ee)" "one_line (ee_time ee)"
  shows "\<exists>st. early_run ee [Accepted False, ReadDone 0 False r] (pages_main fs) = (Inr (), st)
    \<and> map pc_sent (pg_conns st) = [Some ok_response]
    \<and> history_entries (pg_fs st) u = history_entries fs u @ [entry_for u ''you'' m (ee_date ee) (ee_time ee)]"
proof -
  have len: "length (''POST /send/'' @ u @ hdr) + length (message_body m) < 2 ^ 58" using assms(4,5) by simp
  have r: "r = ''POST /send/'' @ (u @ hdr @ blank_line @ message_body m)" using assms(4) by simp
  have "early_respond ee r fs = early_post ee r fs"
    using early_answer_post assms(6) unfolding r by blast
  also have "\<dots> = (Inr ok_response, save_message fs u m ''you'' (ee_date ee) (ee_time ee))"
    unfolding assms(4) by (rule early_post_request [OF assms(1-3) len])
  finally have p: "early_respond ee r fs = (Inr ok_response, save_message fs u m ''you'' (ee_date ee) (ee_time ee))" .
  have "json_control newline" by (simp add: json_control_def)
  then have "one_line m" using assms(2) by (auto simp: one_line_def json_plain_def list_all_iff)
  then have "history_entries (save_message fs u m ''you'' (ee_date ee) (ee_time ee)) u
      = history_entries fs u @ [entry_for u ''you'' m (ee_date ee) (ee_time ee)]"
    using save_message_refines [OF assms(8) _ _ assms(9,10), of "''you''" m] by simp
  moreover have "early_run ee [Accepted False, ReadDone 0 False r] (pages_main fs)
      = (Inr (), \<lparr>pg_fs = save_message fs u m ''you'' (ee_date ee) (ee_time ee), pg_accepting = True,
          pg_conns = [\<lparr>pc_message = ok_response, pc_reading = False, pc_sent = Some ok_response\<rparr>]\<rparr>)"
    unfolding page_first_request [OF assms(7,5)] p by simp
  ultimately show ?thesis by auto
qed

lemma early_message_stored_witness:
  "\<exists>st. early_run early_now [Accepted False, ReadDone 0 False
      ((''POST /send/'' @ someone @ '' HTTP/1.1'') @ blank_line @ message_body ''hello'')] (pages_main early_host) = (Inr (), st)
    \<and> map pc_sent (pg_conns st) = [Some ok_response]
    \<and> history_entries (pg_fs st) someone = [entry_for someone ''you'' ''hello'' ''2025-01-02'' ''10:11:12'']"
proof -
  let ?r = "(''POST /send/'' @ someone @ '' HTTP/1.1'') @ blank_line @ message_body ''hello''"
  have m: "json_plain ''hello''" by (simp add: json_plain_def json_control_def)
  have r: "reaches_post ?r" unfolding reaches_post_def message_body_def by code_simp
  have l: "length ?r \<le> 4096" by (simp add: message_body_def json_key_def json_escape_char_def)
  have d: "ee_date early_now = ''2025-01-02''" "ee_time early_now = ''10:11:12''" by (simp_all add: early_now_def)
  have o: "one_line (ee_date early_now)" "one_line (ee_time early_now)" by (simp_all add: d one_line_def)
  from early_message_stored [OF _ m early_header refl l r early_host_facts(1,2) o]
  show ?thesis unfolding d early_host_facts(3) append_Nil by simp
qed

text \<open>
  A body in a second segment ends the first client. It reads once, up to 4096 bytes, and looks for the message
  in what has come: when the header of a \<open>POST /send\<close> comes alone, \<open>find\<close> returns \<open>npos\<close>, the offset wraps to
  10, beyond the empty body, and the exception leaves \<open>main\<close>.
\<close>

lemma early_split_post_ends:
  assumes "length u = 36" "complete_header (''POST /send/'' @ u @ hdr)" "r = (''POST /send/'' @ u @ hdr) @ blank_line"
    and "length r \<le> 4096" "reaches_post r" "read_file fs early_index = Inr h"
  shows "fst (early_run ee [Accepted False, ReadDone 0 False r] (pages_main fs)) = Inl (Throw OutOfRange)"
proof -
  have b: "body_of r = Inr []" using body_of_request [OF assms(2), of "[]"] assms(3,4) by simp
  have u: "path_uuid r ''POST /send/'' = Inr u" using path_uuid_start [of "''POST /send/''" u] assms(1,3) by simp
  have "find_list (json_key ''message'') [] = None" by (simp add: json_key_def)
  then have "behind [] (json_key ''message'') = 10"
    by (simp add: behind_def str_find_def add_pos_def npos_def) (simp add: json_key_def)
  then have "quoted_after [] (json_key ''message'') = Inl (Throw OutOfRange)" by (simp add: quoted_after_def substr_def)
  then have "early_post ee r fs = (Inl (Throw OutOfRange), fs)" using b u by (simp add: early_post_def)
  moreover have r: "r = ''POST /send/'' @ (u @ hdr @ blank_line)" using assms(3) by simp
  have "early_respond ee r fs = early_post ee r fs" using early_answer_post assms(5) unfolding r by blast
  ultimately have p: "early_respond ee r fs = (Inl (Throw OutOfRange), fs)" by simp
  show ?thesis unfolding page_first_request [OF assms(6,4)] p by simp
qed

lemma early_split_post_ends_witness:
  "fst (early_run early_now [Accepted False, ReadDone 0 False
      ((''POST /send/'' @ someone @ '' HTTP/1.1'') @ blank_line)] (pages_main early_host)) = Inl (Throw OutOfRange)"
proof -
  have r: "reaches_post ((''POST /send/'' @ someone @ '' HTTP/1.1'') @ blank_line)" unfolding reaches_post_def by code_simp
  show ?thesis
    by (rule early_split_post_ends [OF _ early_header refl _ r early_host_facts(1)]) simp_all
qed

text \<open>
  Without the index page both servers end at the first connection, whatever it was going to ask for.
\<close>

lemma missing_index_ends:
  "read_file fs index = Inl e \<Longrightarrow> fst (page_run index answer (Accepted False # es) (pages_main fs)) = Inl e"
  by (simp add: pages_main_def page_handle_accept_def page_start_def)

text \<open>
  The histories agree. As long as no stored text holds a quote, a backslash or a control character, the document of
  the first client is that of the final one; but it is sent as it is, without the status line and the header
  that make it an answer of HTTP.
\<close>

lemma early_history_agrees:
  assumes "list_all (json_plain \<circ> en_message) (history_entries fs u)"
  shows "early_make_json_messages fs u = make_json_messages fs u
    \<and> \<not> starts_with ''HTTP/'' (early_make_json_messages fs u)"
proof
  have "map early_json_entry (history_entries fs u) = map json_entry (history_entries fs u)"
    using assms by (auto simp: list_all_iff early_json_plain)
  then show "early_make_json_messages fs u = make_json_messages fs u"
    unfolding early_history_alt make_json_messages_def by (simp only:)
  show "\<not> starts_with ''HTTP/'' (early_make_json_messages fs u)" by (simp add: early_history_alt starts_with_def)
qed

lemma early_history_agrees_witness:
  "early_make_json_messages (save_message early_host someone ''hello'' ''you'' ''2025-01-02'' ''10:11:12'') someone
    = make_json_messages (save_message early_host someone ''hello'' ''you'' ''2025-01-02'' ''10:11:12'') someone"
proof -
  have "history_entries (save_message early_host someone ''hello'' ''you'' ''2025-01-02'' ''10:11:12'') someone
      = [entry_for someone ''you'' ''hello'' ''2025-01-02'' ''10:11:12'']"
    using save_message_refines [OF early_host_facts(2), of "''you''" "''hello''"] early_host_facts(3)
    by (simp add: one_line_def)
  then have "list_all (json_plain \<circ> en_message)
      (history_entries (save_message early_host someone ''hello'' ''you'' ''2025-01-02'' ''10:11:12'') someone)"
    by (simp add: entry_for_def json_plain_def json_control_def)
  from early_history_agrees [OF this] show ?thesis by blast
qed

text \<open>
  A quote breaks the document. The browser escapes a quote in a text; the first client cuts the text there, stores it
  with the backslash at its end and writes that into the document unescaped, where it escapes the closing
  quote of the text: the entry cannot be read.
\<close>

lemma early_quote_breaks:
  assumes "json_plain m" "length m + length m' < 2 ^ 57" "json_plain sender" "json_plain d"
  shows "quoted_after (message_body (m @ [quote] @ m')) (json_key ''message'') = Inr (m @ [backslash])
    \<and> read_json_entry (early_json_entry \<lparr>en_sender = sender, en_message = m @ [backslash], en_date = d, en_time = t\<rparr>) = None"
proof
  have b: "message_body (m @ [quote] @ m') = ''{'' @ json_key ''message'' @ (m @ [backslash]) @ [quote]
      @ (json_escape m' @ [quote] @ ''}'')"
    using json_escape_plain [OF assms(1)] by (simp add: message_body_def json_escape_append json_escape_char_def)
  have "length (json_escape m') \<le> 2 * length m'" by (induction m') (auto simp: json_escape_char_def)
  then show "quoted_after (message_body (m @ [quote] @ m')) (json_key ''message'') = Inr (m @ [backslash])"
    unfolding b by (intro early_cut) (use assms(1,2) json_plain_no_quote in simp_all)
  have e: "early_json_entry \<lparr>en_sender = sender, en_message = m @ [backslash], en_date = d, en_time = t\<rparr>
    = (''{'' @ json_field ''sender'') @ sender @ quote # ('','' @ json_field ''message'')
      @ m @ backslash # quote # CHR '','' # quote # (''date'' @ [quote] @ '':'' @ [quote] @ d @ [quote] @ '',''
        @ [quote] @ ''time'' @ [quote] @ '':'' @ [quote] @ t @ [quote] @ ''}'')"
    by (simp add: early_json_entry_def json_field_def)
  have j: "json_string (m @ backslash # quote # CHR '','' # quote # z) = Some (m @ quote # '','', z)" for z
    using json_string_prefix [OF assms(1)] by (cases z) (simp_all add: json_unescape_char_def json_control_def)
  show "read_json_entry (early_json_entry \<lparr>en_sender = sender, en_message = m @ [backslash], en_date = d, en_time = t\<rparr>) = None"
    unfolding e read_json_entry_def
    by (simp only: expect_append json_string_plain [OF assms(3)] j Option.bind.simps prod.case)
      (simp add: expect_def starts_with_def)
qed

lemma early_quote_breaks_witness:
  "quoted_after (message_body (''say '' @ [quote] @ ''hi'')) (json_key ''message'') = Inr (''say '' @ [backslash])
    \<and> read_json_entry (early_json_entry \<lparr>en_sender = ''you'', en_message = ''say '' @ [backslash],
        en_date = ''2025-01-02'', en_time = ''10:11:12''\<rparr>) = None"
  by (rule early_quote_breaks) (simp_all add: json_plain_def json_control_def)

text \<open>
  Entities. On ASCII text the first \<open>htmlentities\<close> is the escaping of the final client. Every other byte becomes an entity
  of its own, so that the result is always ASCII; of a character of two bytes it makes two characters.
\<close>

lemma htmlentities_ascii:
  "list_all (\<lambda>c. (of_char c :: nat) \<le> 127) (htmlentities s)
   \<and> (list_all (\<lambda>c. (of_char c :: nat) \<le> 127) s \<longrightarrow> htmlentities s = html_escape s)"
proof (intro conjI impI)
  show "list_all (\<lambda>c. (of_char c :: nat) \<le> 127) (htmlentities s)"
    by (induction s) (simp_all add: htmlentities_def early_entity_clean)
  show "htmlentities s = html_escape s" if "list_all (\<lambda>c. (of_char c :: nat) \<le> 127) s"
    using that by (induction s) (simp_all add: htmlentities_def html_escape_def early_entity_ascii)
qed

lemma htmlentities_ascii_witness:
  "htmlentities ''a<b'' = html_escape ''a<b''
   \<and> htmlentities [char_of_byte 0xC3, char_of_byte 0xB3] = ''&#195;&#179;''"
proof
  show "htmlentities ''a<b'' = html_escape ''a<b''" using htmlentities_ascii [of "''a<b''"] by simp
  show "htmlentities [char_of_byte 0xC3, char_of_byte 0xB3] = ''&#195;&#179;''" by code_simp
qed

end
