(* ===== verification/DemoServer.thy ===== *)
theory DemoServer
  imports EarlyPages
begin

text \<open>
  The page demonstration \<open>development/Luka/test_asio/http_server/main.cpp\<close>: its own \<open>readwebsite\<close>, connection, acceptor
  and \<open>main\<close>. It writes no file, so unlike the first client, which grew out of it, no request can end it once it
  has an index page.
\<close>

section \<open>The program\<close>

definition demo_readwebsite :: "filesys \<Rightarrow> string res" where
  "demo_readwebsite fs = read_file fs ''./index.html''"

definition demo_start :: "filesys \<Rightarrow> page_conn res" where
  "demo_start fs = bind_res (demo_readwebsite fs) (\<lambda>m.
     Inr \<lparr>pc_message = m, pc_reading = True, pc_sent = None\<rparr>)"

definition demo_handle_read :: "early_env \<Rightarrow> bool \<Rightarrow> string \<Rightarrow> filesys \<Rightarrow> page_conn \<Rightarrow> page_conn res" where
  "demo_handle_read ee error request fs c =
     (if error then Inr c
      else bind_res (if contains request ''GET /time'' then Inr (early_time ee)
          else bind_res (demo_readwebsite fs) (\<lambda>m. Inr (make_http_response m ''text/html'')))
        (\<lambda>m. Inr (c\<lparr>pc_message := m, pc_sent := Some m\<rparr>)))"

definition demo_start_accept :: "pages \<Rightarrow> pages" where
  "demo_start_accept st = st\<lparr>pg_accepting := True\<rparr>"

definition demo_handle_accept :: "bool \<Rightarrow> pages \<Rightarrow> unit res \<times> pages" where
  "demo_handle_accept error st =
     (if error then (Inr (), demo_start_accept st)
      else case demo_start (pg_fs st) of
        Inl e \<Rightarrow> (Inl e, st)
      | Inr c \<Rightarrow> (Inr (), demo_start_accept (st\<lparr>pg_conns := pg_conns st @ [c]\<rparr>)))"

fun demo_step :: "early_env \<Rightarrow> page_event \<Rightarrow> pages \<Rightarrow> unit res \<times> pages" where
  "demo_step ee (Accepted error) st =
     (if pg_accepting st then demo_handle_accept error (st\<lparr>pg_accepting := False\<rparr>) else (Inr (), st))"
| "demo_step ee (ReadDone i error bytes) st =
     (if i < length (pg_conns st) \<and> pc_reading (pg_conns st ! i) then
        case demo_handle_read ee error (take 4096 bytes) (pg_fs st) ((pg_conns st ! i)\<lparr>pc_reading := False\<rparr>) of
          Inl e \<Rightarrow> (Inl e, st\<lparr>pg_conns := (pg_conns st)[i := (pg_conns st ! i)\<lparr>pc_reading := False\<rparr>]\<rparr>)
        | Inr c \<Rightarrow> (Inr (), st\<lparr>pg_conns := (pg_conns st)[i := c]\<rparr>)
      else (Inr (), st))"

fun demo_loop :: "early_env \<Rightarrow> page_event list \<Rightarrow> pages \<Rightarrow> unit res \<times> pages" where
  "demo_loop ee [] st = (Inr (), st)"
| "demo_loop ee (e # es) st = (case demo_step ee e st of
     (Inl x, st') \<Rightarrow> (Inl x, st') | (Inr _, st') \<Rightarrow> demo_loop ee es st')"

datatype demo_end = Serving pages | Returned int | Undefined

text \<open>An exception of a handler, and of the acceptor when the port is taken, is printed, and \<open>main\<close> returns 0.\<close>

definition demo_main :: "early_env \<Rightarrow> bool \<Rightarrow> page_event list \<Rightarrow> filesys \<Rightarrow> demo_end" where
  "demo_main ee port_free es fs =
     (if \<not> port_free then Returned 0
      else case demo_loop ee es (demo_start_accept \<lparr>pg_fs = fs, pg_accepting = False, pg_conns = []\<rparr>) of
        (Inl (Throw e), st) \<Rightarrow> Returned 0
      | (Inl (UB e), st) \<Rightarrow> Undefined
      | (Inr _, st) \<Rightarrow> Serving st)"

section \<open>The loop is that of the first client\<close>

lemma demo_page:
  "demo_start = page_start demo_index" "demo_handle_accept = page_handle_accept demo_index"
  by (auto simp: fun_eq_iff demo_start_def demo_readwebsite_def page_start_def demo_handle_accept_def
      page_handle_accept_def demo_start_accept_def split: sum.split)

lemma demo_step_page: "demo_step ee e st = page_step demo_index (demo_respond ee) e st"
  by (cases e)
    (auto simp: demo_page demo_handle_read_def page_handle_read_def demo_respond_def serve_file_def demo_readwebsite_def
      change_conn_def split: sum.split)

lemma demo_loop_page: "demo_loop ee es st = demo_run ee es st"
  by (induction es arbitrary: st) (simp_all add: demo_step_page split: prod.split sum.split)

section \<open>What it sends, and when it ends\<close>

definition demo_answers :: "early_env \<Rightarrow> string \<Rightarrow> page_conn \<Rightarrow> bool" where
  "demo_answers ee h c \<longleftrightarrow> (case pc_sent c of None \<Rightarrow> True
     | Some m \<Rightarrow> m = early_time ee \<or> m = make_http_response h ''text/html'')"

lemma demo_step_serves:
  assumes "demo_readwebsite (pg_fs st) = Inr h" "list_all (demo_answers ee h) (pg_conns st)" "pg_accepting st"
  shows "\<exists>st'. demo_step ee e st = (Inr (), st') \<and> pg_fs st' = pg_fs st \<and> pg_accepting st'
    \<and> list_all (demo_answers ee h) (pg_conns st')"
proof (cases e)
  case (Accepted error)
  then show ?thesis
    using assms by (auto simp: demo_handle_accept_def demo_start_def demo_start_accept_def demo_answers_def)
next
  case (ReadDone i error bytes)
  have "i < length (pg_conns st) \<Longrightarrow> demo_answers ee h (pg_conns st ! i)" using assms(2) by (simp add: list_all_length)
  then show ?thesis
    using ReadDone assms
    by (auto simp: demo_handle_read_def demo_answers_def intro!: list_all_update)
qed

text \<open>With an index page it serves for ever, and sends nothing but that page and the time; without one it returns at the first connection.\<close>

lemma demo_serves:
  assumes "demo_readwebsite fs = Inr h"
  shows "\<exists>st. demo_main ee True es fs = Serving st \<and> pg_fs st = fs \<and> pg_accepting st
    \<and> list_all (demo_answers ee h) (pg_conns st)"
proof -
  have "\<exists>st'. demo_loop ee es st = (Inr (), st') \<and> pg_fs st' = fs \<and> pg_accepting st'
      \<and> list_all (demo_answers ee h) (pg_conns st')"
    if "pg_fs st = fs" "list_all (demo_answers ee h) (pg_conns st)" "pg_accepting st" for st
    using that
  proof (induction es arbitrary: st)
    case (Cons e es)
    obtain st' where "demo_step ee e st = (Inr (), st')" "pg_fs st' = fs" "pg_accepting st'"
        "list_all (demo_answers ee h) (pg_conns st')"
      using demo_step_serves [of st h ee e] Cons.prems assms by auto
    then show ?case using Cons.IH [of st'] by simp
  qed simp
  from this [of "demo_start_accept \<lparr>pg_fs = fs, pg_accepting = False, pg_conns = []\<rparr>"]
  show ?thesis by (auto simp: demo_main_def demo_start_accept_def)
qed

lemma demo_without_index:
  assumes "demo_readwebsite fs = Inl (Throw x)"
  shows "demo_main ee True (Accepted False # es) fs = Returned 0"
  using assms by (simp add: demo_main_def demo_start_accept_def demo_handle_accept_def demo_start_def)

end
