(* ===== verification/Exercises.thy ===== *)
theory Exercises
  imports CppNumber Machine
begin

text \<open>
  The exercises of \<open>development\<close> with timers and daytime servers: two chains of timer handlers that share one
  timer (\<open>t3\<close>), a counting object (\<open>t4\<close>), a counter without end (\<open>t5\<close>), the asynchronous and the synchronous
  daytime server and their client. None of the handlers looks at the error its completion reports, so a
  wait that is cancelled by \<open>expires_at\<close> completes early but does the same; what the model leaves open is
  the order of completions.
\<close>

lemma small_numbers:
  "show_nat 10 = ''10''" "show_nat 5 = ''5''" "map show_nat [0..<5] = [''0'', ''1'', ''2'', ''3'', ''4'']"
  by code_simp+

section \<open>Machines that count down\<close>

text \<open>Every step uses up one unit, and while there is one there is a step.\<close>

locale countdown = machine init step good for init step and good :: "'s \<Rightarrow> bool" +
  fixes left :: "'s \<Rightarrow> nat"
  assumes step_left: "step s t \<Longrightarrow> good s \<Longrightarrow> left s = Suc (left t)"
    and left_step: "good s \<Longrightarrow> left s \<noteq> 0 \<Longrightarrow> \<exists>t. step s t"
begin

lemma run_left: "(step ^^ n) s t \<Longrightarrow> good s \<Longrightarrow> good t \<and> left s = n + left t"
proof (induction n arbitrary: t)
  case (Suc n)
  then obtain u where "(step ^^ n) s u" "step u t" by auto
  then show ?case using Suc.IH Suc.prems(2) step_good step_left by fastforce
qed simp

lemma run_ends: "good s \<Longrightarrow> \<exists>t. (step ^^ left s) s t \<and> left t = 0"
proof (induction "left s" arbitrary: s)
  case (Suc n)
  then obtain u where u: "step s u" using left_step by (metis nat.distinct(1))
  then have "n = left u" "good u" using Suc.hyps(2) Suc.prems step_left step_good by fastforce+
  then obtain t where "(step ^^ n) u t" "left t = 0" using Suc.hyps(1) by blast
  then show ?case using u Suc.hyps(2) by (intro exI [of _ t]) (metis relpowp_Suc_I2)
qed (intro exI conjI, auto)

end

section \<open>Two chains on one timer\<close>

datatype waiting = T_print | Woof

record meow_state =
  mw_count :: int
  mw_woofs :: int
  mw_expiry :: int                   \<comment> \<open>of \<open>t\<close>, in milliseconds after the start\<close>
  mw_expiry2 :: int                  \<comment> \<open>of \<open>t2\<close>\<close>
  mw_pending :: "waiting list"
  mw_out :: "string list"

definition t_print :: "meow_state \<Rightarrow> meow_state" where
  "t_print st =
     (if mw_count st < 10 then
        st\<lparr>mw_out := mw_out st @ [''meow '' @ show_int (mw_count st)], mw_count := mw_count st + 1,
           mw_expiry := mw_expiry st + 250, mw_pending := mw_pending st @ [T_print]\<rparr>
      else st)"

definition woof :: "meow_state \<Rightarrow> meow_state" where
  "woof st =
     (if mw_woofs st < 2 then
        st\<lparr>mw_out := mw_out st @ [''woof woof''], mw_woofs := mw_woofs st + 1,
           mw_expiry2 := mw_expiry2 st + 2000, mw_pending := mw_pending st @ [Woof]\<rparr>
      else st)"

fun run_waiting :: "waiting \<Rightarrow> meow_state \<Rightarrow> meow_state" where
  "run_waiting T_print st = t_print st"
| "run_waiting Woof st = woof st"

text \<open>\<open>main\<close> up to \<open>io.run()\<close> (both chains wait for \<open>t\<close>), and what it prints at the end.\<close>

definition meow_main :: meow_state where
  "meow_main = \<lparr>mw_count = 0, mw_woofs = 0, mw_expiry = 200, mw_expiry2 = 200, mw_pending = [T_print, Woof], mw_out = []\<rparr>"

definition meow_total :: "meow_state \<Rightarrow> string" where
  "meow_total st = show_int (mw_count st) @ '' meows in total !! >:3''"

text \<open>Any handler that waits may be the next to run.\<close>

inductive meow_step :: "meow_state \<Rightarrow> meow_state \<Rightarrow> bool" where
  "mw_pending st = xs @ h # ys \<Longrightarrow> meow_step st (run_waiting h (st\<lparr>mw_pending := xs @ ys\<rparr>))"

inductive_cases meow_stepE: "meow_step st st'"

definition meows :: "string list \<Rightarrow> string list" where
  "meows = filter (\<lambda>l. l \<noteq> ''woof woof'')"

definition meow_ok :: "meow_state \<Rightarrow> bool" where
  "meow_ok st \<longleftrightarrow> 0 \<le> mw_count st \<and> mw_count st \<le> 10 \<and> 0 \<le> mw_woofs st \<and> mw_woofs st \<le> 2
     \<and> (mw_count st < 10 \<longrightarrow> T_print \<in> set (mw_pending st)) \<and> (mw_woofs st < 2 \<longrightarrow> Woof \<in> set (mw_pending st))
     \<and> meows (mw_out st) = map (\<lambda>i. ''meow '' @ show_nat i) [0..<nat (mw_count st)]
     \<and> length (mw_out st) = nat (mw_count st) + nat (mw_woofs st)
     \<and> mw_expiry st = 200 + 250 * mw_count st \<and> mw_expiry2 st = 200 + 2000 * mw_woofs st"

definition meow_left :: "meow_state \<Rightarrow> nat" where
  "meow_left st = nat (10 - mw_count st) + nat (2 - mw_woofs st) + length (mw_pending st)"

lemma meow_step_ok:
  assumes "meow_step st st'" "meow_ok st"
  shows "meow_ok st' \<and> meow_left st = Suc (meow_left st')"
  using assms(1)
proof (rule meow_stepE)
  fix xs h ys assume st: "st' = run_waiting h (st\<lparr>mw_pending := xs @ ys\<rparr>)" "mw_pending st = xs @ h # ys"
  have up: "nat (i + 1) = Suc (nat i)" if "0 \<le> i" for i using that by simp
  have lines: "''meow '' @ x \<noteq> ''woof woof''" for x by simp
  show ?thesis
  proof (cases h)
    case T_print
    then show ?thesis
      using st assms(2) up [of "mw_count st"]
      by (cases "mw_count st < 10") (auto simp: meow_ok_def meow_left_def t_print_def meows_def show_int_def lines)
  next
    case Woof
    then show ?thesis
      using st assms(2) up [of "mw_woofs st"]
      by (cases "mw_woofs st < 2") (auto simp: meow_ok_def meow_left_def woof_def meows_def)
  qed
qed

interpretation meow: countdown "\<lambda>st. st = meow_main" meow_step meow_ok meow_left
proof unfold_locales
  fix st :: meow_state
  show "st = meow_main \<Longrightarrow> meow_ok st" by (simp add: meow_main_def meow_ok_def meows_def)
  show "\<exists>st'. meow_step st st'" if "meow_ok st" "meow_left st \<noteq> 0"
  proof -
    have "mw_pending st \<noteq> []" using that by (auto simp: meow_ok_def meow_left_def)
    then obtain h ys where "mw_pending st = [] @ h # ys" by (cases "mw_pending st") auto
    then show ?thesis using meow_step.intros by blast
  qed
qed (use meow_step_ok in blast)+

text \<open>
  C39: every run of the shared timers ends, and ends alike. In whatever order the two chains are woken, after
  exactly 14 completions nothing waits any more, neither before nor later; then the ten meows are printed, numbered in
  order, two woofs somewhere among them, and the total is ten.
\<close>

theorem meows_in_total:
  assumes "(meow_step ^^ n) meow_main st"
  shows "n \<le> 14 \<and> (mw_pending st = [] \<longleftrightarrow> n = 14)
    \<and> (n < 14 \<longrightarrow> (\<exists>st'. meow_step st st'))
    \<and> (n = 14 \<longrightarrow> meows (mw_out st) = map (\<lambda>i. ''meow '' @ show_nat i) [0..<10]
        \<and> length (mw_out st) = 12 \<and> meow_total st = ''10 meows in total !! >:3'' \<and> mw_expiry st = 2700)"
proof -
  have "meow_ok meow_main" by (rule meow.init_good) simp
  moreover have "meow_left meow_main = 14" by (simp add: meow_left_def meow_main_def)
  ultimately have st: "meow_ok st" "14 = n + meow_left st" using meow.run_left [OF assms] by simp_all
  have e: "mw_pending st = [] \<longleftrightarrow> meow_left st = 0" using st(1) by (auto simp: meow_ok_def meow_left_def)
  have "mw_count st = 10 \<and> mw_woofs st = 2" if "meow_left st = 0" using st(1) that by (auto simp: meow_ok_def meow_left_def)
  then show ?thesis
    using st e meow.left_step [OF st(1)]
    by (auto simp: meow_ok_def meow_total_def show_int_def small_numbers)
qed

theorem meows_in_total_witness:
  "\<exists>st. (meow_step ^^ 14) meow_main st \<and> meow_total st = ''10 meows in total !! >:3'' \<and> mw_pending st = []"
proof -
  have "meow_left meow_main = 14" by (simp add: meow_left_def meow_main_def)
  then obtain st where st: "(meow_step ^^ 14) meow_main st" using meow.run_ends [OF meow.init_good [OF refl]] by metis
  then show ?thesis using meows_in_total [OF st] by blast
qed

section \<open>One chain in an object\<close>

record printer =
  pn_count :: int
  pn_expiry :: int                   \<comment> \<open>seconds\<close>
  pn_waiting :: bool
  pn_out :: "string list"

definition new_printer :: printer where
  "new_printer = \<lparr>pn_count = 0, pn_expiry = 1, pn_waiting = True, pn_out = []\<rparr>"

definition printer_print :: "printer \<Rightarrow> printer" where
  "printer_print p =
     (if pn_count p < 5 then
        p\<lparr>pn_out := pn_out p @ [show_int (pn_count p)], pn_count := pn_count p + 1, pn_expiry := pn_expiry p + 1,
          pn_waiting := True\<rparr>
      else p)"

definition printer_destroyed :: "printer \<Rightarrow> string list" where
  "printer_destroyed p = pn_out p @ [''final count is: '' @ show_int (pn_count p)]"

inductive printer_step :: "printer \<Rightarrow> printer \<Rightarrow> bool" where
  "pn_waiting p \<Longrightarrow> printer_step p (printer_print (p\<lparr>pn_waiting := False\<rparr>))"

definition printer_ok :: "printer \<Rightarrow> bool" where
  "printer_ok p \<longleftrightarrow> 0 \<le> pn_count p \<and> pn_count p \<le> 5 \<and> (pn_count p < 5 \<longrightarrow> pn_waiting p)
     \<and> pn_out p = map show_nat [0..<nat (pn_count p)]"

definition printer_left :: "printer \<Rightarrow> nat" where
  "printer_left p = nat (5 - pn_count p) + (if pn_waiting p then 1 else 0)"

interpretation printer: countdown "\<lambda>p. p = new_printer" printer_step printer_ok printer_left
proof unfold_locales
  fix p q :: printer
  have up: "nat (i + 1) = Suc (nat i)" if "0 \<le> i" for i using that by simp
  show "p = new_printer \<Longrightarrow> printer_ok p" by (simp add: new_printer_def printer_ok_def)
  assume ok: "printer_ok p"
  show "printer_ok q" "printer_left p = Suc (printer_left q)" if "printer_step p q"
    using that ok up [of "pn_count p"]
    by (cases "pn_count p < 5"; auto simp: printer_step.simps printer_ok_def printer_left_def printer_print_def show_int_def)+
  show "printer_left p \<noteq> 0 \<Longrightarrow> \<exists>q. printer_step p q"
    using ok printer_step.intros by (force simp: printer_left_def printer_ok_def split: if_splits)
qed

text \<open>The object counts to five in six firings and says so when it is destroyed.\<close>

lemma printer_total:
  assumes "(printer_step ^^ n) new_printer p"
  shows "n \<le> 6 \<and> (\<not> pn_waiting p \<longleftrightarrow> n = 6)
    \<and> (n = 6 \<longrightarrow> printer_destroyed p = [''0'', ''1'', ''2'', ''3'', ''4'', ''final count is: 5''])"
proof -
  have "printer_ok new_printer" by (rule printer.init_good) simp
  moreover have "printer_left new_printer = 6" by (simp add: printer_left_def new_printer_def)
  ultimately have p: "printer_ok p" "6 = n + printer_left p" using printer.run_left [OF assms] by simp_all
  have "pn_count p = 5" if "printer_left p = 0" using p(1) that by (auto simp: printer_ok_def printer_left_def)
  then show ?thesis
    using p by (auto simp: printer_ok_def printer_left_def printer_destroyed_def show_int_def small_numbers
        split: if_splits)
qed

section \<open>A counter without end\<close>

text \<open>The global \<open>count\<close> is an \<open>int\<close>: incrementing its largest value is undefined.\<close>

record ticker =
  tk_count :: int
  tk_expiry :: int
  tk_waiting :: bool
  tk_out :: "string list"

definition ticker_main :: ticker where
  "ticker_main = \<lparr>tk_count = 0, tk_expiry = 1, tk_waiting = True, tk_out = []\<rparr>"

definition ticker_print :: "ticker \<Rightarrow> ticker res" where
  "ticker_print t =
     (if tk_count t = int_max then Inl (UB ''signed overflow'')
      else Inr (t\<lparr>tk_count := tk_count t + 1, tk_expiry := tk_expiry t + 61, tk_waiting := True,
        tk_out := tk_out t @ [''n: '' @ show_int (tk_count t + 1)]\<rparr>))"

fun ticks :: "nat \<Rightarrow> ticker \<Rightarrow> ticker res" where
  "ticks 0 t = Inr t"
| "ticks (Suc n) t = bind_res (ticker_print (t\<lparr>tk_waiting := False\<rparr>)) (ticks n)"

text \<open>It waits again after every firing, for as long as the count fits, and not longer.\<close>

lemma ticks_from:
  assumes "0 \<le> tk_count t" "tk_count t \<le> int_max" "tk_waiting t"
  shows "ticks n t = (if tk_count t + int n \<le> int_max
    then Inr (t\<lparr>tk_count := tk_count t + int n, tk_expiry := tk_expiry t + 61 * int n,
        tk_out := tk_out t @ map (\<lambda>i. ''n: '' @ show_int (tk_count t + 1 + int i)) [0..<n]\<rparr>)
    else Inl (UB ''signed overflow''))"
  using assms
proof (induction n arbitrary: t)
  case (Suc n)
  show ?case
  proof (cases "tk_count t = int_max")
    case False
    let ?t = "t\<lparr>tk_count := tk_count t + 1, tk_expiry := tk_expiry t + 61, tk_waiting := True,
        tk_out := tk_out t @ [''n: '' @ show_int (tk_count t + 1)]\<rparr>"
    have "ticks (Suc n) t = ticks n ?t" using False by (simp add: ticker_print_def)
    moreover have "map (\<lambda>i. ''n: '' @ show_int (tk_count t + 1 + int i)) [0..<Suc n]
        = (''n: '' @ show_int (tk_count t + 1)) # map (\<lambda>i. ''n: '' @ show_int (tk_count ?t + 1 + int i)) [0..<n]"
      by (simp add: upt_rec [of 0 "Suc n"] map_Suc_upt [symmetric] algebra_simps del: upt_Suc)
    ultimately show ?thesis using Suc.IH [of ?t] Suc.prems False by (simp add: algebra_simps del: upt_Suc)
  qed (simp add: ticker_print_def)
qed simp

lemma ticker_runs:
  "ticks n ticker_main = (if int n \<le> int_max
    then Inr \<lparr>tk_count = int n, tk_expiry = 1 + 61 * int n, tk_waiting = True,
        tk_out = map (\<lambda>i. ''n: '' @ show_int (1 + int i)) [0..<n]\<rparr>
    else Inl (UB ''signed overflow''))"
  using ticks_from [of ticker_main n] by (simp add: ticker_main_def int_max_def)

section \<open>The asynchronous daytime server\<close>

record daytime =
  dt_accepting :: bool
  dt_conns :: "string list"          \<comment> \<open>\<open>message_\<close> of each connection, handed to \<open>async_write\<close>\<close>

definition daytime_accept :: "daytime \<Rightarrow> daytime" where
  "daytime_accept st = st\<lparr>dt_accepting := True\<rparr>"

definition daytime_start :: "string \<Rightarrow> daytime \<Rightarrow> daytime" where
  "daytime_start now st = st\<lparr>dt_conns := dt_conns st @ [now]\<rparr>"

text \<open>An accept ends, with an error or at the time \<open>now\<close>.\<close>

definition daytime_handle_accept :: "string option \<Rightarrow> daytime \<Rightarrow> daytime" where
  "daytime_handle_accept accepted st =
     daytime_accept (case accepted of None \<Rightarrow> st | Some now \<Rightarrow> daytime_start now st)"

fun daytime_run :: "string option list \<Rightarrow> daytime \<Rightarrow> daytime" where
  "daytime_run [] st = st"
| "daytime_run (e # es) st =
     daytime_run es (if dt_accepting st then daytime_handle_accept e (st\<lparr>dt_accepting := False\<rparr>) else st)"

text \<open>The acceptor throws when the port is taken; \<open>main\<close> catches that and returns.\<close>

definition daytime_main :: "bool \<Rightarrow> string option list \<Rightarrow> daytime option" where
  "daytime_main port_free es =
     (if port_free then Some (daytime_run es (daytime_accept \<lparr>dt_accepting = False, dt_conns = []\<rparr>)) else None)"

section \<open>The synchronous one\<close>

text \<open>The texts written, and whether the loop has been left by an exception. An error of \<open>write\<close> is ignored.\<close>

fun sync_loop :: "string option list \<Rightarrow> string list \<times> bool" where
  "sync_loop [] = ([], False)"
| "sync_loop (None # es) = ([], True)"
| "sync_loop (Some now # es) = (case sync_loop es of (sent, ended) \<Rightarrow> (now # sent, ended))"

definition sync_main :: "bool \<Rightarrow> string option list \<Rightarrow> string list \<times> bool" where
  "sync_main port_free es = (if port_free then sync_loop es else ([], True))"

section \<open>The client\<close>

datatype read_result = Received string | End_of_file | Read_error

datatype client_end = Still_reading | Finished | Failed

fun client_loop :: "read_result list \<Rightarrow> string \<times> client_end" where
  "client_loop [] = ([], Still_reading)"
| "client_loop (Received buf # rs) = (case client_loop rs of (out, e) \<Rightarrow> (take 128 buf @ out, e))"
| "client_loop (End_of_file # rs) = ([], Finished)"
| "client_loop (Read_error # rs) = ([], Failed)"

text \<open>What is printed, how it ended, and the value of \<open>main\<close>; \<open>reach\<close>: resolving and connecting succeed.\<close>

definition client_main :: "string list \<Rightarrow> bool \<Rightarrow> read_result list \<Rightarrow> string \<times> client_end \<times> int" where
  "client_main argv reach rs =
     (if length argv \<noteq> 2 then ([], Failed, 1)
      else if \<not> reach then ([], Failed, 0)
      else (case client_loop rs of (out, e) \<Rightarrow> (out, e, 0)))"

section \<open>What the daytime programs do\<close>

lemma daytime_run_serves:
  "dt_accepting st \<Longrightarrow> daytime_run es st = st\<lparr>dt_conns := dt_conns st @ List.map_filter id es\<rparr>"
proof (induction es arbitrary: st)
  case (Cons e es)
  then show ?case
    by (cases e) (simp_all add: daytime_handle_accept_def daytime_accept_def daytime_start_def List.map_filter_simps)
qed (simp add: List.map_filter_simps)

text \<open>The asynchronous server outlives failed accepts, the synchronous one does not.\<close>

lemma daytime_serves:
  "\<exists>st. daytime_main True es = Some st \<and> dt_accepting st \<and> dt_conns st = List.map_filter id es"
  by (simp add: daytime_main_def daytime_accept_def daytime_run_serves)

lemma sync_serves:
  "sync_main True es = (map the (takeWhile (\<lambda>e. e \<noteq> None) es), None \<in> set es)"
proof -
  have "sync_loop es = (map the (takeWhile (\<lambda>e. e \<noteq> None) es), None \<in> set es)"
    by (induction es rule: sync_loop.induct) auto
  then show ?thesis by (simp add: sync_main_def)
qed

lemma daytime_servers_agree:
  "None \<notin> set es \<Longrightarrow> \<exists>st. daytime_main True es = Some st \<and> sync_main True es = (dt_conns st, False)"
proof -
  assume es: "None \<notin> set es"
  then have "\<forall>e \<in> set es. e \<noteq> None" by metis
  then have t: "takeWhile (\<lambda>e. e \<noteq> None) es = es" by (rule takeWhile_eq_all_conv [THEN iffD2])
  have "List.map_filter id es = map the es" using es by (induction es) (auto simp: List.map_filter_simps split: option.split, metis option.exhaust)
  then show ?thesis using daytime_serves [of es] es unfolding sync_serves t by auto
qed

text \<open>However the connection cuts the text into pieces, the client prints it whole and ends.\<close>

lemma client_prints_all:
  assumes "length argv = 2" "\<forall>p \<in> set ps. length p \<le> 128" "concat ps = text"
  shows "client_main argv True (map Received ps @ End_of_file # rs) = (text, Finished, 0)"
proof -
  have "client_loop (map Received ps @ End_of_file # rs) = (concat ps, Finished)"
    using assms(2) by (induction ps) auto
  then show ?thesis using assms(1,3) by (simp add: client_main_def)
qed

end
