(* ===== verification/Spec2Isabelle.thy ===== *)
theory Spec2Isabelle
  imports QPrelude Crc32 Codec UdpPacket CppString CppNumber FileSys Crypto History World
    UdpServer UdpTexts UdpKeys UdpFiles UdpTransfer IntroServer IntroSteps Friends
    CoordClient CoordSteps Coordination HttpServer HttpRequests HttpEffects Machine UdpSteps Process Rendezvous Contact
    Network Survival Conversation Arrivals Sharing Meeting Documents Removal ChatPrototype EarlyPages DemoServer Exercises
begin

text \<open>
  QChat, a peer-to-peer chat client with a coordinating server: \<open>app_final/client/main.cpp\<close> and
  \<open>QLib.hpp\<close>, and \<open>app_final/server/main.cpp\<close>; beside them the prototypes under
  \<open>development/Luka\<close>.

  \<^bold>\<open>The program.\<close> A client process serves a page to the browser on port 80
  (\<open>tcp_connection\<close>, \<open>http_server\<close>), keeps one \<open>udp_server\<close> for each friend it knows an address of,
  and asks the coordinating server every two seconds for the addresses of friends that are offline
  (\<open>tcp_c_client\<close>). Friends exchange 512-byte datagrams: texts, keys, names and files in pieces. All
  components of a client run on one thread under one \<open>asio::io_context\<close> and share global variables,
  the table of connections and the directory tree \<open>friends\<close>, \<open>received\<close>, \<open>user_settings\<close>. The
  coordinating server is another single-threaded process with a table of active sessions.

  \<^bold>\<open>The model.\<close> An asynchronous operation under way is part of the state of the object
  that started it; its completion handler is a function from the object and the process state to an
  outcome and a new state. Exceptions and undefined behaviour are values (theory QPrelude). The
  theories, in the order of their dependencies:

  \<^item> QPrelude: machine types, failures, bytes and characters. Codec: big-endian fields, and the
    locales \<open>fixed_codec\<close> and \<open>stream_codec\<close> that every wire format is an instance of.
  \<^item> CppString, CppNumber: \<open>std::string\<close> searching and slicing, \<open>json_escape\<close>, \<open>html_escape\<close>,
    \<open>replace_string_pattern_with\<close>; decimal and hexadecimal numbers, \<open>stoi\<close>, \<open>stoul\<close>, \<open>operator>>\<close>.
  \<^item> FileSys: files and directories, path resolution; the locale \<open>text_store\<close>.
  \<^item> Crc32, UdpPacket: \<open>CRC32\<close>, proved to be polynomial division, and \<open>udp_packet\<close> with the reader's
    extraction of its fields.
  \<^item> Crypto: \<open>aes_encrypt\<close>, \<open>encrypt_ECC\<close>, key files and identifiers of both programs. OpenSSL's
    primitives are the parameter \<open>evp\<close>; \<open>evp_laws\<close> states what its documentation promises
    (decryption inverts encryption, both sides of a key exchange get the same secret, lengths).
  \<^item> History: \<open>save_message\<close> and \<open>make_json_messages\<close>, refining a list of entries.
  \<^item> World: the global variables of the client and what it observes of its environment.
  \<^item> UdpServer: every method of \<open>udp_server\<close>. UdpTexts, UdpKeys, UdpFiles, UdpTransfer: what the
    exchange of texts, keys and files between two of them achieves, and where it fails.
  \<^item> Machine: the locale of the program's state machines (initial states, steps, a predicate every step
    keeps), interpreted for a connection, the coordinating client, the coordinating server, the client
    process, the network of clients and both kinds of prototypes. UdpSteps: one connection under every sequence of datagrams, errors, timers and requests;
    its invariant, the end of every transfer, what a receive error does.
  \<^item> Friends: the friend list, connection data, selection, opening of the connections, pages.
  \<^item> IntroServer, IntroSteps: the coordinating server, its sessions as a step relation with the
    invariant of all reachable states.
  \<^item> CoordClient, CoordSteps: \<open>tcp_c_client\<close>, its pending operations as a step relation with the
    invariant that exactly one is always pending. Coordination: both ends of the protocol together.
    Rendezvous: a whole round trip of the polling protocol as one function (a path of both step
    relations), and two friends that find each other through it. Contact: what keeps their
    connection stable afterwards, and what does not.
  \<^item> HttpServer, HttpRequests: accumulation and routing of requests, the handler of each of the
    twenty-nine branches of \<open>handle_read\<close>, and \<open>main\<close>.
    HttpEffects: what requests do to the disk and to the state (adding a friend and removing it
    again, the switch of the coordinating client), and the private key as an image.
  \<^item> Process: the client process as a whole, its browser connections, peer connections and coordinating
    client stepping over one shared state, with the invariant of every run from start-up on. It rests
    on the locale \<open>opened_connections\<close> (Friends): what every construction of a \<open>udp_server\<close>
    gives, the table loaded at start-up and every later opening keeps.
    Removal: the process with the handlers that the removal of a friend leaves in the queue of the
    runtime, bound to an object that is gone.
  \<^item> Network: several client processes and the datagrams between them. The network keeps every
    datagram that was ever sent and may lose, repeat, delay and misdirect them; it invents none. What
    clients send never makes a handler read past its buffer, provided that no user's name has 494
    characters or more.
    Survival: for every event of the runtime, whether its handler is left by an exception or has undefined
    behaviour, and so ends the client: the exact list of all causes.
  \<^item> Conversation, Sharing: the paths from one browser to the other, composed of the theories above:
    exchange of keys, first text and the histories of both sides; an upload, its transfer in pieces
    and the request that shows the file to the friend. Meeting: from the polls of two users through
    the punched datagrams to both of them being online for the other under their names.
    Arrivals: texts as a sequence: any number of them, received in any order and not only in that of sending;
    and what a datagram of somebody else, who needs to know only a public key, does to a friend's key.
  \<^item> Documents: the conversation and the friend list as JSON documents, read back by a reader for arrays
    of objects (locale \<open>json_items\<close>, interpreted for both): what the browser of the receiver is told after
    a text has arrived, and the name that makes the list unreadable.
  \<^item> ChatPrototype (\<open>asio_p2p_chat_prototype/chat.cpp\<close>): two consoles; the window of twenty lines refines
    the log of all lines. EarlyPages (\<open>development/Luka/client\<close>), DemoServer (\<open>test_asio/http_server\<close>): the
    first page servers, their loop, and how the documents they produce compare with those of the client.
    Exercises (\<open>test_asio/tutorials\<close>): timers that share a state, whose runs end and all end alike (locale
    \<open>countdown\<close>), a counter without end, daytime servers and their client. \<open>development/Kamil/test1.cpp\<close> and
    \<open>test2.cpp\<close> are the text of the synchronous daytime server.

  \<^bold>\<open>Choices.\<close> Strings and byte lists have no length limit; where 64-bit positions could
  wrap, the statements bound the lengths (2 to the power 60 and below). \<open>std::unordered_map\<close> is an
  association list whose order stands for the unspecified iteration order. The clock, \<open>rand\<close> and
  \<open>RAND_bytes\<close> are streams or fields of the state. Paths are resolved lexically, as on the
  program's platform. No definition needs fuel: all loops of the code are bounded by their input,
  except the search for a free file name, whose termination rests on the number of files. The number
  of firings of a transfer's timer is bounded by its number of packets.

  \<^bold>\<open>Not modelled.\<close> Console output; exhaustion of memory (a frame header of the
  coordinating server may announce four gigabytes); the browser's page.
  \<open>_wersja_przeslanie\<close> is the same client, line for line (the include lines aside), distributed over other
  files, so that every definition of the client describes it as well; \<open>c_tcp_client.hpp\<close> is entirely commented
  out; \<open>test_asio/main.cpp\<close> prints two lines.
\<close>

end
